(* ===== verification/Prelude.thy ===== *)
theory Prelude
  imports Main
begin

text \<open>
  Shared vocabulary of the development. The Rust code propagates two kinds of failure:
  an \<^verbatim>\<open>eyre::Report\<close> returned through \<^verbatim>\<open>?\<close>, and a panic
  (\<^verbatim>\<open>unwrap\<close>, \<^verbatim>\<open>expect\<close>, \<^verbatim>\<open>panic!\<close>, an index out of range, a remainder
  by zero). Both become values of \<open>failure\<close>, and a fallible computation has the type
  \<open>'a result\<close> with \<open>Inl\<close> the failure. \<open>bindR\<close> is the \<^verbatim>\<open>?\<close> operator.
  The collections declared here are filled by the component theories: \<open>result_simps\<close>
  with the equations that evaluate a fallible operation on each branch, \<open>fs_simps\<close>
  with the characteristic equations of the file-system model.
\<close>

named_theorems result_simps "equations of fallible operations, one per branch"
named_theorems fs_simps "characteristic equations of the file-system model"

datatype failure = Error string | Panic string

type_synonym 'a result = "failure + 'a"

definition bindR :: "'a result \<Rightarrow> ('a \<Rightarrow> 'b result) \<Rightarrow> 'b result" where
  "bindR m f = (case m of Inl e \<Rightarrow> Inl e | Inr x \<Rightarrow> f x)"

text \<open>
  A fallible operation on a state returns its result together with the state it leaves:
  the files a Rust function wrote before it failed stay on disk. \<open>bindS\<close> is
  \<^verbatim>\<open>?\<close> in this setting.
\<close>

type_synonym ('a, 's) outcome = "'a result \<times> 's"

definition bindS :: "('a, 's) outcome \<Rightarrow> ('a \<Rightarrow> 's \<Rightarrow> ('b, 's) outcome) \<Rightarrow> ('b, 's) outcome" where
  "bindS m f = (case m of (Inl e, s) \<Rightarrow> (Inl e, s) | (Inr x, s) \<Rightarrow> f x s)"

text \<open>An I/O call of the standard library whose failure is an \<^verbatim>\<open>Err\<close> with a message.\<close>

definition io_check :: "string option \<Rightarrow> unit result" where
  "io_check r = (case r of None \<Rightarrow> Inr () | Some msg \<Rightarrow> Inl (Error msg))"

primrec is_panic :: "failure \<Rightarrow> bool" where
  "is_panic (Error _) = False"
| "is_panic (Panic _) = True"

subsection \<open>Evaluation of the error monad\<close>

lemma bindR_Inl [simp, result_simps]: "bindR (Inl e) f = Inl e"
  by (simp add: bindR_def)

lemma bindR_Inr [simp, result_simps]: "bindR (Inr x) f = f x"
  by (simp add: bindR_def)

lemma bindR_eq_Inr: "bindR m f = Inr y \<longleftrightarrow> (\<exists>x. m = Inr x \<and> f x = Inr y)"
  by (cases m) simp_all

lemma bindR_eq_Inl: "bindR m f = Inl e \<longleftrightarrow> (m = Inl e \<or> (\<exists>x. m = Inr x \<and> f x = Inl e))"
  by (cases m) simp_all

lemma bindR_assoc: "bindR (bindR m f) g = bindR m (\<lambda>x. bindR (f x) g)"
  by (cases m) simp_all

lemma bindR_cong [fundef_cong]:
  "m = m' \<Longrightarrow> (\<And>x. m' = Inr x \<Longrightarrow> f x = g x) \<Longrightarrow> bindR m f = bindR m' g"
  unfolding bindR_def by (auto split: sum.split)

lemma bindS_simps [simp, result_simps]:
  "bindS (Inl e, s) f = (Inl e, s)" "bindS (Inr x, s) f = f x s"
  by (simp_all add: bindS_def)

lemma bindS_eq_Inr:
  "bindS m f = (Inr y, s') \<longleftrightarrow> (\<exists>x s. m = (Inr x, s) \<and> f x s = (Inr y, s'))"
  by (cases m; cases "fst m") (auto simp: bindS_def)

lemma bindS_assoc:
  "bindS (bindS m f) g = bindS m (\<lambda>x s. bindS (f x s) g)"
  by (auto simp: bindS_def split: prod.split sum.split)

lemma bindS_return [simp]: "bindS m (\<lambda>x s. (Inr x, s)) = m"
  by (auto simp: bindS_def split: prod.split sum.split)

lemma io_check_simps [simp, result_simps]:
  "io_check None = Inr ()" "io_check (Some msg) = Inl (Error msg)"
  by (simp_all add: io_check_def)

lemma io_check_Inr_iff [simp]: "io_check r = Inr u \<longleftrightarrow> r = None"
  by (cases r) simp_all

subsection \<open>Lists\<close>

text \<open>Facts on the list operations that the loops of the code reduce to.\<close>

lemma filter_removeAll_comm: "filter P (removeAll x xs) = removeAll x (filter P xs)"
  by (induction xs) auto

lemma removeAll_filter_not_in:
  "removeAll x (filter (\<lambda>e. e \<notin> A \<or> P e) xs) = filter (\<lambda>e. e \<notin> insert x A \<or> P e) xs"
  if "\<not> P x"
  using that by (induction xs) auto

lemma filter_in_set_eq:
  "x \<in> set (filter P xs) \<longleftrightarrow> x \<in> set xs \<and> P x"
  by simp

end
