(* ===== verification/Fs.thy ===== *)
theory Fs
  imports Prelude
begin

text \<open>
  The part of Rust's \<^verbatim>\<open>std::path\<close> and \<^verbatim>\<open>std::fs\<close> that the pipeline relies on.
  A path is a string with \<^verbatim>\<open>/\<close> separators; \<open>dirname\<close> and \<open>basename\<close> are
  \<^verbatim>\<open>Path::parent\<close> and \<^verbatim>\<open>Path::file_name\<close> (the code's
  \<^verbatim>\<open>get_file_dirname\<close>), \<open>path_extension\<close>, \<open>file_stem\<close> and
  \<open>with_extension\<close> follow the standard library's split of a file name at its last dot.
  The file system is a map from directory paths to their entries; a directory listed in its
  parent has a key of its own. The operations return an \<^verbatim>\<open>Err\<close> where the
  standard library does (a missing directory or file).
\<close>

type_synonym path = string

datatype dentry = FileE string | DirE string

primrec ename :: "dentry \<Rightarrow> string" where
  "ename (FileE n) = n"
| "ename (DirE n) = n"

primrec is_dir :: "dentry \<Rightarrow> bool" where
  "is_dir (FileE _) = False"
| "is_dir (DirE _) = True"

type_synonym fs = "path \<rightharpoonup> dentry list"

subsection \<open>Paths\<close>

definition child :: "path \<Rightarrow> string \<Rightarrow> path" where
  "child d n = d @ CHR ''/'' # n"

definition dirname :: "path \<Rightarrow> path" where
  "dirname p = rev (drop 1 (dropWhile (\<lambda>c. c \<noteq> CHR ''/'') (rev p)))"

definition basename :: "path \<Rightarrow> string" where
  "basename p = rev (takeWhile (\<lambda>c. c \<noteq> CHR ''/'') (rev p))"

text \<open>\<open>below d k\<close>: the path \<open>k\<close> lies strictly inside the directory \<open>d\<close>.\<close>

definition below :: "path \<Rightarrow> path \<Rightarrow> bool" where
  "below d k \<longleftrightarrow> take (Suc (length d)) k = d @ ''/''"

text \<open>
  \<^verbatim>\<open>rsplit_file_at_dot\<close> of the standard library: the part before and the part after
  the last dot of a file name; a name without a dot, or whose only dot is its first
  character, has no extension.
\<close>

definition rsplit_dot :: "string \<Rightarrow> string option \<times> string option" where
  "rsplit_dot f =
     (if f = ''..'' then (Some f, None)
      else if CHR ''.'' \<notin> set f then (None, Some f)
      else (let r = rev f;
                after = rev (takeWhile (\<lambda>c. c \<noteq> CHR ''.'') r);
                before = rev (drop 1 (dropWhile (\<lambda>c. c \<noteq> CHR ''.'') r))
            in if before = [] then (Some f, None) else (Some before, Some after)))"

definition path_extension :: "string \<Rightarrow> string option" where
  "path_extension f = (case rsplit_dot f of (before, after) \<Rightarrow>
     (case before of None \<Rightarrow> None | Some _ \<Rightarrow> after))"

definition file_stem :: "string \<Rightarrow> string option" where
  "file_stem f = (case rsplit_dot f of (before, after) \<Rightarrow>
     (case before of None \<Rightarrow> after | Some b \<Rightarrow> Some b))"

definition with_extension :: "string \<Rightarrow> string \<Rightarrow> string" where
  "with_extension f e =
     (if f \<in> {[], ''.'', ''..''} then f
      else (case file_stem f of None \<Rightarrow> f
            | Some s \<Rightarrow> s @ (if e = [] then [] else CHR ''.'' # e)))"

subsection \<open>The file system\<close>

definition remove_tree :: "path \<Rightarrow> fs \<Rightarrow> fs" where
  "remove_tree p m = (\<lambda>k. if k = p \<or> below p k then None else m k)"

definition read_sort_dir :: "path \<Rightarrow> fs \<Rightarrow> dentry list result" where
  "read_sort_dir d m = (case m d of None \<Rightarrow> Inl (Error ''No such file or directory'')
                                  | Some es \<Rightarrow> Inr es)"

definition fs_remove_file :: "path \<Rightarrow> fs \<Rightarrow> fs result" where
  "fs_remove_file p m =
     (case m (dirname p) of
        Some es \<Rightarrow> if FileE (basename p) \<in> set es
                   then Inr (m(dirname p \<mapsto> removeAll (FileE (basename p)) es))
                   else Inl (Error ''No such file or directory'')
      | None \<Rightarrow> Inl (Error ''No such file or directory''))"

definition fs_remove_dir_all :: "path \<Rightarrow> fs \<Rightarrow> fs result" where
  "fs_remove_dir_all p m =
     (case m p of
        None \<Rightarrow> Inl (Error ''No such file or directory'')
      | Some _ \<Rightarrow> Inr ((remove_tree p m)(dirname p :=
                          map_option (removeAll (DirE (basename p))) (m (dirname p)))))"

definition fs_write :: "path \<Rightarrow> fs \<Rightarrow> fs result" where
  "fs_write p m =
     (case m (dirname p) of
        None \<Rightarrow> Inl (Error ''No such file or directory'')
      | Some es \<Rightarrow> Inr (m(dirname p \<mapsto>
                     (if FileE (basename p) \<in> set es then es else es @ [FileE (basename p)]))))"

definition fs_create_dir :: "path \<Rightarrow> fs \<Rightarrow> fs result" where
  "fs_create_dir p m =
     (if m p \<noteq> None then Inr m
      else (case m (dirname p) of
              None \<Rightarrow> Inl (Error ''No such file or directory'')
            | Some es \<Rightarrow> Inr (m(p \<mapsto> [], dirname p \<mapsto> es @ [DirE (basename p)]))))"

text \<open>
  A directory is well formed when its entry names are distinct, contain no separator,
  and every subdirectory it lists exists.
\<close>

definition names_ok :: "dentry list \<Rightarrow> bool" where
  "names_ok es = list_all (\<lambda>e. CHR ''/'' \<notin> set (ename e) \<and> ename e \<noteq> []) es"

definition wf_dir :: "fs \<Rightarrow> path \<Rightarrow> bool" where
  "wf_dir m d = (case m d of None \<Rightarrow> True
     | Some es \<Rightarrow> distinct (map ename es) \<and> names_ok es
                 \<and> list_all (\<lambda>e. is_dir e \<longrightarrow> m (child d (ename e)) \<noteq> None) es)"

text \<open>
  No entry name of any directory contains the separator: the invariant of a real file
  system that every operation of the model keeps.
\<close>

definition slash_free :: "dentry list \<Rightarrow> bool" where
  "slash_free es = list_all (\<lambda>e. CHR ''/'' \<notin> set (ename e)) es"

definition names_inv :: "fs \<Rightarrow> bool" where
  "names_inv m \<longleftrightarrow> (\<forall>d es. m d = Some es \<longrightarrow> slash_free es)"

subsection \<open>Paths: characteristic lemmas\<close>

lemma dirname_child [simp, fs_simps]: "CHR ''/'' \<notin> set n \<Longrightarrow> dirname (child d n) = d"
proof -
  assume n: "CHR ''/'' \<notin> set n"
  then have "dropWhile (\<lambda>c. c \<noteq> CHR ''/'') (rev n @ CHR ''/'' # rev d) = CHR ''/'' # rev d"
    by (subst dropWhile_append2) auto
  then show ?thesis by (simp add: dirname_def child_def)
qed

lemma basename_child [simp, fs_simps]: "CHR ''/'' \<notin> set n \<Longrightarrow> basename (child d n) = n"
proof -
  assume n: "CHR ''/'' \<notin> set n"
  then have "takeWhile (\<lambda>c. c \<noteq> CHR ''/'') (rev n @ CHR ''/'' # rev d) = rev n"
    by (subst takeWhile_append2) auto
  then show ?thesis by (simp add: basename_def child_def)
qed

lemma child_inj [simp]: "child d n = child d n' \<longleftrightarrow> n = n'"
  by (simp add: child_def)

lemma child_neq_self [simp]: "child d n \<noteq> d" "d \<noteq> child d n"
  by (simp_all add: child_def)

lemma below_child [simp]: "below d (child d n)"
  by (simp add: below_def child_def)

lemma not_below_self [simp]: "\<not> below d d"
  by (simp add: below_def)

lemma below_length: "below d k \<Longrightarrow> length d < length k"
proof -
  assume "below d k"
  then have "length (take (Suc (length d)) k) = Suc (length d)"
    by (simp add: below_def)
  then show ?thesis by simp
qed

lemma below_trans:
  assumes dk: "below d k" and kj: "below k j"
  shows "below d j"
proof -
  have len: "Suc (length d) \<le> length k"
    using below_length [OF dk] by simp
  have "take (Suc (length d)) j = take (Suc (length d)) (take (Suc (length k)) j)"
    using len by (simp add: min_def)
  also have "\<dots> = take (Suc (length d)) (k @ ''/'')"
    using kj by (simp add: below_def)
  also have "\<dots> = take (Suc (length d)) k"
    using len by simp
  also have "\<dots> = d @ ''/''"
    using dk by (simp add: below_def)
  finally show ?thesis by (simp add: below_def)
qed

text \<open>Two children of one directory, neither name containing a separator, are disjoint.\<close>

lemma child_not_below_child:
  assumes "CHR ''/'' \<notin> set m"
  shows "\<not> below (child d n) (child d m)"
proof
  assume b: "below (child d n) (child d m)"
  then have "take (Suc (length (child d n))) (child d m) = child d n @ ''/''"
    by (simp add: below_def)
  then have "take (Suc (length n)) m = n @ ''/''"
    by (simp add: child_def)
  then have "CHR ''/'' \<in> set m"
    by (metis append_Cons in_set_takeD in_set_conv_decomp)
  with assms show False by simp
qed

lemma parent_not_below_child [simp]: "\<not> below (child d n) d"
  using below_length by (fastforce simp: child_def)

lemma ext_after_last_dot:
  assumes "s \<noteq> []" "e \<noteq> []" "CHR ''.'' \<notin> set e"
  shows "path_extension (s @ CHR ''.'' # e) = Some e"
proof -
  have tw: "takeWhile (\<lambda>c. c \<noteq> CHR ''.'') (rev e @ CHR ''.'' # rev s) = rev e"
    using assms(3) by (subst takeWhile_append2) auto
  have dw: "dropWhile (\<lambda>c. c \<noteq> CHR ''.'') (rev e @ CHR ''.'' # rev s) = CHR ''.'' # rev s"
    using assms(3) by (subst dropWhile_append2) auto
  have "s @ CHR ''.'' # e \<noteq> ''..''"
    using assms(1,2) by (cases e) (auto simp: Cons_eq_append_conv append_eq_Cons_conv)
  with assms(1) tw dw show ?thesis
    by (simp add: path_extension_def rsplit_dot_def Let_def)
qed

lemma file_stem_nonempty: "f \<noteq> [] \<Longrightarrow> \<exists>s. file_stem f = Some s \<and> s \<noteq> []"
  by (auto simp: file_stem_def rsplit_dot_def Let_def)

text \<open>
  Every binary the pipeline writes (\<^verbatim>\<open>with_extension("out")\<close>,
  \<^verbatim>\<open>"cov.out"\<close>, \<^verbatim>\<open>"evo.out"\<close>) has the extension \<^verbatim>\<open>out\<close>.
\<close>

lemma extension_with_extension:
  assumes "f \<notin> {[], ''.'', ''..''}" "e \<noteq> []" "CHR ''.'' \<notin> set e"
  shows "path_extension (with_extension f e) = Some e"
proof -
  obtain s where s: "file_stem f = Some s" "s \<noteq> []"
    using file_stem_nonempty assms(1) by blast
  then show ?thesis
    using assms by (simp add: with_extension_def ext_after_last_dot)
qed

lemma extension_with_extension_dotted:
  assumes "f \<notin> {[], ''.'', ''..''}" "e \<noteq> []" "CHR ''.'' \<notin> set e"
  shows "path_extension (with_extension f (q @ CHR ''.'' # e)) = Some e"
proof -
  obtain s where s: "file_stem f = Some s" "s \<noteq> []"
    using file_stem_nonempty assms(1) by blast
  then have "with_extension f (q @ CHR ''.'' # e) = (s @ CHR ''.'' # q) @ CHR ''.'' # e"
    using assms(1) by (simp add: with_extension_def)
  then show ?thesis
    using ext_after_last_dot [of "s @ CHR ''.'' # q" e] s(2) assms(2,3) by simp
qed

subsection \<open>The file system: characteristic lemmas\<close>

lemma remove_tree_other [simp, fs_simps]:
  "k \<noteq> p \<Longrightarrow> \<not> below p k \<Longrightarrow> remove_tree p m k = m k"
  by (simp add: remove_tree_def)

lemma remove_tree_self [simp, fs_simps]: "remove_tree p m p = None"
  by (simp add: remove_tree_def)

lemma below_child_below: "below (child d n) k \<Longrightarrow> below d k"
  using below_trans below_child by blast

lemma read_sort_dir_simps [simp, fs_simps]:
  "m d = None \<Longrightarrow> read_sort_dir d m = Inl (Error ''No such file or directory'')"
  "m d = Some es \<Longrightarrow> read_sort_dir d m = Inr es"
  by (simp_all add: read_sort_dir_def)

lemma fs_remove_file_child [fs_simps]:
  assumes "m d = Some es" "FileE n \<in> set es" "CHR ''/'' \<notin> set n"
  shows "fs_remove_file (child d n) m = Inr (m(d \<mapsto> removeAll (FileE n) es))"
  using assms by (simp add: fs_remove_file_def)

lemma fs_remove_dir_all_child [fs_simps]:
  assumes "m (child d n) \<noteq> None" "CHR ''/'' \<notin> set n"
  shows "fs_remove_dir_all (child d n) m =
           Inr ((remove_tree (child d n) m)(d := map_option (removeAll (DirE n)) (m d)))"
  using assms by (auto simp add: fs_remove_dir_all_def)

lemma fs_remove_dir_all_missing [fs_simps]:
  "m p = None \<Longrightarrow> fs_remove_dir_all p m = Inl (Error ''No such file or directory'')"
  by (simp add: fs_remove_dir_all_def)

lemma names_ok_Cons [simp]:
  "names_ok (e # es) \<longleftrightarrow> CHR ''/'' \<notin> set (ename e) \<and> ename e \<noteq> [] \<and> names_ok es"
  by (simp add: names_ok_def)

lemma names_ok_member: "names_ok es \<Longrightarrow> e \<in> set es \<Longrightarrow> CHR ''/'' \<notin> set (ename e)"
  by (simp add: names_ok_def list_all_iff)

lemma distinct_names_distinct: "distinct (map ename es) \<Longrightarrow> distinct es"
  by (simp add: distinct_map)

lemma set_rsplit_dot:
  "rsplit_dot f = (b, a) \<Longrightarrow> (\<forall>x. b = Some x \<longrightarrow> set x \<subseteq> set f) \<and> (\<forall>x. a = Some x \<longrightarrow> set x \<subseteq> set f)"
  unfolding rsplit_dot_def Let_def
  by (auto split: if_splits dest!: in_set_dropD set_dropWhileD set_takeWhileD)

lemma set_file_stem: "file_stem f = Some x \<Longrightarrow> set x \<subseteq> set f"
  using set_rsplit_dot unfolding file_stem_def by (auto split: prod.splits option.splits)

lemma set_with_extension: "set (with_extension f e) \<subseteq> set f \<union> insert (CHR ''.'') (set e)"
proof (cases "file_stem f")
  case None
  then show ?thesis by (auto simp: with_extension_def)
next
  case (Some x)
  then have "set x \<subseteq> set f" by (rule set_file_stem)
  with Some show ?thesis by (auto simp: with_extension_def)
qed

lemma slash_notin_basename [simp]: "CHR ''/'' \<notin> set (basename p)"
proof -
  have "\<forall>x \<in> set (takeWhile (\<lambda>c. c \<noteq> CHR ''/'') (rev p)). x \<noteq> CHR ''/''"
    by (auto dest: set_takeWhileD)
  then show ?thesis by (auto simp: basename_def)
qed

subsection \<open>The name invariant\<close>

lemma slash_free_removeAll [simp]: "slash_free es \<Longrightarrow> slash_free (removeAll e es)"
  by (auto simp: slash_free_def list_all_iff)

lemma names_invD: "names_inv m \<Longrightarrow> m d = Some es \<Longrightarrow> slash_free es"
  by (simp add: names_inv_def)

lemma names_inv_remove_tree: "names_inv m \<Longrightarrow> names_inv (remove_tree p m)"
  by (simp add: names_inv_def remove_tree_def)

lemma names_inv_fs_write: "fs_write p m = Inr m' \<Longrightarrow> names_inv m \<Longrightarrow> names_inv m'"
  by (auto simp: fs_write_def names_inv_def slash_free_def split: option.splits if_splits)

lemma names_inv_fs_create_dir: "fs_create_dir p m = Inr m' \<Longrightarrow> names_inv m \<Longrightarrow> names_inv m'"
  by (auto simp: fs_create_dir_def names_inv_def slash_free_def split: option.splits if_splits)

lemma names_inv_fs_remove_file: "fs_remove_file p m = Inr m' \<Longrightarrow> names_inv m \<Longrightarrow> names_inv m'"
  by (auto simp: fs_remove_file_def names_inv_def split: option.splits if_splits)

lemma names_inv_fs_remove_dir_all: "fs_remove_dir_all p m = Inr m' \<Longrightarrow> names_inv m \<Longrightarrow> names_inv m'"
  by (auto simp: fs_remove_dir_all_def names_inv_def remove_tree_def split: option.splits if_splits)

end
