(* ===== verification/Cleanup.thy ===== *)
theory Cleanup
  imports Fs
begin

text \<open>
  \<^verbatim>\<open>cleanup_sanitize_dir\<close> (src/src/execution/sanitize.rs, module \<^verbatim>\<open>utils\<close>):
  every entry of a work directory whose extension is not one of \<^verbatim>\<open>log\<close>,
  \<^verbatim>\<open>out\<close>, \<^verbatim>\<open>cc\<close>, \<^verbatim>\<open>profdata\<close>, \<^verbatim>\<open>cost\<close> is removed, a
  directory with \<^verbatim>\<open>remove_dir_all\<close> and a file with \<^verbatim>\<open>remove_file\<close>; the
  first failing removal aborts the loop. The listing is the one \<^verbatim>\<open>read_sort_dir\<close>
  returned before the loop started. The lemmas show that on a well-formed directory the
  loop never fails, leaves exactly the retained entries, and touches nothing outside the
  directory.
\<close>

definition retained_exts :: "string list" where
  "retained_exts = [''log'', ''out'', ''cc'', ''profdata'', ''cost'']"

definition is_retained :: "string \<Rightarrow> bool" where
  "is_retained n = (case path_extension n of None \<Rightarrow> False | Some e \<Rightarrow> e \<in> set retained_exts)"

fun cleanup_loop :: "path \<Rightarrow> dentry list \<Rightarrow> fs \<Rightarrow> fs result" where
  "cleanup_loop d [] m = Inr m"
| "cleanup_loop d (e # es) m =
     (if is_retained (ename e) then cleanup_loop d es m
      else bindR (if is_dir e then fs_remove_dir_all (child d (ename e)) m
                  else fs_remove_file (child d (ename e)) m)
                 (cleanup_loop d es))"

definition cleanup_sanitize_dir :: "path \<Rightarrow> fs \<Rightarrow> fs result" where
  "cleanup_sanitize_dir d m = bindR (read_sort_dir d m) (\<lambda>files. cleanup_loop d files m)"

text \<open>\<open>outside d k\<close>: the path \<open>k\<close> is neither \<open>d\<close> nor inside it.\<close>

definition outside :: "path \<Rightarrow> path \<Rightarrow> bool" where
  "outside d k \<longleftrightarrow> k \<noteq> d \<and> \<not> below d k"

subsection \<open>One removal\<close>

lemma distinct_ename_eq:
  "distinct (map ename cur) \<Longrightarrow> e \<in> set cur \<Longrightarrow> e' \<in> set cur \<Longrightarrow> ename e = ename e' \<Longrightarrow> e = e'"
  by (simp add: distinct_map inj_on_def)

lemma outside_child:
  "outside d k \<Longrightarrow> k \<noteq> child d n \<and> \<not> below (child d n) k"
  unfolding outside_def using below_child below_child_below by blast

lemma cleanup_remove_step:
  assumes md: "m d = Some (filter (\<lambda>x. x \<notin> A \<or> is_retained (ename x)) cur)"
      and e: "e \<in> set cur" "e \<notin> A" "\<not> is_retained (ename e)"
      and nm: "CHR ''/'' \<notin> set (ename e)"
      and dir: "is_dir e \<longrightarrow> m (child d (ename e)) \<noteq> None"
  shows "\<exists>m1. (if is_dir e then fs_remove_dir_all (child d (ename e)) m
               else fs_remove_file (child d (ename e)) m) = Inr m1
           \<and> m1 d = Some (filter (\<lambda>x. x \<notin> insert e A \<or> is_retained (ename x)) cur)
           \<and> (\<forall>k. k \<noteq> d \<and> k \<noteq> child d (ename e) \<and> \<not> below (child d (ename e)) k \<longrightarrow> m1 k = m k)"
proof -
  have rm: "removeAll e (filter (\<lambda>x. x \<notin> A \<or> is_retained (ename x)) cur)
              = filter (\<lambda>x. x \<notin> insert e A \<or> is_retained (ename x)) cur"
    using removeAll_filter_not_in [where P = "\<lambda>x. is_retained (ename x)"] e(3) by blast
  show ?thesis
  proof (cases e)
    case (FileE n)
    have "FileE n \<in> set (filter (\<lambda>x. x \<notin> A \<or> is_retained (ename x)) cur)"
      using e FileE by simp
    with md nm FileE rm show ?thesis
      by (simp add: fs_remove_file_child)
  next
    case (DirE n)
    with dir nm md rm show ?thesis
      by (simp add: fs_remove_dir_all_child)
  qed
qed

subsection \<open>The loop\<close>

text \<open>
  The loop invariant: after the entries of \<open>A\<close> have been visited, the directory lists
  the entries of \<open>cur\<close> that are unvisited or retained.
\<close>

lemma cleanup_loop_spec:
  assumes "m d = Some (filter (\<lambda>x. x \<notin> A \<or> is_retained (ename x)) cur)"
      and "distinct xs" "set xs \<subseteq> set cur" "set xs \<inter> A = {}"
      and "names_ok cur" "distinct (map ename cur)"
      and "\<forall>e \<in> set xs. is_dir e \<longrightarrow> m (child d (ename e)) \<noteq> None"
  shows "\<exists>m'. cleanup_loop d xs m = Inr m'
           \<and> m' d = Some (filter (\<lambda>x. x \<notin> A \<union> set xs \<or> is_retained (ename x)) cur)
           \<and> (\<forall>k. outside d k \<longrightarrow> m' k = m k)"
  using assms
proof (induction xs arbitrary: m A)
  case Nil
  then show ?case by simp
next
  case (Cons e xs)
  have e_cur: "e \<in> set cur" and e_A: "e \<notin> A"
    using Cons.prems(3,4) by auto
  have nm: "CHR ''/'' \<notin> set (ename e)"
    using names_ok_member Cons.prems(5) e_cur by blast
  show ?case
  proof (cases "is_retained (ename e)")
    case True
    have "filter (\<lambda>x. x \<notin> A \<or> is_retained (ename x)) cur
            = filter (\<lambda>x. x \<notin> insert e A \<or> is_retained (ename x)) cur"
      using True by (auto intro!: filter_cong)
    then have "\<exists>m'. cleanup_loop d xs m = Inr m'
           \<and> m' d = Some (filter (\<lambda>x. x \<notin> insert e A \<union> set xs \<or> is_retained (ename x)) cur)
           \<and> (\<forall>k. outside d k \<longrightarrow> m' k = m k)"
      using Cons.prems by (intro Cons.IH) auto
    with True show ?thesis by simp
  next
    case False
    obtain m1 where
      step: "(if is_dir e then fs_remove_dir_all (child d (ename e)) m
              else fs_remove_file (child d (ename e)) m) = Inr m1"
      and m1d: "m1 d = Some (filter (\<lambda>x. x \<notin> insert e A \<or> is_retained (ename x)) cur)"
      and frame: "\<forall>k. k \<noteq> d \<and> k \<noteq> child d (ename e) \<and> \<not> below (child d (ename e)) k
                     \<longrightarrow> m1 k = m k"
      using cleanup_remove_step [of m d A cur e] Cons.prems(1,7) e_cur e_A False nm by auto
    have dirs: "\<forall>e' \<in> set xs. is_dir e' \<longrightarrow> m1 (child d (ename e')) \<noteq> None"
    proof (intro ballI impI)
      fix e' assume e': "e' \<in> set xs" "is_dir e'"
      have "e' \<noteq> e" "e' \<in> set cur"
        using e' Cons.prems(2,3) by auto
      then have "ename e' \<noteq> ename e"
        using distinct_ename_eq [OF Cons.prems(6)] e_cur by blast
      moreover have "CHR ''/'' \<notin> set (ename e')"
        using names_ok_member Cons.prems(5) \<open>e' \<in> set cur\<close> by blast
      ultimately have "m1 (child d (ename e')) = m (child d (ename e'))"
        using frame child_not_below_child by simp
      then show "m1 (child d (ename e')) \<noteq> None"
        using Cons.prems(7) e' by simp
    qed
    have "\<exists>m'. cleanup_loop d xs m1 = Inr m'
           \<and> m' d = Some (filter (\<lambda>x. x \<notin> insert e A \<union> set xs \<or> is_retained (ename x)) cur)
           \<and> (\<forall>k. outside d k \<longrightarrow> m' k = m1 k)"
      using Cons.prems dirs m1d by (intro Cons.IH) auto
    moreover have "\<forall>k. outside d k \<longrightarrow> m1 k = m k"
      using frame outside_child by (auto simp: outside_def)
    ultimately show ?thesis
      using False step by auto
  qed
qed

subsection \<open>The whole cleanup\<close>

lemma cleanup_sanitize_dir_ok:
  assumes "wf_dir m d" "m d = Some es"
  shows "\<exists>m'. cleanup_sanitize_dir d m = Inr m'
           \<and> m' d = Some (filter (\<lambda>x. is_retained (ename x)) es)
           \<and> (\<forall>k. outside d k \<longrightarrow> m' k = m k)"
proof -
  have wf: "distinct (map ename es)" "names_ok es"
      "\<forall>e \<in> set es. is_dir e \<longrightarrow> m (child d (ename e)) \<noteq> None"
    using assms by (auto simp: wf_dir_def list_all_iff)
  have start: "m d = Some (filter (\<lambda>x. x \<notin> {} \<or> is_retained (ename x)) es)"
    using assms(2) by simp
  have all: "filter (\<lambda>x. x \<notin> {} \<union> set es \<or> is_retained (ename x)) es
               = filter (\<lambda>x. is_retained (ename x)) es"
    by (auto intro: filter_cong)
  obtain m' where "cleanup_loop d es m = Inr m'"
      "m' d = Some (filter (\<lambda>x. x \<notin> {} \<union> set es \<or> is_retained (ename x)) es)"
      "\<forall>k. outside d k \<longrightarrow> m' k = m k"
    using cleanup_loop_spec [of m d "{}" es es] start wf distinct_names_distinct by blast
  with all assms(2) show ?thesis
    by (simp add: cleanup_sanitize_dir_def)
qed

lemma cleanup_sanitize_dir_missing [result_simps]:
  "m d = None \<Longrightarrow> cleanup_sanitize_dir d m = Inl (Error ''No such file or directory'')"
  by (simp add: cleanup_sanitize_dir_def)

subsection \<open>What a successful cleanup did\<close>

text \<open>
  Without assuming the directory well formed: when the loop returns, every entry it visited
  that is not retained is gone, and nothing outside the directory changed.
\<close>

lemma cleanup_step_Inr:
  assumes md: "m d = Some (filter (\<lambda>x. x \<notin> A \<or> is_retained (ename x)) cur)"
      and ret: "\<not> is_retained (ename e)" and nm: "CHR ''/'' \<notin> set (ename e)"
      and step: "(if is_dir e then fs_remove_dir_all (child d (ename e)) m
                  else fs_remove_file (child d (ename e)) m) = Inr m1"
  shows "m1 d = Some (filter (\<lambda>x. x \<notin> insert e A \<or> is_retained (ename x)) cur)
         \<and> (\<forall>k. outside d k \<longrightarrow> m1 k = m k)"
proof -
  have rm: "removeAll e (filter (\<lambda>x. x \<notin> A \<or> is_retained (ename x)) cur)
              = filter (\<lambda>x. x \<notin> insert e A \<or> is_retained (ename x)) cur"
    using removeAll_filter_not_in [where P = "\<lambda>x. is_retained (ename x)"] ret by blast
  show ?thesis
  proof (cases e)
    case (FileE n)
    with step nm have "m1 = m(d \<mapsto> removeAll (FileE n) (filter (\<lambda>x. x \<notin> A \<or> is_retained (ename x)) cur))"
      using md by (auto simp: fs_remove_file_def split: if_splits)
    with FileE rm show ?thesis by (simp add: outside_def)
  next
    case (DirE n)
    with step have "m (child d n) \<noteq> None"
      by (auto simp: fs_remove_dir_all_def split: option.splits)
    with step DirE nm have "m1 = (remove_tree (child d n) m)(d := map_option (removeAll (DirE n)) (m d))"
      by (simp add: fs_remove_dir_all_child)
    with DirE rm md show ?thesis
      using outside_child by (auto simp: outside_def)
  qed
qed

lemma cleanup_loop_Inr:
  assumes "cleanup_loop d xs m = Inr m'"
      and "m d = Some (filter (\<lambda>x. x \<notin> A \<or> is_retained (ename x)) cur)"
      and "set xs \<subseteq> set cur" "slash_free cur"
  shows "m' d = Some (filter (\<lambda>x. x \<notin> A \<union> set xs \<or> is_retained (ename x)) cur)
         \<and> (\<forall>k. outside d k \<longrightarrow> m' k = m k)"
  using assms
proof (induction xs arbitrary: m A)
  case Nil
  then show ?case by simp
next
  case (Cons e xs)
  have nm: "CHR ''/'' \<notin> set (ename e)"
    using Cons.prems(3,4) by (auto simp: slash_free_def list_all_iff)
  show ?case
  proof (cases "is_retained (ename e)")
    case True
    have "filter (\<lambda>x. x \<notin> A \<or> is_retained (ename x)) cur
            = filter (\<lambda>x. x \<notin> insert e A \<or> is_retained (ename x)) cur"
      using True by (auto intro!: filter_cong)
    with True Cons.prems show ?thesis
      using Cons.IH [of m "insert e A"] by simp
  next
    case False
    from Cons.prems(1) False obtain m1 where
      step: "(if is_dir e then fs_remove_dir_all (child d (ename e)) m
              else fs_remove_file (child d (ename e)) m) = Inr m1"
      and rest: "cleanup_loop d xs m1 = Inr m'"
      by (auto simp: bindR_eq_Inr)
    have m1: "m1 d = Some (filter (\<lambda>x. x \<notin> insert e A \<or> is_retained (ename x)) cur)"
        "\<forall>k. outside d k \<longrightarrow> m1 k = m k"
      using cleanup_step_Inr [OF Cons.prems(2) False nm step] by simp_all
    from Cons.IH [OF rest m1(1)] Cons.prems(3,4) m1(2) show ?thesis by simp
  qed
qed

lemma cleanup_sanitize_dir_Inr:
  assumes "cleanup_sanitize_dir d m = Inr m'" "m d = Some es" "slash_free es"
  shows "m' d = Some (filter (\<lambda>x. is_retained (ename x)) es) \<and> (\<forall>k. outside d k \<longrightarrow> m' k = m k)"
proof -
  have "cleanup_loop d es m = Inr m'" "m d = Some (filter (\<lambda>x. x \<notin> {} \<or> is_retained (ename x)) es)"
    using assms by (simp_all add: cleanup_sanitize_dir_def)
  moreover have "filter (\<lambda>x. x \<notin> {} \<union> set es \<or> is_retained (ename x)) es
                   = filter (\<lambda>x. is_retained (ename x)) es"
    by (auto intro: filter_cong)
  ultimately show ?thesis
    using cleanup_loop_Inr [of d es m m' "{}" es] assms(3) by simp
qed

lemma names_inv_cleanup_loop: "cleanup_loop d xs m = Inr m' \<Longrightarrow> names_inv m \<Longrightarrow> names_inv m'"
  by (induction xs arbitrary: m)
    (auto simp: bindR_eq_Inr split: if_splits intro: names_inv_fs_remove_dir_all names_inv_fs_remove_file)

lemma names_inv_cleanup_sanitize_dir:
  "cleanup_sanitize_dir d m = Inr m' \<Longrightarrow> names_inv m \<Longrightarrow> names_inv m'"
  by (auto simp: cleanup_sanitize_dir_def bindR_eq_Inr read_sort_dir_def intro: names_inv_cleanup_loop
      split: option.splits)

subsection \<open>Which names are retained\<close>

lemma is_retained_with_extension:
  assumes "f \<notin> {[], ''.'', ''..''}" "e \<in> set retained_exts"
  shows "is_retained (with_extension f e)"
proof -
  have "e \<noteq> []" "CHR ''.'' \<notin> set e"
    using assms(2) by (auto simp: retained_exts_def)
  then show ?thesis
    using extension_with_extension [OF assms(1)] assms(2) by (simp add: is_retained_def)
qed

lemma is_retained_with_dotted_extension:
  assumes "f \<notin> {[], ''.'', ''..''}" "e \<in> set retained_exts"
  shows "is_retained (with_extension f (q @ CHR ''.'' # e))"
proof -
  have "e \<noteq> []" "CHR ''.'' \<notin> set e"
    using assms(2) by (auto simp: retained_exts_def)
  then show ?thesis
    using extension_with_extension_dotted [OF assms(1)] assms(2) by (simp add: is_retained_def)
qed

end
