(* ===== verification/Model.thy ===== *)
theory Model
  imports Cleanup
begin

text \<open>
  The state and the interfaces the sanitization pipeline shares
  (src/src/execution/sanitize.rs). \<open>program_error\<close> is the code's
  \<^verbatim>\<open>ProgramError\<close>; a stage's verdict is \<^verbatim>\<open>Option<ProgramError>\<close>.
  The state \<open>sys\<close> holds what the pipeline reads and writes on disk: the directory
  tree (work directories with their binaries, \<^verbatim>\<open>corpus/\<close> subdirectory and
  \<^verbatim>\<open>merge_control_file\<close>), the shared corpus of the library (file names), the
  persisted global feature set (\<^verbatim>\<open>global_feature.json\<close>, absent or a set of
  features), and the stage-timing log of each work directory (\<^verbatim>\<open>TimeUsage\<close>,
  modelled as the list of keys written, in order).

  The external programs the pipeline drives (clang, the AST transformer, the fuzz driver
  binary under libFuzzer, llvm-cov, the merge mode of libFuzzer, file copies of the
  library's \<^verbatim>\<open>Deopt\<close>) are not in the sources: they are the fields of the record
  \<open>toolchain\<close>, functions of their inputs that the theorems quantify over. A
  \<open>string option\<close> field is a call returning \<^verbatim>\<open>Result<()>\<close> (\<open>Some\<close> the
  error message); a field of type \<open>string + 'a\<close> returns \<^verbatim>\<open>Result<'a>\<close>.
\<close>

datatype program_error =
    Syntax string | Link string | Execute string | Fuzzer string | Hang string | Coverage string

type_synonym verdict = "program_error option"

text \<open>\<^verbatim>\<open>execution::Compile\<close>: the compile profiles used by the pipeline.\<close>

datatype compile_kind = FUZZER | COVERAGE | Minimize

record 'f sys =
  files :: fs
  shared :: "string list"
  gfeature :: "'f set option"
  cost :: "path \<Rightarrow> string list"

record ('f, 'cov) toolchain =
  clang_syntax :: "path \<Rightarrow> (bool \<times> string) option"
  remove_duplicate_definition :: "path \<Rightarrow> string option"
  compile :: "path \<Rightarrow> path \<Rightarrow> compile_kind \<Rightarrow> string option"
  fd_sanitize :: "path \<Rightarrow> string option"
  copy_library_init_file :: "path \<Rightarrow> string option"
  execute_pool :: "path \<Rightarrow> string list \<Rightarrow> verdict"
  execute_fuzzer :: "path \<Rightarrow> string list \<Rightarrow> string list \<Rightarrow> string + string list"
  collect_code_coverage :: "path \<Rightarrow> path \<Rightarrow> string list \<Rightarrow> string list \<Rightarrow> string + 'cov"
  sanitize_by_fuzzer_coverage :: "path \<Rightarrow> 'cov \<Rightarrow> string + bool"
  dump_fuzzer_coverage :: "path \<Rightarrow> string + string"
  init_by_corpus :: "path \<Rightarrow> string list \<Rightarrow> string + 'f set"
  minimize_by_control_file :: "path \<Rightarrow> string list \<Rightarrow> string + (string \<times> 'f list) list option"
  copy_file_to_shared_corpus :: "string list \<Rightarrow> string option"
  write_global_feature :: "string option"

subsection \<open>Helpers shared by the stages\<close>

text \<open>A tool call returning \<^verbatim>\<open>Result<'a>\<close>, propagated with \<^verbatim>\<open>?\<close>.\<close>

definition tool :: "string + 'a \<Rightarrow> 'a result" where
  "tool r = (case r of Inl msg \<Rightarrow> Inl (Error msg) | Inr x \<Rightarrow> Inr x)"

text \<open>\<^verbatim>\<open>PathBuf::set_extension\<close> / \<^verbatim>\<open>with_extension\<close> on a full path.\<close>

definition path_with_extension :: "path \<Rightarrow> string \<Rightarrow> path" where
  "path_with_extension p e = child (dirname p) (with_extension (basename p) e)"

text \<open>\<^verbatim>\<open>TimeUsage::log\<close>: the key is appended to the work directory's log.\<close>

definition log_time :: "path \<Rightarrow> string \<Rightarrow> 'f sys \<Rightarrow> 'f sys" where
  "log_time d key s = s\<lparr>cost := (cost s)(d := cost s d @ [key])\<rparr>"

text \<open>A file written by an external tool: it appears in its directory if that exists.\<close>

definition write_file :: "path \<Rightarrow> fs \<Rightarrow> fs" where
  "write_file p m = (case fs_write p m of Inr m' \<Rightarrow> m' | Inl _ \<Rightarrow> m)"

definition write_files :: "path \<Rightarrow> string list \<Rightarrow> fs \<Rightarrow> fs" where
  "write_files d ns m = fold (\<lambda>n. write_file (child d n)) ns m"

text \<open>The regular files of a directory: the inputs of a corpus directory.\<close>

definition corpus_inputs :: "path \<Rightarrow> fs \<Rightarrow> string list" where
  "corpus_inputs d m = (case m d of None \<Rightarrow> [] | Some es \<Rightarrow> map ename (filter (Not \<circ> is_dir) es))"

text \<open>\<^verbatim>\<open>Executor::compile\<close>: on success the output binary is written.\<close>

definition run_compile :: "('f, 'cov) toolchain \<Rightarrow> path \<Rightarrow> path \<Rightarrow> compile_kind \<Rightarrow> 'f sys
                             \<Rightarrow> string option \<times> 'f sys" where
  "run_compile tc p out k s =
     (case compile tc p out k of
        None \<Rightarrow> (None, s\<lparr>files := write_file out (files s)\<rparr>)
      | Some msg \<Rightarrow> (Some msg, s))"

text \<open>A file-system operation on the state.\<close>

definition fs_step :: "(fs \<Rightarrow> fs result) \<Rightarrow> 'f sys \<Rightarrow> (unit, 'f sys) outcome" where
  "fs_step op s = (case op (files s) of Inl e \<Rightarrow> (Inl e, s) | Inr m \<Rightarrow> (Inr (), s\<lparr>files := m\<rparr>))"

text \<open>
  \<^verbatim>\<open>if let Some(err) = stage? { return Ok(Some(err)); }\<close>: the pattern with which
  \<^verbatim>\<open>check_program_is_correct\<close> chains its stages.
\<close>

definition next_stage :: "(verdict, 'f sys) outcome \<Rightarrow> ('f sys \<Rightarrow> (verdict, 'f sys) outcome)
                            \<Rightarrow> (verdict, 'f sys) outcome" where
  "next_stage m f = bindS m (\<lambda>v s. case v of Some e \<Rightarrow> (Inr (Some e), s) | None \<Rightarrow> f s)"

subsection \<open>Evaluation lemmas\<close>

lemma tool_simps [simp, result_simps]:
  "tool (Inl msg) = Inl (Error msg)" "tool (Inr x) = Inr x"
  by (simp_all add: tool_def)

lemma next_stage_simps [simp, result_simps]:
  "next_stage (Inl e, s) f = (Inl e, s)"
  "next_stage (Inr (Some err), s) f = (Inr (Some err), s)"
  "next_stage (Inr None, s) f = f s"
  by (simp_all add: next_stage_def)

lemma fs_step_simps [simp, result_simps]:
  "op (files s) = Inl e \<Longrightarrow> fs_step op s = (Inl e, s)"
  "op (files s) = Inr m \<Longrightarrow> fs_step op s = (Inr (), s\<lparr>files := m\<rparr>)"
  by (simp_all add: fs_step_def)

lemma log_time_simps [simp]:
  "files (log_time d k s) = files s" "shared (log_time d k s) = shared s"
  "gfeature (log_time d k s) = gfeature s"
  "cost (log_time d k s) d = cost s d @ [k]"
  "d' \<noteq> d \<Longrightarrow> cost (log_time d k s) d' = cost s d'"
  by (simp_all add: log_time_def)

lemma run_compile_simps [simp]:
  "compile tc p out k = None \<Longrightarrow> run_compile tc p out k s = (None, s\<lparr>files := write_file out (files s)\<rparr>)"
  "compile tc p out k = Some msg \<Longrightarrow> run_compile tc p out k s = (Some msg, s)"
  by (simp_all add: run_compile_def)

lemma run_compile_frame [simp]:
  "shared (snd (run_compile tc p out k s)) = shared s"
  "gfeature (snd (run_compile tc p out k s)) = gfeature s"
  "cost (snd (run_compile tc p out k s)) = cost s"
  by (simp_all add: run_compile_def split: option.split)

lemma slash_notin_with_extension:
  "CHR ''/'' \<notin> set e \<Longrightarrow> CHR ''/'' \<notin> set (with_extension (basename p) e)"
  using set_with_extension [of "basename p" e] by auto

lemma dirname_path_with_extension [simp]:
  "CHR ''/'' \<notin> set e \<Longrightarrow> dirname (path_with_extension p e) = dirname p"
  by (simp add: path_with_extension_def slash_notin_with_extension)

lemma write_file_other: "k \<noteq> dirname p \<Longrightarrow> write_file p m k = m k"
  by (simp add: write_file_def fs_write_def split: option.split)

lemma corpus_inputs_write_file [simp]:
  "d \<noteq> dirname p \<Longrightarrow> corpus_inputs d (write_file p m) = corpus_inputs d m"
  by (simp add: corpus_inputs_def write_file_other)

lemma fs_remove_file_other:
  "fs_remove_file p m = Inr m' \<Longrightarrow> k \<noteq> dirname p \<Longrightarrow> m' k = m k"
  by (auto simp: fs_remove_file_def split: option.splits if_splits)

subsection \<open>Evaluation on concrete inputs\<close>

text \<open>
  The equations that evaluate the path and file-system model on concrete strings, shared
  by the witness theorems of every component.
\<close>

lemmas path_eval = path_with_extension_def with_extension_def file_stem_def rsplit_dot_def
  dirname_def basename_def child_def

lemmas fs_eval = write_file_def fs_write_def corpus_inputs_def fs_step_def fs_remove_file_def
  fs_remove_dir_all_def fs_create_dir_def remove_tree_def below_def read_sort_dir_def

text \<open>
  A toolchain on which every external call succeeds: clang accepts the program, every
  compile links, the driver passes on every input, the fuzzer finds nothing new, the
  coverage check passes, and libFuzzer's merge reports one corpus input with feature 1.
\<close>

definition example_toolchain :: "(nat, unit) toolchain" where
  "example_toolchain =
     \<lparr>clang_syntax = \<lambda>_. Some (True, []), remove_duplicate_definition = \<lambda>_. None,
      compile = \<lambda>_ _ _. None, fd_sanitize = \<lambda>_. None, copy_library_init_file = \<lambda>_. None,
      execute_pool = \<lambda>_ _. None, execute_fuzzer = \<lambda>_ _ _. Inr [],
      collect_code_coverage = \<lambda>_ _ _ _. Inr (), sanitize_by_fuzzer_coverage = \<lambda>_ _. Inr False,
      dump_fuzzer_coverage = \<lambda>_. Inr [], init_by_corpus = \<lambda>_ _. Inr {},
      minimize_by_control_file = \<lambda>_ _. Inr (Some [(''w/corpus/in1'', [1])]),
      copy_file_to_shared_corpus = \<lambda>_. None, write_global_feature = None\<rparr>"

text \<open>A work directory \<^verbatim>\<open>w\<close> holding the program \<^verbatim>\<open>p.cc\<close> and a corpus with one input.\<close>

definition example_state :: "nat sys" where
  "example_state =
     \<lparr>files = [''w'' \<mapsto> [FileE ''p.cc'', DirE ''corpus''], ''w/corpus'' \<mapsto> [FileE ''in1'']],
      shared = [], gfeature = None, cost = \<lambda>_. []\<rparr>"

end
