(* ===== verification/Serde.thy ===== *)
theory Serde
  imports Model
begin

text \<open>
  The two encodings through which the batch supervisor talks to its worker processes
  (src/src/execution/sanitize.rs, lines 193--241). A work path is built from the program's
  numeric id with the standard library's decimal \<^verbatim>\<open>usize\<close> formatting
  (\<open>nat_string\<close>), and a worker that rejects its candidate writes the
  \<^verbatim>\<open>ProgramError\<close> to its stderr as JSON, which the supervisor decodes with
  \<^verbatim>\<open>serde_json::from_str\<close>. Neither encoder is in the sources; both are modelled from
  their documented format: serde's externally tagged representation
  \<^verbatim>\<open>{"Tag":"message"}\<close> with JSON string escapes. The decoder accepts JSON whitespace
  between tokens as serde does. Characters are bytes: a \<^verbatim>\<open>\u\<close> escape above 127,
  which serde would turn into a multi-byte UTF-8 sequence, is rejected.
  The lemmas are the round trips: parsing a printed number gives it back, and decoding an
  encoded error gives it back, also with the trailing newline of \<^verbatim>\<open>eprintln!\<close>.
\<close>

subsection \<open>Decimal numbers\<close>

definition digit_char :: "nat \<Rightarrow> char" where
  "digit_char d = ''0123456789'' ! d"

fun nat_string :: "nat \<Rightarrow> string" where
  "nat_string n = (if n < 10 then [digit_char n] else nat_string (n div 10) @ [digit_char (n mod 10)])"

declare nat_string.simps [simp del]

definition char_digit :: "char \<Rightarrow> nat option" where
  "char_digit c = (let n = of_char c :: nat in if 48 \<le> n \<and> n \<le> 57 then Some (n - 48) else None)"

fun parse_digits :: "nat \<Rightarrow> string \<Rightarrow> nat option" where
  "parse_digits acc [] = Some acc"
| "parse_digits acc (c # cs) = (case char_digit c of None \<Rightarrow> None | Some d \<Rightarrow> parse_digits (10 * acc + d) cs)"

definition parse_nat :: "string \<Rightarrow> nat option" where
  "parse_nat s = (if s = [] then None else parse_digits 0 s)"

subsection \<open>JSON strings\<close>

definition hex_digit :: "nat \<Rightarrow> char" where
  "hex_digit d = (if d < 10 then char_of (48 + d) else char_of (87 + d))"

definition hex_value :: "char \<Rightarrow> nat option" where
  "hex_value c =
     (let n = of_char c :: nat in
      if 48 \<le> n \<and> n \<le> 57 then Some (n - 48)
      else if 97 \<le> n \<and> n \<le> 102 then Some (n - 87)
      else if 65 \<le> n \<and> n \<le> 70 then Some (n - 55)
      else None)"

text \<open>\<^verbatim>\<open>serde_json::ser::ESCAPE\<close>: the escape written for each byte of a string.\<close>

definition json_escape_char :: "char \<Rightarrow> string" where
  "json_escape_char c =
     (if c = CHR 0x22 then [CHR 0x5C, CHR 0x22]
      else if c = CHR 0x5C then [CHR 0x5C, CHR 0x5C]
      else if c = CHR 0x08 then [CHR 0x5C, CHR ''b'']
      else if c = CHR 0x09 then [CHR 0x5C, CHR ''t'']
      else if c = CHR 0x0A then [CHR 0x5C, CHR ''n'']
      else if c = CHR 0x0C then [CHR 0x5C, CHR ''f'']
      else if c = CHR 0x0D then [CHR 0x5C, CHR ''r'']
      else if of_char c < (32::nat)
      then [CHR 0x5C, CHR ''u'', CHR ''0'', CHR ''0'', hex_digit (of_char c div 16), hex_digit (of_char c mod 16)]
      else [c])"

definition json_string :: "string \<Rightarrow> string" where
  "json_string s = CHR 0x22 # concat (map json_escape_char s) @ [CHR 0x22]"

text \<open>The escape sequence after a backslash, and what is left of the input.\<close>

fun unescape_one :: "string \<Rightarrow> (char \<times> string) option" where
  "unescape_one [] = None"
| "unescape_one (c # cs) =
     (if c = CHR 0x22 \<or> c = CHR 0x5C \<or> c = CHR ''/'' then Some (c, cs)
      else if c = CHR ''b'' then Some (CHR 0x08, cs)
      else if c = CHR ''t'' then Some (CHR 0x09, cs)
      else if c = CHR ''n'' then Some (CHR 0x0A, cs)
      else if c = CHR ''f'' then Some (CHR 0x0C, cs)
      else if c = CHR ''r'' then Some (CHR 0x0D, cs)
      else if c = CHR ''u'' then
        (case cs of
           a # b # x # y # rest \<Rightarrow>
             (case (hex_value a, hex_value b, hex_value x, hex_value y) of
                (Some a, Some b, Some x, Some y) \<Rightarrow>
                  let n = ((a * 16 + b) * 16 + x) * 16 + y
                  in if n < 128 then Some (char_of n, rest) else None
              | _ \<Rightarrow> None)
         | _ \<Rightarrow> None)
      else None)"

lemma unescape_one_length: "unescape_one cs = Some (d, r) \<Longrightarrow> length r < length cs"
  by (cases cs rule: unescape_one.cases)
    (auto simp: Let_def split: if_splits list.splits option.splits)

text \<open>The body of a JSON string up to its closing quote, and the rest of the input.\<close>

function json_unescape :: "string \<Rightarrow> (string \<times> string) option" where
  "json_unescape [] = None"
| "json_unescape (c # cs) =
     (if c = CHR 0x22 then Some ([], cs)
      else if c = CHR 0x5C then
        (case unescape_one cs of
           None \<Rightarrow> None
         | Some (d, r) \<Rightarrow> (case json_unescape r of None \<Rightarrow> None | Some (s, r') \<Rightarrow> Some (d # s, r')))
      else if of_char c < (32::nat) then None
      else (case json_unescape cs of None \<Rightarrow> None | Some (s, r) \<Rightarrow> Some (c # s, r)))"
  by pat_completeness auto
termination
  by (relation "measure length") (auto dest: unescape_one_length)

definition json_ws :: "char \<Rightarrow> bool" where
  "json_ws c \<longleftrightarrow> c = CHR '' '' \<or> c = CHR 0x09 \<or> c = CHR 0x0A \<or> c = CHR 0x0D"

definition skip_ws :: "string \<Rightarrow> string" where
  "skip_ws s = dropWhile json_ws s"

definition parse_json_string :: "string \<Rightarrow> (string \<times> string) option" where
  "parse_json_string s =
     (case skip_ws s of c # cs \<Rightarrow> if c = CHR 0x22 then json_unescape cs else None | [] \<Rightarrow> None)"

text \<open>\<open>parse_token t s\<close>: the input after the one-character token \<open>t\<close> and its whitespace.\<close>

definition parse_token :: "char \<Rightarrow> string \<Rightarrow> string option" where
  "parse_token t s = (case skip_ws s of c # cs \<Rightarrow> if c = t then Some cs else None | [] \<Rightarrow> None)"

subsection \<open>ProgramError\<close>

primrec error_tag :: "program_error \<Rightarrow> string" where
  "error_tag (Syntax _) = ''Syntax''"
| "error_tag (Link _) = ''Link''"
| "error_tag (Execute _) = ''Execute''"
| "error_tag (Fuzzer _) = ''Fuzzer''"
| "error_tag (Hang _) = ''Hang''"
| "error_tag (Coverage _) = ''Coverage''"

primrec error_msg :: "program_error \<Rightarrow> string" where
  "error_msg (Syntax m) = m"
| "error_msg (Link m) = m"
| "error_msg (Execute m) = m"
| "error_msg (Fuzzer m) = m"
| "error_msg (Hang m) = m"
| "error_msg (Coverage m) = m"

definition encode_error :: "program_error \<Rightarrow> string" where
  "encode_error e = CHR ''{'' # json_string (error_tag e) @ CHR '':'' # json_string (error_msg e) @ ''}''"

definition tag_error :: "string \<Rightarrow> string \<Rightarrow> program_error option" where
  "tag_error t m =
     (if t = ''Syntax'' then Some (Syntax m) else if t = ''Link'' then Some (Link m)
      else if t = ''Execute'' then Some (Execute m) else if t = ''Fuzzer'' then Some (Fuzzer m)
      else if t = ''Hang'' then Some (Hang m) else if t = ''Coverage'' then Some (Coverage m)
      else None)"

definition decode_error :: "string \<Rightarrow> program_error option" where
  "decode_error s =
     (case parse_token CHR ''{'' s of
        None \<Rightarrow> None
      | Some r \<Rightarrow>
          (case parse_json_string r of
             None \<Rightarrow> None
           | Some (t, r) \<Rightarrow>
               (case parse_token CHR '':'' r of
                  None \<Rightarrow> None
                | Some r \<Rightarrow>
                    (case parse_json_string r of
                       None \<Rightarrow> None
                     | Some (m, r) \<Rightarrow>
                         (case parse_token CHR ''}'' r of
                            Some r \<Rightarrow> if skip_ws r = [] then tag_error t m else None
                          | None \<Rightarrow> None)))))"

subsection \<open>Round trips\<close>

lemma nat_string_digit [simp]: "n < 10 \<Longrightarrow> nat_string n = [digit_char n]"
  by (simp add: nat_string.simps)

lemma nat_string_step: "\<not> n < 10 \<Longrightarrow> nat_string n = nat_string (n div 10) @ [digit_char (n mod 10)]"
  by (simp add: nat_string.simps)

lemma char_digit_digit_char [simp]: "d < 10 \<Longrightarrow> char_digit (digit_char d) = Some d"
proof -
  assume "d < 10"
  then have "d \<in> {0, 1, 2, 3, 4, 5, 6, 7, 8, 9}" by auto
  then show ?thesis by (auto simp: char_digit_def digit_char_def)
qed

lemma nat_string_not_Nil [simp]: "nat_string n \<noteq> []"
  by (cases "n < 10") (simp_all add: nat_string_step)

lemma parse_digits_nat_string:
  "parse_digits acc (nat_string n @ rest) = parse_digits (acc * 10 ^ length (nat_string n) + n) rest"
proof (induction n arbitrary: acc rest rule: nat_string.induct)
  case (1 n)
  show ?case
  proof (cases "n < 10")
    case True
    then show ?thesis by (simp add: mult.commute)
  next
    case False
    then have ns: "nat_string n = nat_string (n div 10) @ [digit_char (n mod 10)]"
      by (rule nat_string_step)
    let ?L = "length (nat_string (n div 10))"
    have "parse_digits acc (nat_string n @ rest)
        = parse_digits (10 * (acc * 10 ^ ?L + n div 10) + n mod 10) rest"
      using False "1.IH" [of acc "digit_char (n mod 10) # rest"] ns by simp
    also have "10 * (acc * 10 ^ ?L + n div 10) + n mod 10 = acc * 10 ^ length (nat_string n) + n"
    proof -
      have "10 * (n div 10) + n mod 10 = n" by simp
      then show ?thesis using ns by (simp add: algebra_simps)
    qed
    finally show ?thesis .
  qed
qed

lemma parse_nat_nat_string: "parse_nat (nat_string n) = Some n"
  using parse_digits_nat_string [of 0 n "[]"] by (simp add: parse_nat_def)

lemma nat_string_inj [simp]: "nat_string m = nat_string n \<longleftrightarrow> m = n"
  by (metis option.inject parse_nat_nat_string)

lemma nat_string_char_digit: "c \<in> set (nat_string n) \<Longrightarrow> char_digit c \<noteq> None"
proof (induction n rule: nat_string.induct)
  case (1 n)
  then show ?case
    by (cases "n < 10") (auto simp: nat_string_step)
qed

lemma slash_notin_nat_string [simp]: "CHR ''/'' \<notin> set (nat_string n)"
proof
  assume "CHR ''/'' \<in> set (nat_string n)"
  then have "char_digit (CHR ''/'') \<noteq> None" by (rule nat_string_char_digit)
  then show False by (simp add: char_digit_def)
qed

lemma hex_value_hex_digit [simp]: "d < 16 \<Longrightarrow> hex_value (hex_digit d) = Some d"
  by (auto simp: hex_value_def hex_digit_def Let_def)

lemma json_unescape_escape_char:
  "json_unescape (json_escape_char c @ r) =
     (case json_unescape r of None \<Rightarrow> None | Some (s, r') \<Rightarrow> Some (c # s, r'))"
proof -
  consider "c \<in> {CHR 0x22, CHR 0x5C, CHR 0x08, CHR 0x09, CHR 0x0A, CHR 0x0C, CHR 0x0D}"
    | "c \<notin> {CHR 0x22, CHR 0x5C, CHR 0x08, CHR 0x09, CHR 0x0A, CHR 0x0C, CHR 0x0D}" "of_char c < (32::nat)"
    | "c \<notin> {CHR 0x22, CHR 0x5C, CHR 0x08, CHR 0x09, CHR 0x0A, CHR 0x0C, CHR 0x0D}" "\<not> of_char c < (32::nat)"
    by blast
  then show ?thesis
  proof cases
    case 1
    then show ?thesis by (auto simp: json_escape_char_def)
  next
    case 2
    let ?n = "of_char c :: nat"
    have hex0: "hex_value (CHR ''0'') = Some 0" by (simp add: hex_value_def)
    have "((0 * 16 + 0) * 16 + ?n div 16) * 16 + ?n mod 16 = ?n" by simp
    moreover have "?n div 16 < 16" "?n mod 16 < 16" using 2 by simp_all
    ultimately have "unescape_one (CHR ''u'' # CHR ''0'' # CHR ''0'' # hex_digit (?n div 16) # hex_digit (?n mod 16) # r)
        = Some (c, r)"
      using 2 by (simp add: hex0)
    then show ?thesis using 2 by (simp add: json_escape_char_def)
  next
    case 3
    then show ?thesis by (simp add: json_escape_char_def)
  qed
qed

lemma json_unescape_escaped:
  "json_unescape (concat (map json_escape_char s) @ CHR 0x22 # r) = Some (s, r)"
  by (induction s) (simp_all add: json_unescape_escape_char)

lemma skip_ws_Cons [simp]: "\<not> json_ws c \<Longrightarrow> skip_ws (c # s) = c # s"
  by (simp add: skip_ws_def)

lemma skip_ws_all: "list_all json_ws ws \<Longrightarrow> skip_ws ws = []"
  by (induction ws) (simp_all add: skip_ws_def)

lemma parse_json_string_json_string [simp]:
  "parse_json_string (json_string s @ r) = Some (s, r)"
  by (simp add: parse_json_string_def json_string_def json_ws_def json_unescape_escaped)

lemma parse_token_Cons [simp]: "\<not> json_ws t \<Longrightarrow> parse_token t (t # r) = Some r"
  by (simp add: parse_token_def)

lemma tag_error_tag [simp]: "tag_error (error_tag e) (error_msg e) = Some e"
  by (cases e) (simp_all add: tag_error_def)

lemma decode_encode_error:
  assumes "list_all json_ws ws"
  shows "decode_error (encode_error e @ ws) = Some e"
proof -
  have nws: "\<not> json_ws CHR ''{''" "\<not> json_ws CHR '':''" "\<not> json_ws CHR ''}''"
    by (simp_all add: json_ws_def)
  show ?thesis
    using assms nws
    by (simp add: decode_error_def encode_error_def skip_ws_all)
qed

end
