(* ===== verification/Evolve.thy ===== *)
theory Evolve
  imports Model
begin

text \<open>
  \<^verbatim>\<open>Executor::evolve_corpus\<close> (src/src/execution/sanitize.rs): the candidate's
  corpus is merged with libFuzzer's merge mode, the parsed control file
  (\<^verbatim>\<open>CorporaFeatures\<close>, a list of file and feature list pairs) is run through the
  global feature set, and every file one of whose features was newly inserted is copied
  into the shared corpus before the enlarged feature set is persisted.
  \<open>insert_feature\<close> is \<^verbatim>\<open>GlobalFeature::insert_feature\<close> (insert-if-new, reporting
  whether the feature was new); \<open>insert_features\<close> is the inner loop over one file's
  features and \<open>evolve_loop\<close> the outer loop over the files. \<open>novel_files\<close> is the
  abstract specification: a file is interesting when it has a feature that neither the
  store nor an earlier file had. The lemmas show that the loop implements it, that the
  store only grows, and that a second pass over the same corpus admits nothing.
\<close>

definition insert_feature :: "'f \<Rightarrow> 'f set \<Rightarrow> bool \<times> 'f set" where
  "insert_feature fe g = (fe \<notin> g, insert fe g)"

fun insert_features :: "'f list \<Rightarrow> 'f set \<Rightarrow> bool \<Rightarrow> 'f set \<times> bool" where
  "insert_features [] g has_new = (g, has_new)"
| "insert_features (fe # fes) g has_new =
     (case insert_feature fe g of (new, g') \<Rightarrow> insert_features fes g' (if new then True else has_new))"

fun evolve_loop :: "(string \<times> 'f list) list \<Rightarrow> 'f set \<Rightarrow> string list \<Rightarrow> 'f set \<times> string list" where
  "evolve_loop [] g intr = (g, intr)"
| "evolve_loop ((file, fes) # cs) g intr =
     (case insert_features fes g False of
        (g', has_new) \<Rightarrow> evolve_loop cs g' (if has_new then intr @ [file] else intr))"

subsection \<open>Abstract specification\<close>

definition all_features :: "(string \<times> 'f list) list \<Rightarrow> 'f set" where
  "all_features cs = (\<Union>(file, fes) \<in> set cs. set fes)"

fun novel_files :: "'f set \<Rightarrow> (string \<times> 'f list) list \<Rightarrow> string list" where
  "novel_files g [] = []"
| "novel_files g ((file, fes) # cs) =
     (if set fes \<subseteq> g then [] else [file]) @ novel_files (g \<union> set fes) cs"

lemma all_features_simps [simp]:
  "all_features [] = {}"
  "all_features ((file, fes) # cs) = set fes \<union> all_features cs"
  by (simp_all add: all_features_def)

subsection \<open>The loops implement the specification\<close>

lemma insert_features_eq:
  "insert_features fes g h = (g \<union> set fes, h \<or> \<not> set fes \<subseteq> g)"
  by (induction fes arbitrary: g h) (auto simp: insert_feature_def)

lemma evolve_loop_eq:
  "evolve_loop cs g intr = (g \<union> all_features cs, intr @ novel_files g cs)"
  by (induction cs arbitrary: g intr) (auto simp: insert_features_eq Un_assoc)

lemma novel_files_subset: "set (novel_files g cs) \<subseteq> fst ` set cs"
  by (induction g cs rule: novel_files.induct) (auto simp: image_iff)

lemma novel_files_covered: "all_features cs \<subseteq> g \<Longrightarrow> novel_files g cs = []"
  by (induction g cs rule: novel_files.induct) auto

lemma novel_files_witness:
  "file \<in> set (novel_files g cs) \<Longrightarrow> \<exists>fes. (file, fes) \<in> set cs \<and> \<not> set fes \<subseteq> g"
proof (induction g cs rule: novel_files.induct)
  case (1 g)
  then show ?case by simp
next
  case (2 g file' fes cs)
  show ?case
  proof (cases "file \<in> set (novel_files (g \<union> set fes) cs)")
    case True
    then obtain fes' where "(file, fes') \<in> set cs" "\<not> set fes' \<subseteq> g \<union> set fes"
      using "2.IH" by blast
    then show ?thesis by auto
  next
    case False
    with "2.prems" show ?thesis by (auto split: if_splits)
  qed
qed

subsection \<open>The whole operation\<close>

text \<open>
  \<^verbatim>\<open>Deopt::copy_file_to_shared_corpus\<close>: each interesting file is copied into the
  shared corpus under its base name; a name already present is overwritten, so the corpus
  lists it once.
\<close>

definition add_to_shared :: "string list \<Rightarrow> string list \<Rightarrow> string list" where
  "add_to_shared sh fs = fold (\<lambda>f acc. if basename f \<in> set acc then acc else acc @ [basename f]) fs sh"

text \<open>Lines 272--278: the persisted store, or one built from the shared corpus.\<close>

definition load_global_feature :: "('f, 'cov) toolchain \<Rightarrow> path \<Rightarrow> 'f sys \<Rightarrow> 'f set result" where
  "load_global_feature tc evo s =
     (case gfeature s of
        Some g \<Rightarrow> Inr g
      | None \<Rightarrow> tool (init_by_corpus tc evo (shared s)))"

text \<open>
  Lines 288--309: the loop over the parsed control file, then the copy of the interesting
  files, the write of the store, the removal of the control file and the timing record.
\<close>

definition admit_interesting :: "('f, 'cov) toolchain \<Rightarrow> path \<Rightarrow> 'f set \<Rightarrow> (string \<times> 'f list) list
                                   \<Rightarrow> 'f sys \<Rightarrow> (unit, 'f sys) outcome" where
  "admit_interesting tc d g cfs s =
     (case evolve_loop cfs g [] of
        (g', intr) \<Rightarrow>
          bindS (io_check (copy_file_to_shared_corpus tc intr), s) (\<lambda>_ s.
          let s = s\<lparr>shared := add_to_shared (shared s) intr\<rparr>
          in bindS (io_check (write_global_feature tc), s) (\<lambda>_ s.
             let s = s\<lparr>gfeature := Some g'\<rparr>
             in bindS (fs_step (fs_remove_file (child d ''merge_control_file'')) s) (\<lambda>_ s.
                (Inr (), log_time d ''update'' s)))))"

definition evolve_corpus :: "('f, 'cov) toolchain \<Rightarrow> path \<Rightarrow> 'f sys \<Rightarrow> (unit, 'f sys) outcome" where
  "evolve_corpus tc p s =
     (let d = dirname p;
          evo = path_with_extension p ''evo.out''
      in case run_compile tc p evo Minimize s of
           (r, s) \<Rightarrow>
             bindS (io_check r, s) (\<lambda>_ s.
             bindS (load_global_feature tc evo s, s) (\<lambda>g s.
             bindS (tool (minimize_by_control_file tc evo (corpus_inputs (child d ''corpus'') (files s))), s)
               (\<lambda>cf s.
                  case cf of
                    None \<Rightarrow> (Inl (Panic ''merge_control_file does not exist!''), s)
                  | Some cfs \<Rightarrow>
                      admit_interesting tc d g cfs
                        (s\<lparr>files := write_file (child d ''merge_control_file'') (files s)\<rparr>)))))"

subsection \<open>Inversion and frame lemmas\<close>

lemma load_global_feature_files [simp]:
  "load_global_feature tc evo (s\<lparr>files := m\<rparr>) = load_global_feature tc evo s"
  by (simp add: load_global_feature_def split: option.split)

lemma set_add_to_shared: "set (add_to_shared sh fs) = set sh \<union> basename ` set fs"
proof -
  have "set (fold (\<lambda>f acc. if basename f \<in> set acc then acc else acc @ [basename f]) fs acc)
          = set acc \<union> basename ` set fs" for acc
    by (induction fs arbitrary: acc) auto
  then show ?thesis by (simp add: add_to_shared_def)
qed

lemma add_to_shared_Nil [simp]: "add_to_shared sh [] = sh"
  by (simp add: add_to_shared_def)

lemma admit_interesting_Inr:
  assumes "admit_interesting tc d g cfs s = (Inr u, s')"
  shows "copy_file_to_shared_corpus tc (novel_files g cfs) = None
    \<and> write_global_feature tc = None
    \<and> shared s' = add_to_shared (shared s) (novel_files g cfs)
    \<and> gfeature s' = Some (g \<union> all_features cfs)
    \<and> cost s' = (cost s)(d := cost s d @ [''update''])
    \<and> (\<forall>k. k \<noteq> d \<longrightarrow> files s' k = files s k)"
  using assms
  by (auto simp: admit_interesting_def evolve_loop_eq bindS_eq_Inr fs_step_def log_time_def Let_def
      dest: fs_remove_file_other split: sum.splits)

lemma admit_interesting_frame:
  "k \<noteq> d \<Longrightarrow> files (snd (admit_interesting tc d g cfs s)) k = files s k"
  by (auto simp: admit_interesting_def bindS_def fs_step_def log_time_def Let_def io_check_def
      dest: fs_remove_file_other split: prod.splits sum.splits option.splits)

lemma evolve_corpus_Inr:
  assumes "evolve_corpus tc p s = (Inr u, s')"
  shows "\<exists>g cfs. compile tc p (path_with_extension p ''evo.out'') Minimize = None
    \<and> load_global_feature tc (path_with_extension p ''evo.out'') s = Inr g
    \<and> minimize_by_control_file tc (path_with_extension p ''evo.out'')
         (corpus_inputs (child (dirname p) ''corpus'') (files s)) = Inr (Some cfs)
    \<and> admit_interesting tc (dirname p) g cfs
        (s\<lparr>files := write_file (child (dirname p) ''merge_control_file'')
                      (write_file (path_with_extension p ''evo.out'') (files s))\<rparr>) = (Inr u, s')"
  using assms
  by (auto simp: evolve_corpus_def Let_def run_compile_def bindS_eq_Inr tool_def
      split: option.splits sum.splits)

lemma evolve_corpus_frame:
  assumes "k \<noteq> dirname p"
  shows "files (snd (evolve_corpus tc p s)) k = files s k"
proof -
  have w: "write_file (child (dirname p) ''merge_control_file'') m k = m k"
      "write_file (path_with_extension p ''evo.out'') m k = m k" for m
    using assms by (simp_all add: write_file_other)
  show ?thesis
    using assms
    by (auto simp: evolve_corpus_def Let_def run_compile_def bindS_def tool_def io_check_def w
        admit_interesting_frame split: option.splits sum.splits prod.splits)
qed

lemma admit_interesting_cost:
  "cost (snd (admit_interesting tc d g cfs s)) = cost s \<or>
   cost (snd (admit_interesting tc d g cfs s)) = (cost s)(d := cost s d @ [''update''])"
  by (auto simp: admit_interesting_def bindS_def io_check_def fs_step_def log_time_def Let_def
      split: prod.splits sum.splits option.splits)

lemma evolve_corpus_cost:
  "cost (snd (evolve_corpus tc p s)) = cost s \<or>
   cost (snd (evolve_corpus tc p s)) = (cost s)(dirname p := cost s (dirname p) @ [''update''])"
proof -
  let ?evo = "path_with_extension p ''evo.out''"
  let ?s1 = "s\<lparr>files := write_file ?evo (files s)\<rparr>"
  let ?ci = "corpus_inputs (child (dirname p) ''corpus'') (files ?s1)"
  show ?thesis
  proof (cases "compile tc p ?evo Minimize")
    case Some
    then show ?thesis by (simp add: evolve_corpus_def Let_def run_compile_def)
  next
    case None
    show ?thesis
    proof (cases "load_global_feature tc ?evo ?s1")
      case Inl
      with None show ?thesis by (simp add: evolve_corpus_def Let_def run_compile_def)
    next
      case (Inr g)
      show ?thesis
      proof (cases "minimize_by_control_file tc ?evo ?ci")
        case Inl
        with None Inr show ?thesis by (simp add: evolve_corpus_def Let_def run_compile_def)
      next
        case (Inr cf)
        show ?thesis
        proof (cases cf)
          case None
          with \<open>compile tc p ?evo Minimize = None\<close> \<open>load_global_feature tc ?evo ?s1 = Inr g\<close> Inr
          show ?thesis by (simp add: evolve_corpus_def Let_def run_compile_def)
        next
          case (Some cfs)
          let ?s2 = "?s1\<lparr>files := write_file (child (dirname p) ''merge_control_file'') (files ?s1)\<rparr>"
          have "evolve_corpus tc p s = admit_interesting tc (dirname p) g cfs ?s2"
            using \<open>compile tc p ?evo Minimize = None\<close> \<open>load_global_feature tc ?evo ?s1 = Inr g\<close> Inr Some
            by (simp add: evolve_corpus_def Let_def run_compile_def)
          then show ?thesis
            using admit_interesting_cost [of tc "dirname p" g cfs ?s2] by simp
        qed
      qed
    qed
  qed
qed
lemma evolve_corpus_cost_Inr:
  "evolve_corpus tc p s = (Inr u, s') \<Longrightarrow> cost s' = (cost s)(dirname p := cost s (dirname p) @ [''update''])"
  using evolve_corpus_Inr admit_interesting_Inr by fastforce

lemmas evolve_eval = evolve_corpus_def load_global_feature_def admit_interesting_def
  insert_feature_def add_to_shared_def run_compile_def log_time_def

subsection \<open>Properties of the corpus evolution\<close>

text \<open>
  C1: The merge loop of \<^verbatim>\<open>evolve_corpus\<close> implements its specification: afterwards the
  store holds the old features together with every feature of the control file, and the
  interesting files are exactly those with a feature new to the store and to every earlier
  file of the control file.
\<close>

theorem evolve_loop_refines_novelty:
  "evolve_loop cs g [] = (g \<union> all_features cs, novel_files g cs)"
  using evolve_loop_eq [of cs g "[]"] by simp

text \<open>
  C19: Idempotence of the merge: a second pass over the same control file, starting from the
  store the first pass produced, admits no file and leaves the store unchanged.
\<close>

theorem evolve_loop_second_pass_admits_nothing:
  "evolve_loop cs (fst (evolve_loop cs g [])) [] = (fst (evolve_loop cs g []), [])"
  by (simp add: evolve_loop_eq novel_files_covered)

text \<open>
  C20: Admission invariant of the shared corpus: every file the loop marks interesting comes
  from the control file and carries a feature that was not in the global store.
\<close>

theorem evolve_loop_admitted_has_new_feature:
  "f \<in> set (snd (evolve_loop cs g [])) \<Longrightarrow>
     \<exists>fes. (f, fes) \<in> set cs \<and> (\<exists>fe \<in> set fes. fe \<notin> g)"
  using novel_files_witness [of f g cs] by (auto simp: evolve_loop_eq)


theorem evolve_loop_admitted_witness:
  "''in1'' \<in> set (snd (evolve_loop [(''in1'', [1::nat])] {} [])) \<and>
   (\<exists>fes. (''in1'', fes) \<in> set [(''in1'', [1::nat])] \<and> (\<exists>fe \<in> set fes. fe \<notin> {}))"
proof -
  have "''in1'' \<in> set (snd (evolve_loop [(''in1'', [1::nat])] {} []))"
    by (simp add: insert_feature_def)
  with evolve_loop_admitted_has_new_feature [of "''in1''" "[(''in1'', [1::nat])]" "{}"]
  show ?thesis by blast
qed

text \<open>
  Two corpus inputs with the same feature list (identical contents): at most the first is
  admitted, and the store grows by exactly the features of that list.
\<close>

theorem evolve_loop_duplicate_input:
  "evolve_loop [(a, fes), (b, fes)] g [] = (g \<union> set fes, if set fes \<subseteq> g then [] else [a])"
  by (simp add: evolve_loop_eq)

text \<open>
  C6: \<^verbatim>\<open>evolve_corpus\<close> persists the feature store only after the interesting inputs
  were copied: when the copy into the shared corpus fails, the store on disk is the one the
  call started with, whatever the other tools do.
\<close>

theorem evolve_corpus_copy_failure_keeps_store:
  assumes "\<forall>fs. copy_file_to_shared_corpus tc fs \<noteq> None"
  shows "gfeature (snd (evolve_corpus tc p s)) = gfeature s"
proof -
  have c: "copy_file_to_shared_corpus tc fs = None \<longleftrightarrow> False" for fs
    using assms by simp
  show ?thesis
    by (auto simp add: c evolve_corpus_def admit_interesting_def load_global_feature_def Let_def
        run_compile_def tool_def bindS_def io_check_def fs_step_def
        split: prod.splits sum.splits option.splits)
qed


theorem evolve_corpus_copy_failure_witness:
  "(\<forall>fs. copy_file_to_shared_corpus
          (example_toolchain\<lparr>copy_file_to_shared_corpus := \<lambda>_. Some ''disk full''\<rparr>) fs \<noteq> None) \<and>
   gfeature (snd (evolve_corpus
     (example_toolchain\<lparr>copy_file_to_shared_corpus := \<lambda>_. Some ''disk full''\<rparr>) ''w/p.cc'' example_state))
   = gfeature example_state"
  using evolve_corpus_copy_failure_keeps_store
    [of "example_toolchain\<lparr>copy_file_to_shared_corpus := \<lambda>_. Some ''disk full''\<rparr>" "''w/p.cc''" example_state]
  by simp

text \<open>
  C7: A successful \<^verbatim>\<open>evolve_corpus\<close> leaves the store equal to the loaded store together
  with every feature of the merge control file, and the shared corpus extended by the base
  names of exactly the interesting files.
\<close>

theorem evolve_corpus_success:
  assumes "evolve_corpus tc p s = (Inr (), s')"
  shows "\<exists>g cfs. load_global_feature tc (path_with_extension p ''evo.out'') s = Inr g
    \<and> minimize_by_control_file tc (path_with_extension p ''evo.out'')
         (corpus_inputs (child (dirname p) ''corpus'') (files s)) = Inr (Some cfs)
    \<and> gfeature s' = Some (g \<union> all_features cfs)
    \<and> set (shared s') = set (shared s) \<union> basename ` set (novel_files g cfs)"
  using evolve_corpus_Inr [OF assms] admit_interesting_Inr set_add_to_shared by fastforce


theorem evolve_corpus_success_witness:
  "evolve_corpus example_toolchain ''w/p.cc'' example_state
     = (Inr (), snd (evolve_corpus example_toolchain ''w/p.cc'' example_state)) \<and>
   (\<exists>g cfs. load_global_feature example_toolchain (path_with_extension ''w/p.cc'' ''evo.out'') example_state = Inr g
    \<and> minimize_by_control_file example_toolchain (path_with_extension ''w/p.cc'' ''evo.out'')
         (corpus_inputs (child (dirname ''w/p.cc'') ''corpus'') (files example_state)) = Inr (Some cfs)
    \<and> gfeature (snd (evolve_corpus example_toolchain ''w/p.cc'' example_state)) = Some (g \<union> all_features cfs)
    \<and> set (shared (snd (evolve_corpus example_toolchain ''w/p.cc'' example_state)))
        = set (shared example_state) \<union> basename ` set (novel_files g cfs))"
proof -
  have ok: "fst (evolve_corpus example_toolchain ''w/p.cc'' example_state) = Inr ()"
    by (simp add: example_toolchain_def example_state_def evolve_corpus_def Let_def run_compile_def
        load_global_feature_def admit_interesting_def insert_feature_def add_to_shared_def
        path_eval fs_eval)
  then have eq: "evolve_corpus example_toolchain ''w/p.cc'' example_state
     = (Inr (), snd (evolve_corpus example_toolchain ''w/p.cc'' example_state))"
    by (metis prod.collapse)
  show ?thesis
    using eq evolve_corpus_success [OF eq] by blast
qed

end
