(* ===== verification/Pipeline.thy ===== *)
theory Pipeline
  imports Evolve
begin

text \<open>
  The five sanitization stages of \<^verbatim>\<open>Executor\<close> (src/src/execution/sanitize.rs) and
  \<^verbatim>\<open>check_program_is_correct\<close>, which runs them in order and returns the first
  verdict that is an error. Each stage returns \<^verbatim>\<open>Result<Option<ProgramError>>\<close>: an
  \<^verbatim>\<open>Err\<close> (a failing tool call propagated with \<^verbatim>\<open>?\<close>) or panic is the
  \<open>Inl\<close> of the outcome, a verdict its \<open>Inr\<close>; the state the stage leaves on disk is
  returned in both cases. The coverage stage calls \<^verbatim>\<open>evolve_corpus\<close> (theory
  \<open>Evolve\<close>) and then removes the candidate's corpus directory. The lemmas show the order
  of the stages through the timing log each stage appends to, which stage can produce which
  verdict, and what an accepted candidate has passed.
\<close>

definition is_program_syntax_correct :: "('f, 'cov) toolchain \<Rightarrow> path \<Rightarrow> 'f sys \<Rightarrow> (verdict, 'f sys) outcome" where
  "is_program_syntax_correct tc p s =
     (case clang_syntax tc p of
        None \<Rightarrow> (Inl (Panic ''failed to execute the syntax check process''), s)
      | Some (success, stderr) \<Rightarrow>
          let s = log_time (dirname p) ''syntax'' s
          in if success then (Inr None, s) else (Inr (Some (Syntax stderr)), s))"

definition is_program_link_correct :: "('f, 'cov) toolchain \<Rightarrow> path \<Rightarrow> 'f sys \<Rightarrow> (verdict, 'f sys) outcome" where
  "is_program_link_correct tc p s =
     bindS (io_check (remove_duplicate_definition tc p), s) (\<lambda>_ s.
     case run_compile tc p (path_with_extension p ''out'') FUZZER s of
       (res, s) \<Rightarrow>
         let s = log_time (dirname p) ''link'' s
         in case res of Some msg \<Rightarrow> (Inr (Some (Link msg)), s) | None \<Rightarrow> (Inr None, s))"

definition is_program_execute_correct :: "('f, 'cov) toolchain \<Rightarrow> path \<Rightarrow> 'f sys \<Rightarrow> (verdict, 'f sys) outcome" where
  "is_program_execute_correct tc p s =
     bindS (io_check (fd_sanitize tc p), s) (\<lambda>_ s.
     bindS (io_check (copy_library_init_file tc (dirname p)), s) (\<lambda>_ s.
     case run_compile tc p (path_with_extension p ''out'') FUZZER s of
       (r, s) \<Rightarrow>
         bindS (io_check r, s) (\<lambda>_ s.
           let has_err = execute_pool tc (path_with_extension p ''out'') (shared s)
           in (Inr has_err, log_time (dirname p) ''execute'' s))))"

definition is_program_fuzz_correct :: "('f, 'cov) toolchain \<Rightarrow> path \<Rightarrow> 'f sys \<Rightarrow> (verdict, 'f sys) outcome" where
  "is_program_fuzz_correct tc p s =
     (let d = dirname p; corpus = child d ''corpus''; out = path_with_extension p ''out''
      in bindS (fs_step (fs_create_dir corpus) s) (\<lambda>_ s.
         let res = execute_fuzzer tc out (corpus_inputs corpus (files s)) (shared s);
             s = (case res of Inr new \<Rightarrow> s\<lparr>files := write_files corpus new (files s)\<rparr> | Inl _ \<Rightarrow> s);
             s = log_time d ''fuzz'' s
         in case res of Inl msg \<Rightarrow> (Inr (Some (Fuzzer msg)), s) | Inr _ \<Rightarrow> (Inr None, s)))"

definition coverage_message :: string where
  "coverage_message =
     ''The program cannot cover the callees along the path that contains maximum callees.'' @ [CHR 0x0A]"

definition is_program_coverage_correct :: "('f, 'cov) toolchain \<Rightarrow> path \<Rightarrow> 'f sys \<Rightarrow> (verdict, 'f sys) outcome" where
  "is_program_coverage_correct tc p s =
     (let d = dirname p; cov_bin = path_with_extension p ''cov.out''; corpus = child d ''corpus''
      in case run_compile tc p cov_bin COVERAGE s of
           (r, s) \<Rightarrow>
             bindS (io_check r, s) (\<lambda>_ s.
             bindS (tool (collect_code_coverage tc p cov_bin (corpus_inputs corpus (files s)) (shared s)), s)
               (\<lambda>cov s.
             bindS (tool (sanitize_by_fuzzer_coverage tc p cov), s) (\<lambda>has_err s.
             let s = log_time d ''coverage'' s
             in bindS (evolve_corpus tc p s) (\<lambda>_ s.
                bindS (fs_step (fs_remove_dir_all corpus) s) (\<lambda>_ s.
                if \<not> has_err then (Inr None, s)
                else bindS (tool (dump_fuzzer_coverage tc cov_bin), s) (\<lambda>msg s.
                       (Inr (Some (Coverage (coverage_message @ msg))), s))))))))"

definition check_program_is_correct :: "('f, 'cov) toolchain \<Rightarrow> path \<Rightarrow> 'f sys \<Rightarrow> (verdict, 'f sys) outcome" where
  "check_program_is_correct tc p s =
     next_stage (is_program_syntax_correct tc p s) (\<lambda>s.
     next_stage (is_program_link_correct tc p s) (\<lambda>s.
     next_stage (is_program_execute_correct tc p s) (\<lambda>s.
     next_stage (is_program_fuzz_correct tc p s) (\<lambda>s.
     next_stage (is_program_coverage_correct tc p s) (\<lambda>s. (Inr None, s))))))"

subsection \<open>The timing log\<close>

text \<open>
  The keys of the cost log (spec, section 6), in the order the stages write them; the
  coverage stage writes \<^verbatim>\<open>coverage\<close> and \<^verbatim>\<open>evolve_corpus\<close> then writes
  \<^verbatim>\<open>update\<close>.
\<close>

definition stage_keys :: "string list" where
  "stage_keys = [''syntax'', ''link'', ''execute'', ''fuzz'', ''coverage'', ''update'']"

definition logged :: "path \<Rightarrow> string list \<Rightarrow> 'f sys \<Rightarrow> 'f sys \<Rightarrow> bool" where
  "logged d ks s s' \<longleftrightarrow> cost s' = (cost s)(d := cost s d @ ks)"

text \<open>
  \<open>stage_logs d A k s out\<close>: the outcome \<open>out\<close> of a stage run from \<open>s\<close>
  appended one of the key sequences \<open>A\<close> to the log of \<open>d\<close>, and exactly \<open>k\<close> if
  the stage passed.
\<close>

definition stage_logs :: "path \<Rightarrow> string list list \<Rightarrow> string list \<Rightarrow> 'f sys \<Rightarrow> (verdict, 'f sys) outcome \<Rightarrow> bool" where
  "stage_logs d A k s out \<longleftrightarrow>
     (\<exists>ks. logged d ks s (snd out) \<and> ks \<in> set A \<and> (fst out = Inr None \<longrightarrow> ks = k))"

text \<open>
  The reference the stage chain is checked against: the stages as a list, run in order,
  the first error verdict or failure returned as it is and no later stage run.
\<close>

definition stages :: "('f, 'cov) toolchain \<Rightarrow> path \<Rightarrow> ('f sys \<Rightarrow> (verdict, 'f sys) outcome) list" where
  "stages tc p = [is_program_syntax_correct tc p, is_program_link_correct tc p,
     is_program_execute_correct tc p, is_program_fuzz_correct tc p, is_program_coverage_correct tc p]"

fun run_stages :: "('s \<Rightarrow> (verdict, 's) outcome) list \<Rightarrow> 's \<Rightarrow> (verdict, 's) outcome" where
  "run_stages [] s = (Inr None, s)"
| "run_stages (f # fs) s = (case f s of (Inr None, s') \<Rightarrow> run_stages fs s' | r \<Rightarrow> r)"

lemma logged_Nil: "logged d [] s s' \<longleftrightarrow> cost s' = cost s"
  by (auto simp: logged_def)

lemma logged_trans: "logged d ks s s1 \<Longrightarrow> logged d ks' s1 s2 \<Longrightarrow> logged d (ks @ ks') s s2"
  by (simp add: logged_def)

lemma next_stage_cases:
  "next_stage m f = (r, s') \<Longrightarrow>
     (m = (r, s') \<and> r \<noteq> Inr None) \<or> (\<exists>s1. m = (Inr None, s1) \<and> f s1 = (r, s'))"
  by (cases m; cases "fst m") (auto simp: next_stage_def split: option.splits)

lemma stage_logs_next:
  assumes m: "stage_logs d A k s m" and f: "\<And>s1. stage_logs d B k' s1 (f s1)"
  shows "stage_logs d (A @ map ((@) k) B) (k @ k') s (next_stage m f)"
proof (cases "fst m = Inr None")
  case True
  then obtain s1 where m1: "m = (Inr None, s1)" by (cases m) auto
  with m have "logged d k s s1" by (auto simp: stage_logs_def)
  moreover from f [of s1] obtain ks where
    "logged d ks s1 (snd (f s1))" "ks \<in> set B" "fst (f s1) = Inr None \<longrightarrow> ks = k'"
    by (auto simp: stage_logs_def)
  ultimately show ?thesis
    using m1 by (auto simp: stage_logs_def intro!: exI [of _ "k @ ks"] logged_trans)
next
  case False
  then have "next_stage m f = m"
    by (cases m; cases "fst m") (auto simp: next_stage_def split: option.splits)
  with m False show ?thesis by (auto simp: stage_logs_def)
qed

lemma stage_logs_unchanged:
  "cost (snd out) = cost s \<Longrightarrow> fst out \<noteq> Inr None \<Longrightarrow> [] \<in> set A \<Longrightarrow> stage_logs d A k s out"
  by (auto simp: stage_logs_def logged_def intro!: exI [of _ "[]"])

lemma stage_logs_failed:
  "cost (snd out) = (cost s)(d := cost s d @ ks) \<Longrightarrow> fst out \<noteq> Inr None \<Longrightarrow> ks \<in> set A
     \<Longrightarrow> stage_logs d A k s out"
  by (auto simp: stage_logs_def logged_def)

lemma stage_logs_key:
  "cost (snd out) = (cost s)(d := cost s d @ k) \<Longrightarrow> k \<in> set A \<Longrightarrow> stage_logs d A k s out"
  by (auto simp: stage_logs_def logged_def)

lemma stage_logs_mono:
  "stage_logs d A k s out \<Longrightarrow> set A \<subseteq> set A' \<Longrightarrow> k = k' \<Longrightarrow> stage_logs d A' k' s out"
  by (auto simp: stage_logs_def)

lemma stage_logs_done: "stage_logs d [[]] [] s (Inr None, s)"
  by (auto simp: stage_logs_def logged_def)

lemma syntax_logs:
  "stage_logs (dirname p) [[], [''syntax'']] [''syntax''] s (is_program_syntax_correct tc p s)"
  by (auto intro: stage_logs_unchanged stage_logs_key simp: is_program_syntax_correct_def log_time_def Let_def
      split: option.splits if_splits)

lemma link_logs:
  "stage_logs (dirname p) [[], [''link'']] [''link''] s (is_program_link_correct tc p s)"
  by (auto intro: stage_logs_unchanged stage_logs_key simp: is_program_link_correct_def log_time_def Let_def
      run_compile_def io_check_def split: option.splits prod.splits)

lemma execute_logs:
  "stage_logs (dirname p) [[], [''execute'']] [''execute''] s (is_program_execute_correct tc p s)"
  by (auto intro: stage_logs_unchanged stage_logs_key simp: is_program_execute_correct_def log_time_def Let_def
      run_compile_def io_check_def bindS_def split: option.splits prod.splits)

lemma fuzz_logs:
  "stage_logs (dirname p) [[], [''fuzz'']] [''fuzz''] s (is_program_fuzz_correct tc p s)"
  by (auto intro: stage_logs_unchanged stage_logs_key simp: is_program_fuzz_correct_def log_time_def Let_def
      fs_step_def bindS_def split: sum.splits)

lemma coverage_logs:
  "stage_logs (dirname p) [[], [''coverage''], [''coverage'', ''update'']] [''coverage'', ''update'']
     s (is_program_coverage_correct tc p s)"
proof -
  let ?d = "dirname p"
  let ?cov = "path_with_extension p ''cov.out''"
  let ?corpus = "child ?d ''corpus''"
  let ?s1 = "s\<lparr>files := write_file ?cov (files s)\<rparr>"
  show ?thesis
  proof (cases "compile tc p ?cov COVERAGE")
    case Some
    then show ?thesis
      by (auto intro: stage_logs_unchanged simp: is_program_coverage_correct_def Let_def run_compile_def)
  next
    case None
    show ?thesis
    proof (cases "collect_code_coverage tc p ?cov (corpus_inputs ?corpus (files ?s1)) (shared ?s1)")
      case Inl
      with None show ?thesis
        by (auto intro: stage_logs_unchanged simp: is_program_coverage_correct_def Let_def run_compile_def)
    next
      case (Inr cov)
      show ?thesis
      proof (cases "sanitize_by_fuzzer_coverage tc p cov")
        case Inl
        with None \<open>collect_code_coverage tc p ?cov _ _ = Inr cov\<close> show ?thesis
          by (auto intro: stage_logs_unchanged simp: is_program_coverage_correct_def Let_def run_compile_def)
      next
        case (Inr has_err)
        let ?sc = "log_time ?d ''coverage'' ?s1"
        let ?K = "\<lambda>_ s. bindS (fs_step (fs_remove_dir_all ?corpus) s) (\<lambda>_ s.
                    if \<not> has_err then (Inr None, s)
                    else bindS (tool (dump_fuzzer_coverage tc ?cov), s) (\<lambda>msg s.
                           (Inr (Some (Coverage (coverage_message @ msg))), s)))"
        have eq: "is_program_coverage_correct tc p s = bindS (evolve_corpus tc p ?sc) ?K"
          using None \<open>collect_code_coverage tc p ?cov _ _ = Inr cov\<close> Inr
          by (simp add: is_program_coverage_correct_def Let_def run_compile_def)
        have K: "cost (snd (?K u s')) = cost s'" for u s'
          by (auto simp: fs_step_def bindS_def tool_def split: sum.splits)
        have csc: "cost ?sc = (cost s)(?d := cost s ?d @ [''coverage''])"
          by (simp add: log_time_def)
        obtain r se where ev: "evolve_corpus tc p ?sc = (r, se)" by fastforce
        show ?thesis
        proof (cases r)
          case (Inl e)
          with eq ev have out: "is_program_coverage_correct tc p s = (Inl e, se)" by simp
          from evolve_corpus_cost [of tc p ?sc] ev csc
          have "cost se = (cost s)(?d := cost s ?d @ [''coverage''])
              \<or> cost se = (cost s)(?d := cost s ?d @ [''coverage'', ''update''])"
            by simp
          with out show ?thesis by (auto intro: stage_logs_failed)
        next
          case (Inr u)
          with ev have "cost se = (cost s)(?d := cost s ?d @ [''coverage'', ''update''])"
            using evolve_corpus_cost_Inr [of tc p ?sc u se] csc by simp
          moreover have "is_program_coverage_correct tc p s = ?K u se"
            using eq ev Inr by simp
          ultimately show ?thesis
            using K [of se] by (intro stage_logs_key) simp_all
        qed
      qed
    qed
  qed
qed

lemma check_program_logs:
  "stage_logs (dirname p) (map (\<lambda>n. take n stage_keys) [0..<Suc (length stage_keys)]) stage_keys s
     (check_program_is_correct tc p s)"
  unfolding check_program_is_correct_def
  apply (rule stage_logs_mono)
    apply (rule stage_logs_next syntax_logs link_logs execute_logs fuzz_logs coverage_logs
                stage_logs_done)+
   apply (simp_all add: stage_keys_def)
  done

subsection \<open>What a stage's verdict says about the tools\<close>

lemma syntax_None:
  "is_program_syntax_correct tc p s = (Inr None, s') \<Longrightarrow> \<exists>e. clang_syntax tc p = Some (True, e)"
  by (auto simp: is_program_syntax_correct_def Let_def split: option.splits if_splits)

lemma link_None:
  "is_program_link_correct tc p s = (Inr None, s') \<Longrightarrow>
     remove_duplicate_definition tc p = None \<and> compile tc p (path_with_extension p ''out'') FUZZER = None"
  by (auto simp: is_program_link_correct_def Let_def run_compile_def bindS_eq_Inr
      split: option.splits prod.splits)

lemma execute_None:
  "is_program_execute_correct tc p s = (Inr None, s') \<Longrightarrow>
     compile tc p (path_with_extension p ''out'') FUZZER = None \<and>
     execute_pool tc (path_with_extension p ''out'') (shared s) = None"
  by (auto simp: is_program_execute_correct_def Let_def run_compile_def bindS_eq_Inr
      split: option.splits prod.splits)

lemma fuzz_None:
  "is_program_fuzz_correct tc p s = (Inr None, s') \<Longrightarrow>
     \<exists>ins new. execute_fuzzer tc (path_with_extension p ''out'') ins (shared s) = Inr new"
  by (auto simp: is_program_fuzz_correct_def Let_def bindS_eq_Inr fs_step_def split: sum.splits)

lemma link_Some:
  "is_program_link_correct tc p s = (Inr (Some v), s') \<Longrightarrow> \<exists>m. v = Link m"
  by (auto simp: is_program_link_correct_def Let_def run_compile_def bindS_eq_Inr
      split: option.splits prod.splits)

lemma execute_Some:
  "is_program_execute_correct tc p s = (Inr (Some v), s') \<Longrightarrow> \<exists>c. execute_pool tc (path_with_extension p ''out'') c = Some v"
  by (auto simp: is_program_execute_correct_def Let_def run_compile_def bindS_eq_Inr
      split: option.splits prod.splits)

lemma syntax_Some:
  "is_program_syntax_correct tc p s = (Inr (Some v), s') \<Longrightarrow>
     \<exists>e. v = Syntax e \<and> clang_syntax tc p = Some (False, e) \<and> s' = log_time (dirname p) ''syntax'' s"
  by (auto simp: is_program_syntax_correct_def Let_def split: option.splits if_splits)

lemma coverage_unfold:
  assumes "compile tc p (path_with_extension p ''cov.out'') COVERAGE = None"
    and "collect_code_coverage tc p (path_with_extension p ''cov.out'')
           (corpus_inputs (child (dirname p) ''corpus'')
             (write_file (path_with_extension p ''cov.out'') (files s))) (shared s) = Inr c"
    and "sanitize_by_fuzzer_coverage tc p c = Inr has_err"
  shows "is_program_coverage_correct tc p s =
    bindS (evolve_corpus tc p (log_time (dirname p) ''coverage''
                                 (s\<lparr>files := write_file (path_with_extension p ''cov.out'') (files s)\<rparr>)))
      (\<lambda>_ s. bindS (fs_step (fs_remove_dir_all (child (dirname p) ''corpus'')) s) (\<lambda>_ s.
         if \<not> has_err then (Inr None, s)
         else bindS (tool (dump_fuzzer_coverage tc (path_with_extension p ''cov.out'')), s) (\<lambda>msg s.
                (Inr (Some (Coverage (coverage_message @ msg))), s))))"
  using assms by (simp add: is_program_coverage_correct_def Let_def run_compile_def)

lemma coverage_Inr_tools:
  assumes "is_program_coverage_correct tc p s = (Inr v, s')"
  shows "\<exists>c has_err. compile tc p (path_with_extension p ''cov.out'') COVERAGE = None
    \<and> collect_code_coverage tc p (path_with_extension p ''cov.out'')
           (corpus_inputs (child (dirname p) ''corpus'')
             (write_file (path_with_extension p ''cov.out'') (files s))) (shared s) = Inr c
    \<and> sanitize_by_fuzzer_coverage tc p c = Inr has_err"
  using assms
  by (auto simp: is_program_coverage_correct_def Let_def run_compile_def bindS_def tool_def
      split: option.split_asm sum.split_asm)

lemma coverage_Inr:
  assumes "is_program_coverage_correct tc p s = (Inr v, s')"
  shows "\<exists>c has_err s1 s2.
     compile tc p (path_with_extension p ''cov.out'') COVERAGE = None
     \<and> collect_code_coverage tc p (path_with_extension p ''cov.out'')
           (corpus_inputs (child (dirname p) ''corpus'')
             (write_file (path_with_extension p ''cov.out'') (files s))) (shared s) = Inr c
     \<and> sanitize_by_fuzzer_coverage tc p c = Inr has_err
     \<and> shared s1 = shared s \<and> gfeature s1 = gfeature s
     \<and> evolve_corpus tc p s1 = (Inr (), s2)
     \<and> shared s' = shared s2 \<and> gfeature s' = gfeature s2
     \<and> files s' (child (dirname p) ''corpus'') = None
     \<and> (v = None \<longleftrightarrow> \<not> has_err)
     \<and> (has_err \<longrightarrow> (\<exists>msg. v = Some (Coverage msg)))"
proof -
  obtain c has_err where t: "compile tc p (path_with_extension p ''cov.out'') COVERAGE = None"
    "collect_code_coverage tc p (path_with_extension p ''cov.out'')
           (corpus_inputs (child (dirname p) ''corpus'')
             (write_file (path_with_extension p ''cov.out'') (files s))) (shared s) = Inr c"
    "sanitize_by_fuzzer_coverage tc p c = Inr has_err"
    using coverage_Inr_tools [OF assms] by blast
  let ?s1 = "log_time (dirname p) ''coverage'' (s\<lparr>files := write_file (path_with_extension p ''cov.out'') (files s)\<rparr>)"
  obtain s2 where ev: "evolve_corpus tc p ?s1 = (Inr (), s2)"
    and k: "bindS (fs_step (fs_remove_dir_all (child (dirname p) ''corpus'')) s2) (\<lambda>_ s.
         if \<not> has_err then (Inr None, s)
         else bindS (tool (dump_fuzzer_coverage tc (path_with_extension p ''cov.out'')), s) (\<lambda>msg s.
                (Inr (Some (Coverage (coverage_message @ msg))), s))) = (Inr v, s')"
    using assms coverage_unfold [OF t] by (auto simp: bindS_eq_Inr)
  from k obtain m where m: "fs_remove_dir_all (child (dirname p) ''corpus'') (files s2) = Inr m"
    and k2: "(if \<not> has_err then (Inr None, s2\<lparr>files := m\<rparr>)
         else bindS (tool (dump_fuzzer_coverage tc (path_with_extension p ''cov.out'')), s2\<lparr>files := m\<rparr>) (\<lambda>msg s.
                (Inr (Some (Coverage (coverage_message @ msg))), s))) = (Inr v, s')"
    by (auto simp: bindS_eq_Inr fs_step_def split: sum.split_asm)
  have s': "shared s' = shared s2" "gfeature s' = gfeature s2" "files s' = m"
    using k2 by (auto simp: bindS_eq_Inr tool_def split: if_splits sum.split_asm)
  have "m (child (dirname p) ''corpus'') = None"
    using m by (auto simp: fs_remove_dir_all_def split: option.split_asm)
  moreover have "(v = None \<longleftrightarrow> \<not> has_err) \<and> (has_err \<longrightarrow> (\<exists>msg. v = Some (Coverage msg)))"
    using k2 by (auto simp: bindS_eq_Inr tool_def split: if_splits sum.split_asm)
  ultimately show ?thesis
    using ev s' t by (intro exI [of _ c] exI [of _ has_err] exI [of _ ?s1] exI [of _ s2]) simp
qed

lemma fuzz_Some:
  "is_program_fuzz_correct tc p s = (Inr (Some v), s') \<Longrightarrow> \<exists>m. v = Fuzzer m"
  by (auto simp: is_program_fuzz_correct_def Let_def bindS_def fs_step_def
      split: sum.split_asm prod.split_asm)

lemma next_stage_Inr_cases:
  assumes "next_stage m f = (Inr v, s')"
  obtains "m = (Inr v, s')" "v \<noteq> None" | s1 where "m = (Inr None, s1)" "f s1 = (Inr v, s')"
  using next_stage_cases [OF assms] that by auto

lemma check_program_cases:
  assumes "check_program_is_correct tc p s = (Inr v, s')"
  obtains (at_syntax) "is_program_syntax_correct tc p s = (Inr v, s')" "v \<noteq> None"
  | (at_link) s1 where "is_program_syntax_correct tc p s = (Inr None, s1)"
      "is_program_link_correct tc p s1 = (Inr v, s')" "v \<noteq> None"
  | (at_execute) s1 s2 where "is_program_syntax_correct tc p s = (Inr None, s1)"
      "is_program_link_correct tc p s1 = (Inr None, s2)"
      "is_program_execute_correct tc p s2 = (Inr v, s')" "v \<noteq> None"
  | (at_fuzz) s1 s2 s3 where "is_program_syntax_correct tc p s = (Inr None, s1)"
      "is_program_link_correct tc p s1 = (Inr None, s2)"
      "is_program_execute_correct tc p s2 = (Inr None, s3)"
      "is_program_fuzz_correct tc p s3 = (Inr v, s')" "v \<noteq> None"
  | (at_coverage) s1 s2 s3 s4 where "is_program_syntax_correct tc p s = (Inr None, s1)"
      "is_program_link_correct tc p s1 = (Inr None, s2)"
      "is_program_execute_correct tc p s2 = (Inr None, s3)"
      "is_program_fuzz_correct tc p s3 = (Inr None, s4)"
      "is_program_coverage_correct tc p s4 = (Inr v, s')"
  using assms unfolding check_program_is_correct_def
  by (elim next_stage_Inr_cases) (auto intro: that)

lemma coverage_Some:
  "is_program_coverage_correct tc p s = (Inr (Some v), s') \<Longrightarrow> \<exists>m. v = Coverage m"
  by (drule coverage_Inr) auto

lemma run_stages_Cons_next: "run_stages (f # fs) s = next_stage (f s) (run_stages fs)"
  by (cases "f s" rule: prod.exhaust; cases "fst (f s)")
    (auto simp: next_stage_def split: option.split sum.split)

lemma run_stages_Nil_fun: "run_stages [] = (\<lambda>s. (Inr None, s))"
  by (rule ext) simp

lemma run_stages_Cons_fun: "run_stages (f # fs) = (\<lambda>s. next_stage (f s) (run_stages fs))"
  by (rule ext) (rule run_stages_Cons_next)

lemma check_program_run_stages: "check_program_is_correct tc p s = run_stages (stages tc p) s"
  by (simp only: check_program_is_correct_def stages_def run_stages_Cons_fun run_stages_Nil_fun)

lemma stages_shared:
  "shared (snd (is_program_syntax_correct tc p s)) = shared s \<and> gfeature (snd (is_program_syntax_correct tc p s)) = gfeature s"
  "shared (snd (is_program_link_correct tc p s)) = shared s \<and> gfeature (snd (is_program_link_correct tc p s)) = gfeature s"
  "shared (snd (is_program_execute_correct tc p s)) = shared s \<and> gfeature (snd (is_program_execute_correct tc p s)) = gfeature s"
  "shared (snd (is_program_fuzz_correct tc p s)) = shared s \<and> gfeature (snd (is_program_fuzz_correct tc p s)) = gfeature s"
  by (auto simp: is_program_syntax_correct_def is_program_link_correct_def is_program_execute_correct_def
      is_program_fuzz_correct_def Let_def run_compile_def bindS_def fs_step_def
      split: option.split sum.split prod.split if_split)

lemmas stage_eval = check_program_is_correct_def is_program_syntax_correct_def
  is_program_link_correct_def is_program_execute_correct_def is_program_fuzz_correct_def
  is_program_coverage_correct_def write_files_def

subsection \<open>Directories the pipeline keeps\<close>

text \<open>
  No stage removes a directory other than the candidate's \<^verbatim>\<open>corpus\<close> directory and
  what lies below it: the tools only add files, and \<^verbatim>\<open>remove_file\<close> removes an entry
  of a directory, not the directory.
\<close>

lemma write_file_None: "write_file p m k = None \<longleftrightarrow> m k = None"
  by (auto simp: write_file_def fs_write_def split: option.splits)

lemma write_file_Some: "(\<exists>y. write_file p m k = Some y) \<longleftrightarrow> (\<exists>y. m k = Some y)"
  using write_file_None [of p m k] by auto

lemma write_files_None: "write_files d ns m k = None \<longleftrightarrow> m k = None"
  unfolding write_files_def by (induction ns arbitrary: m) (simp_all add: write_file_None)

lemma write_files_Some: "(\<exists>y. write_files d ns m k = Some y) \<longleftrightarrow> (\<exists>y. m k = Some y)"
  using write_files_None [of d ns m k] by auto

lemma evolve_corpus_keeps:
  "evolve_corpus tc p s = (r, s') \<Longrightarrow> files s k \<noteq> None \<Longrightarrow> files s' k \<noteq> None"
  by (auto simp: evolve_eval Let_def run_compile_def bindS_def tool_def fs_step_def write_file_Some
      fs_remove_file_def split: option.split_asm sum.split_asm prod.split_asm if_split_asm)

lemma stages_keep:
  assumes "files s k \<noteq> None"
  shows "files (snd (is_program_syntax_correct tc p s)) k \<noteq> None"
    and "files (snd (is_program_link_correct tc p s)) k \<noteq> None"
    and "files (snd (is_program_execute_correct tc p s)) k \<noteq> None"
    and "files (snd (is_program_fuzz_correct tc p s)) k \<noteq> None"
  using assms
  by (auto simp: is_program_syntax_correct_def is_program_link_correct_def is_program_execute_correct_def
      is_program_fuzz_correct_def Let_def run_compile_def bindS_def fs_step_def write_file_Some
      write_files_Some fs_create_dir_def split: option.split sum.split prod.split if_split)

lemma coverage_keeps:
  assumes "files s k \<noteq> None" "k \<noteq> child (dirname p) ''corpus''" "\<not> below (child (dirname p) ''corpus'') k"
  shows "files (snd (is_program_coverage_correct tc p s)) k \<noteq> None"
  using assms
  by (auto simp: is_program_coverage_correct_def Let_def run_compile_def bindS_def fs_step_def
      write_file_Some tool_def fs_remove_dir_all_def remove_tree_def
      split: option.split sum.split prod.split if_split dest!: evolve_corpus_keeps)

lemma next_stage_preserves:
  "P (snd m) \<Longrightarrow> (\<And>s1. P s1 \<Longrightarrow> P (snd (f s1))) \<Longrightarrow> P (snd (next_stage m f))"
  by (cases m) (auto simp: next_stage_def bindS_def split: sum.split option.split)

lemma check_program_keeps:
  assumes "files s k \<noteq> None" "k \<noteq> child (dirname p) ''corpus''" "\<not> below (child (dirname p) ''corpus'') k"
  shows "files (snd (check_program_is_correct tc p s)) k \<noteq> None"
  unfolding check_program_is_correct_def
  using assms(1)
  by (intro next_stage_preserves [where P = "\<lambda>s. files s k \<noteq> None"] stages_keep coverage_keeps assms(2,3))
    simp_all

lemma check_program_cost:
  "check_program_is_correct tc p s = (Inr v, s') \<Longrightarrow>
     \<exists>ks. cost s' = (cost s)(dirname p := cost s (dirname p) @ ks) \<and> (v = None \<longrightarrow> ks = stage_keys)"
  using check_program_logs [of p s tc] by (auto simp: stage_logs_def logged_def)

subsection \<open>Properties of the pipeline\<close>

text \<open>
  C2: The stages run strictly in the order syntax, link, execute, fuzz, coverage, and the
  first stage that fails stops the pipeline: \<^verbatim>\<open>check_program_is_correct\<close> equals
  the reference \<open>run_stages\<close> over the list of stages, which returns the first error
  verdict or failure without running a later stage; and the timing log of the work directory
  grows by a prefix of the keys \<^verbatim>\<open>syntax\<close>, \<^verbatim>\<open>link\<close>,
  \<^verbatim>\<open>execute\<close>, \<^verbatim>\<open>fuzz\<close>, \<^verbatim>\<open>coverage\<close>, \<^verbatim>\<open>update\<close>,
  by all six when the candidate is accepted.
\<close>

theorem check_program_stage_order:
  "check_program_is_correct tc p s = run_stages (stages tc p) s \<and>
   (\<exists>n \<le> length stage_keys.
     logged (dirname p) (take n stage_keys) s (snd (check_program_is_correct tc p s)) \<and>
     (fst (check_program_is_correct tc p s) = Inr None \<longrightarrow> n = length stage_keys))"
proof -
  obtain ks where ks: "logged (dirname p) ks s (snd (check_program_is_correct tc p s))"
      "ks \<in> set (map (\<lambda>n. take n stage_keys) [0..<Suc (length stage_keys)])"
      "fst (check_program_is_correct tc p s) = Inr None \<longrightarrow> ks = stage_keys"
    using check_program_logs [of p s tc] by (auto simp: stage_logs_def)
  from ks(2) have "\<exists>n. n \<le> length stage_keys \<and> ks = take n stage_keys"
    by (auto simp only: set_map set_upt image_iff atLeastLessThan_iff less_Suc_eq_le)
  then obtain n where n: "n \<le> length stage_keys" "ks = take n stage_keys"
    by blast
  have "length ks = n"
    using n by simp
  with ks n check_program_run_stages show ?thesis by auto
qed

theorem check_program_stage_order_witness:
  "fst (check_program_is_correct example_toolchain ''w/p.cc'' example_state) = Inr None
   \<and> logged ''w'' stage_keys example_state (snd (check_program_is_correct example_toolchain ''w/p.cc'' example_state))"
proof -
  have ok: "fst (check_program_is_correct example_toolchain ''w/p.cc'' example_state) = Inr None"
    by (simp add: stage_eval evolve_eval Let_def example_toolchain_def example_state_def path_eval fs_eval)
  from check_program_stage_order [of example_toolchain "''w/p.cc''" example_state] ok
  have "logged (dirname ''w/p.cc'') stage_keys example_state
          (snd (check_program_is_correct example_toolchain ''w/p.cc'' example_state))"
    by auto
  with ok show ?thesis by (simp add: dirname_def)
qed

text \<open>
  C3: A candidate the pipeline accepts has passed every stage: clang accepted it, the
  duplicate-definition pass and the fuzzer build succeeded, the driver passed on the shared
  corpus the pipeline started with, the fuzzer ran against that shared corpus, the coverage
  build succeeded and the coverage check, collected on that shared corpus, found nothing;
  the corpus was evolved from the starting store and shared corpus, the pipeline ends with
  the store and shared corpus the evolution produced, and the candidate's corpus directory
  was removed.
\<close>

theorem check_program_accepted:
  assumes "check_program_is_correct tc p s = (Inr None, s')"
  shows "(\<exists>e. clang_syntax tc p = Some (True, e))
    \<and> remove_duplicate_definition tc p = None
    \<and> compile tc p (path_with_extension p ''out'') FUZZER = None
    \<and> execute_pool tc (path_with_extension p ''out'') (shared s) = None
    \<and> (\<exists>ins new. execute_fuzzer tc (path_with_extension p ''out'') ins (shared s) = Inr new)
    \<and> compile tc p (path_with_extension p ''cov.out'') COVERAGE = None
    \<and> (\<exists>ins c. collect_code_coverage tc p (path_with_extension p ''cov.out'') ins (shared s) = Inr c
         \<and> sanitize_by_fuzzer_coverage tc p c = Inr False)
    \<and> (\<exists>s1 s2. shared s1 = shared s \<and> gfeature s1 = gfeature s \<and> evolve_corpus tc p s1 = (Inr (), s2)
         \<and> shared s' = shared s2 \<and> gfeature s' = gfeature s2)
    \<and> files s' (child (dirname p) ''corpus'') = None"
  using assms
proof (cases rule: check_program_cases)
  case (at_coverage s1 s2 s3 s4)
  have sh: "shared s4 = shared s" "gfeature s4 = gfeature s"
    using stages_shared [of tc p s] stages_shared [of tc p s1] stages_shared [of tc p s2] stages_shared [of tc p s3]
      at_coverage(1-4) by auto
  show ?thesis
    using syntax_None [OF at_coverage(1)] link_None [OF at_coverage(2)] execute_None [OF at_coverage(3)]
      fuzz_None [OF at_coverage(4)] coverage_Inr [OF at_coverage(5)] sh
      stages_shared [of tc p s] stages_shared [of tc p s1] stages_shared [of tc p s2]
      at_coverage(1-3)
    by fastforce
qed simp_all

theorem check_program_accepted_witness:
  "check_program_is_correct example_toolchain ''w/p.cc'' example_state
     = (Inr None, snd (check_program_is_correct example_toolchain ''w/p.cc'' example_state))
   \<and> files (snd (check_program_is_correct example_toolchain ''w/p.cc'' example_state)) ''w/corpus'' = None"
proof -
  have ok: "fst (check_program_is_correct example_toolchain ''w/p.cc'' example_state) = Inr None"
    by (simp add: stage_eval evolve_eval Let_def example_toolchain_def example_state_def path_eval fs_eval)
  then have eq: "check_program_is_correct example_toolchain ''w/p.cc'' example_state
     = (Inr None, snd (check_program_is_correct example_toolchain ''w/p.cc'' example_state))"
    by (metis prod.collapse)
  from check_program_accepted [OF eq] eq show ?thesis by (simp add: path_eval)
qed

text \<open>
  C10: When clang rejects the candidate, the verdict is the syntax error with clang's
  message, only the \<^verbatim>\<open>syntax\<close> key is logged and nothing else changes: no later
  stage runs.
\<close>

theorem check_program_syntax_rejects:
  "clang_syntax tc p = Some (False, e) \<Longrightarrow>
     check_program_is_correct tc p s = (Inr (Some (Syntax e)), log_time (dirname p) ''syntax'' s)"
  by (simp add: check_program_is_correct_def is_program_syntax_correct_def)

theorem check_program_syntax_rejects_witness:
  "check_program_is_correct (example_toolchain\<lparr>clang_syntax := \<lambda>_. Some (False, ''error'')\<rparr>) ''w/p.cc''
     example_state = (Inr (Some (Syntax ''error'')), log_time ''w'' ''syntax'' example_state)"
  using check_program_syntax_rejects [of "example_toolchain\<lparr>clang_syntax := \<lambda>_. Some (False, ''error'')\<rparr>"
      "''w/p.cc''" "''error''" example_state]
  by (simp add: dirname_def)

text \<open>
  C9: Every error verdict of the pipeline comes from one of its stages: a syntax error is
  clang's rejection, and the other verdicts are a link error, a verdict of the driver's
  execution on the corpus, a fuzzer error or a coverage error.
\<close>

theorem check_program_verdict_source:
  assumes "check_program_is_correct tc p s = (Inr (Some v), s')"
  shows "(\<exists>e. v = Syntax e \<and> clang_syntax tc p = Some (False, e)) \<or> (\<exists>m. v = Link m)
    \<or> (\<exists>c. execute_pool tc (path_with_extension p ''out'') c = Some v)
    \<or> (\<exists>m. v = Fuzzer m) \<or> (\<exists>m. v = Coverage m)"
  using assms
  by (cases rule: check_program_cases)
    (auto dest: syntax_Some link_Some execute_Some fuzz_Some coverage_Some)

theorem check_program_verdict_source_witness:
  "check_program_is_correct (example_toolchain\<lparr>compile := \<lambda>_ _ k. if k = FUZZER then Some ''undefined'' else None\<rparr>)
     ''w/p.cc'' example_state = (Inr (Some (Link ''undefined'')), snd (check_program_is_correct
       (example_toolchain\<lparr>compile := \<lambda>_ _ k. if k = FUZZER then Some ''undefined'' else None\<rparr>) ''w/p.cc'' example_state))
   \<and> (\<exists>m. Link ''undefined'' = Link m)"
proof -
  let ?tc = "example_toolchain\<lparr>compile := \<lambda>_ _ k. if k = FUZZER then Some ''undefined'' else None\<rparr>"
  have "fst (check_program_is_correct ?tc ''w/p.cc'' example_state) = Inr (Some (Link ''undefined''))"
    by (simp add: stage_eval Let_def run_compile_def example_toolchain_def example_state_def path_eval fs_eval log_time_def)
  then have eq: "check_program_is_correct ?tc ''w/p.cc'' example_state
      = (Inr (Some (Link ''undefined'')), snd (check_program_is_correct ?tc ''w/p.cc'' example_state))"
    by (metis prod.collapse)
  from check_program_verdict_source [OF eq] eq show ?thesis by simp
qed

text \<open>
  C8: Even when the coverage stage rejects the candidate with a coverage error, it has first
  run \<^verbatim>\<open>evolve_corpus\<close> to completion, whose effects on the shared corpus and the
  feature store persist (the spec says the corpus is evolved only for accepted candidates).
\<close>

theorem coverage_failure_still_evolves:
  assumes "is_program_coverage_correct tc p s = (Inr (Some v), s')"
  shows "\<exists>m s1 s2. v = Coverage m \<and> evolve_corpus tc p s1 = (Inr (), s2)
    \<and> gfeature s' = gfeature s2 \<and> shared s' = shared s2"
  using coverage_Inr [OF assms] by auto

theorem coverage_failure_still_evolves_witness:
  "\<exists>v s1 s2. is_program_coverage_correct (example_toolchain\<lparr>sanitize_by_fuzzer_coverage := \<lambda>_ _. Inr True\<rparr>)
       ''w/p.cc'' example_state = (Inr (Some v), snd (is_program_coverage_correct
         (example_toolchain\<lparr>sanitize_by_fuzzer_coverage := \<lambda>_ _. Inr True\<rparr>) ''w/p.cc'' example_state))
     \<and> evolve_corpus (example_toolchain\<lparr>sanitize_by_fuzzer_coverage := \<lambda>_ _. Inr True\<rparr>) ''w/p.cc'' s1 = (Inr (), s2)"
proof -
  let ?tc = "example_toolchain\<lparr>sanitize_by_fuzzer_coverage := \<lambda>_ _. Inr True\<rparr>"
  have "fst (is_program_coverage_correct ?tc ''w/p.cc'' example_state) = Inr (Some (Coverage coverage_message))"
    by (simp add: stage_eval evolve_eval Let_def example_toolchain_def example_state_def path_eval fs_eval)
  then have eq: "is_program_coverage_correct ?tc ''w/p.cc'' example_state
      = (Inr (Some (Coverage coverage_message)), snd (is_program_coverage_correct ?tc ''w/p.cc'' example_state))"
    by (metis prod.collapse)
  from coverage_failure_still_evolves [OF eq] eq show ?thesis by blast
qed

end
