(* ===== verification/Supervisor.thy ===== *)
theory Supervisor
  imports Complex_Main Serde Pipeline
begin

text \<open>
  The batch supervisor of src/src/execution/sanitize.rs: \<^verbatim>\<open>check_programs_are_correct\<close>
  (lines 157--191) writes each candidate to its work path, checks them with
  \<^verbatim>\<open>concurrent_check\<close> (lines 243--261) in batches of \<open>core\<close> worker processes
  (\<^verbatim>\<open>concurrent_check_batch\<close>, lines 193--241), reports the stage times with
  \<^verbatim>\<open>utils::print_san_cost\<close> (lines 349--376), and applies the cleanup policy to every
  work directory. The worker processes are the \<^verbatim>\<open>harness check\<close> binary, which is not
  in the sources: the record \<open>host\<close> gives, for a batch, whether spawning a worker
  fails, the exit status and stderr of each worker when it has been waited for, and the
  state the batch leaves; \<open>load_time\<close> reads a stage time from a work directory's
  cost file (\<^verbatim>\<open>TimeUsage::load\<close>). Times are real numbers (the code's \<^verbatim>\<open>f32\<close>
  rounding is not modelled).
\<close>

record 'f host =
  spawn_fails :: "path \<Rightarrow> bool"
  run_batch :: "path list \<Rightarrow> 'f sys \<Rightarrow> (nat \<Rightarrow> (bool \<times> string) option) \<times> 'f sys"
  load_time :: "path \<Rightarrow> string \<Rightarrow> string + real"

text \<open>\<^verbatim>\<open>program::Program\<close>: the supervisor uses its id; the serialized code is written.\<close>

record program =
  pid :: nat
  code :: string

subsection \<open>Work paths\<close>

text \<open>
  \<^verbatim>\<open>Deopt::get_work_seed_by_id\<close>: the candidate with id \<open>n\<close> lives in the directory
  \<^verbatim>\<open>work/n\<close>, created if missing, as the file \<^verbatim>\<open>id_n.cc\<close> with \<open>n\<close> padded to
  six digits.
\<close>

definition work_dir :: "path \<Rightarrow> nat \<Rightarrow> path" where
  "work_dir base n = child base (nat_string n)"

definition seed_name :: "nat \<Rightarrow> string" where
  "seed_name n = ''id_'' @ replicate (6 - length (nat_string n)) CHR ''0'' @ nat_string n @ ''.cc''"

definition work_seed :: "path \<Rightarrow> nat \<Rightarrow> path" where
  "work_seed base n = child (work_dir base n) (seed_name n)"

definition get_work_seed_by_id :: "path \<Rightarrow> nat \<Rightarrow> 'f sys \<Rightarrow> (path, 'f sys) outcome" where
  "get_work_seed_by_id base n s =
     bindS (fs_step (fs_create_dir (work_dir base n)) s) (\<lambda>_ s. (Inr (work_seed base n), s))"

text \<open>Lines 162--170: each candidate is written to its work path, in order.\<close>

fun write_programs :: "path \<Rightarrow> program list \<Rightarrow> 'f sys \<Rightarrow> (path list, 'f sys) outcome" where
  "write_programs base [] s = (Inr [], s)"
| "write_programs base (p # ps) s =
     bindS (get_work_seed_by_id base (pid p) s) (\<lambda>path s.
     bindS (fs_step (fs_write path) s) (\<lambda>_ s.
     bindS (write_programs base ps s) (\<lambda>paths s. (Inr (path # paths), s))))"

subsection \<open>Workers\<close>

text \<open>
  Lines 224--236: a worker that exits with success accepted its candidate; otherwise its
  stderr is decoded as a \<^verbatim>\<open>ProgramError\<close>, and an undecodable stderr is reported as a
  fuzzer error carrying the raw text.
\<close>

definition worker_verdict :: "bool \<times> string \<Rightarrow> verdict" where
  "worker_verdict out =
     (case out of
        (True, _) \<Rightarrow> None
      | (False, err) \<Rightarrow> Some (case decode_error err of Some e \<Rightarrow> e | None \<Rightarrow> Fuzzer err))"

fun collect_outputs :: "(nat \<Rightarrow> (bool \<times> string) option) \<Rightarrow> nat list \<Rightarrow> verdict list result" where
  "collect_outputs outs [] = Inr []"
| "collect_outputs outs (i # is) =
     (case outs i of
        None \<Rightarrow> Inl (Panic ''command wasn't running'')
      | Some out \<Rightarrow> bindR (collect_outputs outs is) (\<lambda>vs. Inr (worker_verdict out # vs)))"

text \<open>
  Lines 193--241: one worker for each of the first \<open>core\<close> programs; a failed spawn
  panics; then the workers are waited for in spawn order.
\<close>

definition concurrent_check_batch :: "'f host \<Rightarrow> path list \<Rightarrow> nat \<Rightarrow> 'f sys \<Rightarrow> (verdict list, 'f sys) outcome" where
  "concurrent_check_batch h programs core s =
     (let spawned = take core programs
      in if list_ex (spawn_fails h) spawned
         then (Inl (Panic ''failed to execute the concurrent transform process''), s)
         else (case run_batch h spawned s of
                 (outs, s') \<Rightarrow> (collect_outputs outs [0..<length spawned], s')))"

text \<open>
  Lines 243--261: the loop over the programs with the one-based position \<open>i\<close>; the
  pending batch is checked when \<open>i\<close> is a multiple of \<open>core\<close> or the last position.
  Rust's \<^verbatim>\<open>%\<close> panics on a zero divisor.
\<close>

fun cc_loop :: "'f host \<Rightarrow> nat \<Rightarrow> nat \<Rightarrow> nat \<Rightarrow> path list \<Rightarrow> path list \<Rightarrow> verdict list \<Rightarrow> 'f sys
                  \<Rightarrow> (verdict list, 'f sys) outcome" where
  "cc_loop h core n i [] batch acc s = (Inr acc, s)"
| "cc_loop h core n i (p # ps) batch acc s =
     (let i = i + 1; batch = batch @ [p]
      in if core = 0 then (Inl (Panic ''attempt to calculate the remainder with a divisor of zero''), s)
         else if i mod core = 0 \<or> i = n
         then bindS (concurrent_check_batch h batch core s) (\<lambda>res s. cc_loop h core n i ps [] (acc @ res) s)
         else cc_loop h core n i ps batch acc s)"

definition concurrent_check :: "'f host \<Rightarrow> path list \<Rightarrow> nat \<Rightarrow> 'f sys \<Rightarrow> (verdict list, 'f sys) outcome" where
  "concurrent_check h programs core s = cc_loop h core (length programs) 0 programs [] [] s"

subsection \<open>The sanitization cost report\<close>

text \<open>
  Lines 349--376: the six stage times of each work directory, read in the order of
  \<open>stage_keys\<close>; the times of the first program with the largest strictly positive
  total are kept, and \<^verbatim>\<open>usage[0]\<close> panics when no program had one.
\<close>

fun load_times :: "'f host \<Rightarrow> path \<Rightarrow> string list \<Rightarrow> real list result" where
  "load_times h d [] = Inr []"
| "load_times h d (k # ks) = bindR (tool (load_time h d k)) (\<lambda>t. bindR (load_times h d ks) (\<lambda>ts. Inr (t # ts)))"

fun san_cost_loop :: "'f host \<Rightarrow> path list \<Rightarrow> real \<Rightarrow> real list \<Rightarrow> real list result" where
  "san_cost_loop h [] max_time usage = Inr usage"
| "san_cost_loop h (p # ps) max_time usage =
     bindR (load_times h (dirname p) stage_keys) (\<lambda>ts.
       let total = sum_list ts
       in if total > max_time then san_cost_loop h ps total ts else san_cost_loop h ps max_time usage)"

definition print_san_cost :: "'f host \<Rightarrow> path list \<Rightarrow> real list result" where
  "print_san_cost h paths =
     bindR (san_cost_loop h paths 0 []) (\<lambda>usage.
       if usage = [] then Inl (Panic ''index out of bounds: the len is 0 but the index is 0'')
       else Inr usage)"

subsection \<open>Cleanup policy and the whole batch\<close>

text \<open>Lines 180--187: the verdicts whose work directory is kept as evidence.\<close>

definition keeps_dir :: "verdict \<Rightarrow> bool" where
  "keeps_dir v = (case v of None \<Rightarrow> True | Some (Hang _) \<Rightarrow> True | Some (Fuzzer _) \<Rightarrow> True | Some _ \<Rightarrow> False)"

text \<open>Lines 175--189: \<^verbatim>\<open>program_paths[i]\<close> for the \<open>i\<close>-th verdict, in order.\<close>

fun cleanup_verdicts :: "path list \<Rightarrow> nat \<Rightarrow> verdict list \<Rightarrow> 'f sys \<Rightarrow> (unit, 'f sys) outcome" where
  "cleanup_verdicts paths i [] s = (Inr (), s)"
| "cleanup_verdicts paths i (v # vs) s =
     (if length paths \<le> i then (Inl (Panic ''index out of bounds''), s)
      else let dir = dirname (paths ! i)
           in bindS (fs_step (cleanup_sanitize_dir dir) s) (\<lambda>_ s.
              if keeps_dir v then cleanup_verdicts paths (Suc i) vs s
              else bindS (fs_step (fs_remove_dir_all dir) s) (\<lambda>_ s. cleanup_verdicts paths (Suc i) vs s)))"

definition check_programs_are_correct :: "'f host \<Rightarrow> nat \<Rightarrow> path \<Rightarrow> program list \<Rightarrow> 'f sys
                                            \<Rightarrow> (verdict list, 'f sys) outcome" where
  "check_programs_are_correct h core base programs s =
     bindS (write_programs base programs s) (\<lambda>paths s.
     bindS (concurrent_check h paths core s) (\<lambda>res s.
     bindS (print_san_cost h paths, s) (\<lambda>_ s.
     bindS (cleanup_verdicts paths 0 res s) (\<lambda>_ s. (Inr res, s)))))"

subsection \<open>The worker binary\<close>

text \<open>
  \<^verbatim>\<open>harness <library> check <program>\<close> (not in the sources; spec, section 6) runs
  \<^verbatim>\<open>check_program_is_correct\<close> and exits with success on an accepted candidate;
  otherwise it prints the JSON of the verdict, or the error report of Rust's \<^verbatim>\<open>main\<close>
  or of a panic, to stderr. \<open>serial_host\<close> is the host on which the workers of a batch
  run one after the other on the shared state, the schedule in which no two workers overlap.
\<close>

primrec failure_text :: "failure \<Rightarrow> string" where
  "failure_text (Error m) = ''Error: '' @ m"
| "failure_text (Panic m) = ''thread '' @ [CHR 0x27] @ ''main'' @ [CHR 0x27] @ '' panicked: '' @ m"

definition harness_exit :: "verdict result \<Rightarrow> bool \<times> string" where
  "harness_exit r =
     (case r of
        Inr None \<Rightarrow> (True, [])
      | Inr (Some e) \<Rightarrow> (False, encode_error e @ [CHR 0x0A])
      | Inl f \<Rightarrow> (False, failure_text f))"

definition worker_outcome :: "verdict result \<Rightarrow> verdict" where
  "worker_outcome r = (case r of Inr v \<Rightarrow> v | Inl f \<Rightarrow> Some (Fuzzer (failure_text f)))"

fun serial_workers :: "('f, 'cov) toolchain \<Rightarrow> path list \<Rightarrow> 'f sys \<Rightarrow> verdict result list \<times> 'f sys" where
  "serial_workers tc [] s = ([], s)"
| "serial_workers tc (p # ps) s =
     (case check_program_is_correct tc p s of
        (r, s1) \<Rightarrow> (case serial_workers tc ps s1 of (rs, s2) \<Rightarrow> (r # rs, s2)))"

definition serial_host :: "('f, 'cov) toolchain \<Rightarrow> (path \<Rightarrow> string \<Rightarrow> string + real) \<Rightarrow> 'f host" where
  "serial_host tc lt =
     \<lparr>spawn_fails = \<lambda>_. False,
      run_batch = \<lambda>ps s. (case serial_workers tc ps s of
                           (rs, s') \<Rightarrow> (\<lambda>i. if i < length rs then Some (harness_exit (rs ! i)) else None, s')),
      load_time = lt\<rparr>"

subsection \<open>Abstract specifications\<close>

text \<open>
  \<open>chunks k xs\<close> cuts the programs into the batches of at most \<open>k\<close> that
  \<^verbatim>\<open>concurrent_check\<close> should run one after the other; \<open>run_batches\<close> runs a list of
  batches. \<open>dir_cleaned v m d\<close> is the cleanup policy of the spec (section 4.5) for the
  work directory \<open>d\<close> of a candidate with verdict \<open>v\<close>: it exists and holds only
  retained files when the verdict keeps it, and is gone otherwise.
\<close>

function chunks :: "nat \<Rightarrow> 'a list \<Rightarrow> 'a list list" where
  "chunks k xs = (if k = 0 \<or> xs = [] then [] else take k xs # chunks k (drop k xs))"
  by pat_completeness auto
termination
  by (relation "measure (\<lambda>(k, xs). length xs)") auto

declare chunks.simps [simp del]

fun run_batches :: "'f host \<Rightarrow> nat \<Rightarrow> path list list \<Rightarrow> 'f sys \<Rightarrow> (verdict list, 'f sys) outcome" where
  "run_batches h core [] s = (Inr [], s)"
| "run_batches h core (b # bs) s =
     bindS (concurrent_check_batch h b core s) (\<lambda>r s.
     bindS (run_batches h core bs s) (\<lambda>rs s. (Inr (r @ rs), s)))"

definition dir_cleaned :: "verdict \<Rightarrow> fs \<Rightarrow> path \<Rightarrow> bool" where
  "dir_cleaned v m d =
     (case m d of None \<Rightarrow> \<not> keeps_dir v | Some es \<Rightarrow> keeps_dir v \<and> list_all (\<lambda>e. is_retained (ename e)) es)"

definition dirs_apart :: "path list \<Rightarrow> bool" where
  "dirs_apart ds \<longleftrightarrow>
     (\<forall>k < length ds. \<forall>k' < length ds. (k \<noteq> k' \<longrightarrow> outside (ds ! k') (ds ! k)) \<and> ds ! k \<noteq> dirname (ds ! k'))"

subsection \<open>Examples\<close>

text \<open>
  A host whose workers all accept and whose stage times are all one second, and a state
  with an empty work root \<^verbatim>\<open>w\<close>.
\<close>

definition example_host :: "nat host" where
  "example_host =
     \<lparr>spawn_fails = \<lambda>_. False,
      run_batch = \<lambda>ps s. (\<lambda>i. if i < length ps then Some (True, []) else None, s),
      load_time = \<lambda>_ _. Inr 1\<rparr>"

definition example_batch_state :: "nat sys" where
  "example_batch_state = \<lparr>files = [''w'' \<mapsto> []], shared = [], gfeature = None, cost = \<lambda>_. []\<rparr>"

subsection \<open>Batching\<close>

lemma chunks_Nil [simp]: "chunks k [] = []"
  by (simp add: chunks.simps)

lemma chunks_append:
  assumes "0 < length xs" "length xs \<le> k" "length xs = k \<or> ys = []"
  shows "chunks k (xs @ ys) = xs # chunks k ys"
proof -
  have "0 < k" using assms(1,2) by linarith
  with assms show ?thesis by (subst chunks.simps) auto
qed

lemma cc_loop_chunks:
  assumes "0 < core" "n = i + length ps" "length batch < core"
    "ps = [] \<longrightarrow> batch = []" "ps \<noteq> [] \<longrightarrow> length batch = i mod core"
  shows "cc_loop h core n i ps batch acc s =
           bindS (run_batches h core (chunks core (batch @ ps)) s) (\<lambda>rs s. (Inr (acc @ rs), s))"
  using assms
proof (induction ps arbitrary: i batch acc s)
  case Nil
  then show ?case by simp
next
  case (Cons p ps)
  have im: "length batch = i mod core" using Cons.prems(5) by simp
  show ?case
  proof (cases "Suc i mod core = 0 \<or> Suc i = n")
    case True
    have full: "length (batch @ [p]) = core \<or> ps = []"
    proof (cases "Suc i mod core = 0")
      case True
      with im Cons.prems(1,3) show ?thesis by (auto simp: mod_Suc split: if_splits)
    next
      case False
      with \<open>Suc i mod core = 0 \<or> Suc i = n\<close> Cons.prems(2) show ?thesis by simp
    qed
    have ch: "chunks core (batch @ p # ps) = (batch @ [p]) # chunks core ps"
      using chunks_append [of "batch @ [p]" core ps] full Cons.prems(3) by simp
    have IH: "cc_loop h core n (Suc i) ps [] acc' s' =
        bindS (run_batches h core (chunks core ps) s') (\<lambda>rs s. (Inr (acc' @ rs), s))" for acc' s'
      using Cons.IH [of "Suc i" "[]" acc' s'] Cons.prems(1,2) True by auto
    have IH': "(\<lambda>res. cc_loop h core n (Suc i) ps [] (acc @ res)) =
        (\<lambda>x s. bindS (run_batches h core (chunks core ps) s) (\<lambda>rs s. (Inr (acc @ x @ rs), s)))"
      by (intro ext) (simp add: IH)
    show ?thesis
      using True Cons.prems(1)
      by (simp add: ch IH' bindS_assoc Let_def)
  next
    case False
    then have "ps \<noteq> []" using Cons.prems(2) by auto
    moreover have "length (batch @ [p]) = Suc i mod core"
      using False im Cons.prems(1,3) by (auto simp: mod_Suc split: if_splits)
    ultimately have "cc_loop h core n (Suc i) ps (batch @ [p]) acc s =
        bindS (run_batches h core (chunks core ((batch @ [p]) @ ps)) s) (\<lambda>rs s. (Inr (acc @ rs), s))"
      using Cons.prems(1,2) by (intro Cons.IH) auto
    with False Cons.prems(1) show ?thesis by (simp add: Let_def)
  qed
qed

lemma concurrent_check_chunks:
  "0 < core \<Longrightarrow> concurrent_check h ps core s = run_batches h core (chunks core ps) s"
  using cc_loop_chunks [of core "length ps" 0 ps "[]" h "[]" s] by (simp add: concurrent_check_def)


lemma chunks_bounded: "b \<in> set (chunks k xs) \<Longrightarrow> length b \<le> k"
  by (induction k xs rule: chunks.induct) (subst (asm) chunks.simps, auto split: if_splits)

lemma concat_chunks: "0 < k \<Longrightarrow> concat (chunks k xs) = xs"
  by (induction k xs rule: chunks.induct) (subst chunks.simps, auto)

lemma collect_outputs_length: "collect_outputs outs is = Inr vs \<Longrightarrow> length vs = length is"
  by (induction "is" arbitrary: vs) (auto simp: bindR_eq_Inr split: option.splits)

lemma concurrent_check_batch_length:
  "concurrent_check_batch h b core s = (Inr vs, s') \<Longrightarrow> length vs = min core (length b)"
  by (auto simp: concurrent_check_batch_def Let_def dest!: collect_outputs_length split: if_splits prod.splits)

lemma run_batches_length:
  "run_batches h core bs s = (Inr vs, s') \<Longrightarrow> \<forall>b \<in> set bs. length b \<le> core \<Longrightarrow>
     length vs = length (concat bs)"
proof (induction bs arbitrary: s vs)
  case Nil
  then show ?case by simp
next
  case (Cons b bs)
  from Cons.prems(1) obtain r s1 rs where "concurrent_check_batch h b core s = (Inr r, s1)"
    "run_batches h core bs s1 = (Inr rs, s')" "vs = r @ rs"
    by (auto simp: bindS_eq_Inr)
  with Cons.IH Cons.prems(2) show ?case
    by (auto dest!: concurrent_check_batch_length)
qed

lemma decode_failure_text [simp]: "decode_error (failure_text f) = None"
  by (cases f) (simp_all add: decode_error_def parse_token_def skip_ws_def json_ws_def)

lemma worker_verdict_harness_exit: "worker_verdict (harness_exit r) = worker_outcome r"
proof -
  have nl: "list_all json_ws [CHR 0x0A]" by (simp add: json_ws_def)
  show ?thesis
    by (auto simp: worker_verdict_def harness_exit_def worker_outcome_def decode_encode_error [OF nl]
        split: sum.split option.split)
qed

lemma serial_workers_length: "length (fst (serial_workers tc ps s)) = length ps"
  by (induction ps arbitrary: s) (auto split: prod.split, metis fst_conv)

lemma serial_workers_append:
  "serial_workers tc (xs @ ys) s =
     (case serial_workers tc xs s of (r1, s1) \<Rightarrow> (case serial_workers tc ys s1 of (r2, s2) \<Rightarrow> (r1 @ r2, s2)))"
  by (induction xs arbitrary: s) (auto split: prod.split)

lemma collect_outputs_all:
  "\<forall>i \<in> set is. outs i = Some (f i) \<Longrightarrow> collect_outputs outs is = Inr (map (\<lambda>i. worker_verdict (f i)) is)"
  by (induction "is") auto

lemma concurrent_check_batch_serial:
  assumes "length b \<le> core"
  shows "concurrent_check_batch (serial_host tc lt) b core s =
           (case serial_workers tc b s of (rs, s') \<Rightarrow> (Inr (map worker_outcome rs), s'))"
proof -
  obtain rs s' where sw: "serial_workers tc b s = (rs, s')" by fastforce
  then have len: "length rs = length b"
    using serial_workers_length [of tc b s] by simp
  have "collect_outputs (\<lambda>i. if i < length rs then Some (harness_exit (rs ! i)) else None) [0..<length b]
          = Inr (map (\<lambda>i. worker_verdict (harness_exit (rs ! i))) [0..<length rs])"
    using len by (subst collect_outputs_all [where f = "\<lambda>i. harness_exit (rs ! i)"]) auto
  also have "\<dots> = Inr (map worker_outcome rs)"
    by (simp add: worker_verdict_harness_exit, rule nth_equalityI) simp_all
  finally show ?thesis
    using assms sw by (simp add: concurrent_check_batch_def serial_host_def Let_def list_ex_iff)
qed


lemma run_batches_serial:
  "\<forall>b \<in> set bs. length b \<le> core \<Longrightarrow>
   run_batches (serial_host tc lt) core bs s =
     (case serial_workers tc (concat bs) s of (rs, s') \<Rightarrow> (Inr (map worker_outcome rs), s'))"
proof (induction bs arbitrary: s)
  case Nil
  then show ?case by simp
next
  case (Cons b bs)
  obtain r1 s1 where b: "serial_workers tc b s = (r1, s1)" by fastforce
  obtain r2 s2 where bs: "serial_workers tc (concat bs) s1 = (r2, s2)" by fastforce
  show ?case
    using Cons b bs by (simp add: concurrent_check_batch_serial serial_workers_append)
qed

lemma san_cost_loop_max:
  assumes "\<forall>p \<in> set ps. load_times h (dirname p) stage_keys = Inr (T p)"
    and "san_cost_loop h ps m u = Inr r"
  shows "(r = u \<and> (\<forall>p \<in> set ps. sum_list (T p) \<le> m))
       \<or> (r \<in> T ` set ps \<and> m < sum_list r \<and> (\<forall>p \<in> set ps. sum_list (T p) \<le> sum_list r))"
  using assms
proof (induction ps arbitrary: m u)
  case Nil
  then show ?case by simp
next
  case (Cons p ps)
  then have lp: "load_times h (dirname p) stage_keys = Inr (T p)" by simp
  show ?case
  proof (cases "m < sum_list (T p)")
    case True
    with Cons.prems lp have "san_cost_loop h ps (sum_list (T p)) (T p) = Inr r" by simp
    with Cons.IH [of "sum_list (T p)" "T p"] Cons.prems(1) True show ?thesis by force
  next
    case False
    with Cons.prems lp have "san_cost_loop h ps m u = Inr r" by simp
    with Cons.IH [of m u] Cons.prems(1) False show ?thesis by force
  qed
qed

subsection \<open>Cleanup of the work directories\<close>

lemma fs_remove_dir_all_frame:
  "fs_remove_dir_all p m = Inr m' \<Longrightarrow> outside p x \<Longrightarrow> x \<noteq> dirname p \<Longrightarrow> m' x = m x"
  by (auto simp: fs_remove_dir_all_def outside_def remove_tree_def split: option.splits)

lemma cleanup_one:
  assumes "fs_step (cleanup_sanitize_dir d) s = (Inr u, s1)" "names_inv (files s)"
  shows "names_inv (files s1) \<and> (\<forall>x. outside d x \<longrightarrow> files s1 x = files s x)
    \<and> (\<exists>es. files s1 d = Some es \<and> list_all (\<lambda>e. is_retained (ename e)) es)"
proof -
  obtain m1 where m1: "cleanup_sanitize_dir d (files s) = Inr m1" "files s1 = m1"
    using assms(1) by (auto simp: fs_step_def split: sum.splits)
  then obtain es where es: "files s d = Some es"
    by (auto simp: cleanup_sanitize_dir_def read_sort_dir_def split: option.splits)
  have "slash_free es" using names_invD [OF assms(2) es] .
  from cleanup_sanitize_dir_Inr [OF m1(1) es this] m1(2)
    names_inv_cleanup_sanitize_dir [OF m1(1) assms(2)]
  show ?thesis by (auto simp: list_all_iff)
qed

lemma remove_one:
  assumes "fs_step (fs_remove_dir_all d) s = (Inr u, s1)" "names_inv (files s)" "d \<noteq> dirname d"
  shows "names_inv (files s1) \<and> (\<forall>x. outside d x \<and> x \<noteq> dirname d \<longrightarrow> files s1 x = files s x)
    \<and> files s1 d = None"
proof -
  obtain m1 where m1: "fs_remove_dir_all d (files s) = Inr m1" "files s1 = m1"
    using assms(1) by (auto simp: fs_step_def split: sum.splits)
  have "m1 d = None"
    using m1(1) assms(3) by (auto simp: fs_remove_dir_all_def split: option.splits)
  with m1 names_inv_fs_remove_dir_all [OF m1(1) assms(2)] show ?thesis
    by (auto dest: fs_remove_dir_all_frame)
qed


lemma cleanup_verdicts_spec:
  assumes "cleanup_verdicts paths j vs s = (Inr (), s')" "names_inv (files s)"
    and "dirs_apart (map dirname paths)" "j + length vs \<le> length paths"
  shows "names_inv (files s')
    \<and> (\<forall>x. (\<forall>k. j \<le> k \<and> k < j + length vs \<longrightarrow>
               outside (dirname (paths ! k)) x \<and> x \<noteq> dirname (dirname (paths ! k)))
           \<longrightarrow> files s' x = files s x)
    \<and> (\<forall>k. j \<le> k \<and> k < j + length vs \<longrightarrow> dir_cleaned (vs ! (k - j)) (files s') (dirname (paths ! k)))"
  using assms
proof (induction vs arbitrary: j s)
  case Nil
  then show ?case by auto
next
  case (Cons v vs)
  let ?D = "\<lambda>k. dirname (paths ! k)"
  have j: "j < length paths" using Cons.prems(4) by simp
  have apart: "outside (?D k') (?D k)" if "k \<noteq> k'" "k < length paths" "k' < length paths" for k k'
    using Cons.prems(3) that by (auto simp: dirs_apart_def)
  have notpar: "?D k \<noteq> dirname (?D k')" if "k < length paths" "k' < length paths" for k k'
    using Cons.prems(3) that by (auto simp: dirs_apart_def)
  from Cons.prems(1) j obtain u s1 where c: "fs_step (cleanup_sanitize_dir (?D j)) s = (Inr u, s1)"
    and rest: "(if keeps_dir v then cleanup_verdicts paths (Suc j) vs s1
               else bindS (fs_step (fs_remove_dir_all (?D j)) s1) (\<lambda>_ s. cleanup_verdicts paths (Suc j) vs s))
               = (Inr (), s')"
    by (auto simp: Let_def bindS_eq_Inr)
  note c1 = cleanup_one [OF c Cons.prems(2)]
  obtain s2 where s2: "cleanup_verdicts paths (Suc j) vs s2 = (Inr (), s')"
    and s2p: "names_inv (files s2)" "\<forall>x. outside (?D j) x \<and> x \<noteq> dirname (?D j) \<longrightarrow> files s2 x = files s x"
       "dir_cleaned v (files s2) (?D j)"
  proof (cases "keeps_dir v")
    case True
    with rest c1 show ?thesis by (intro that [of s1]) (auto simp: dir_cleaned_def)
  next
    case False
    with rest obtain u2 s2 where r: "fs_step (fs_remove_dir_all (?D j)) s1 = (Inr u2, s2)"
        "cleanup_verdicts paths (Suc j) vs s2 = (Inr (), s')"
      by (auto simp: bindS_eq_Inr)
    note r1 = remove_one [OF r(1) conjunct1 [OF c1] notpar [OF j j]]
    show ?thesis using r(2) r1 c1 False by (intro that [of s2]) (auto simp: dir_cleaned_def)
  qed
  have IH: "names_inv (files s')"
    "\<And>x. (\<forall>k. Suc j \<le> k \<and> k < Suc j + length vs \<longrightarrow> outside (?D k) x \<and> x \<noteq> dirname (?D k))
           \<Longrightarrow> files s' x = files s2 x"
    "\<And>k. Suc j \<le> k \<Longrightarrow> k < Suc j + length vs \<Longrightarrow> dir_cleaned (vs ! (k - Suc j)) (files s') (?D k)"
    using Cons.IH [OF s2 s2p(1) Cons.prems(3)] Cons.prems(4) by auto
  have at_j: "files s' (?D j) = files s2 (?D j)"
  proof (rule IH(2), intro allI impI)
    fix k assume "Suc j \<le> k \<and> k < Suc j + length vs"
    then have k: "k < length paths" "j \<noteq> k" using Cons.prems(4) by auto
    show "outside (?D k) (?D j) \<and> ?D j \<noteq> dirname (?D k)"
      using apart [OF k(2) j k(1)] notpar [OF j k(1)] by simp
  qed
  show ?case
  proof (intro conjI allI impI)
    show "names_inv (files s')" by (rule IH(1))
  next
    fix x
    assume x: "\<forall>k. j \<le> k \<and> k < j + length (v # vs) \<longrightarrow> outside (?D k) x \<and> x \<noteq> dirname (?D k)"
    then have "files s' x = files s2 x" by (intro IH(2)) auto
    also have "\<dots> = files s x" using x s2p(2) by auto
    finally show "files s' x = files s x" .
  next
    fix k
    assume k: "j \<le> k \<and> k < j + length (v # vs)"
    show "dir_cleaned ((v # vs) ! (k - j)) (files s') (?D k)"
    proof (cases "k = j")
      case True
      with at_j s2p(3) show ?thesis by (simp add: dir_cleaned_def)
    next
      case False
      with k IH(3) [of k] show ?thesis by (simp add: Suc_diff_Suc [symmetric] nth_Cons')
    qed
  qed
qed


lemma slash_notin_seed_name [simp]: "CHR ''/'' \<notin> set (seed_name n)"
  by (auto simp: seed_name_def)

lemma dirname_work_seed [simp]: "dirname (work_seed base n) = work_dir base n"
  by (simp add: work_seed_def)

lemma write_programs_Inr:
  "write_programs base ps s = (Inr paths, s') \<Longrightarrow> names_inv (files s) \<Longrightarrow>
     paths = map (\<lambda>p. work_seed base (pid p)) ps \<and> names_inv (files s')"
proof (induction ps arbitrary: s paths)
  case Nil
  then show ?case by simp
next
  case (Cons p ps)
  from Cons.prems(1) obtain m1 m2 rest where
    c: "fs_create_dir (work_dir base (pid p)) (files s) = Inr m1"
    and w: "fs_write (work_seed base (pid p)) m1 = Inr m2"
    and r: "write_programs base ps (s\<lparr>files := m2\<rparr>) = (Inr rest, s')" "paths = work_seed base (pid p) # rest"
    by (auto simp: get_work_seed_by_id_def bindS_eq_Inr fs_step_def split: sum.splits)
  have "names_inv (files (s\<lparr>files := m2\<rparr>))"
    using names_inv_fs_write [OF w] names_inv_fs_create_dir [OF c Cons.prems(2)] by simp
  with Cons.IH [OF r(1)] r(2) show ?case by simp
qed

lemma concurrent_check_batch_names:
  "\<forall>ps t. names_inv (files t) \<longrightarrow> names_inv (files (snd (run_batch h ps t))) \<Longrightarrow>
   names_inv (files s) \<Longrightarrow> names_inv (files (snd (concurrent_check_batch h b core s)))"
  by (auto simp: concurrent_check_batch_def Let_def split: prod.split) (metis snd_conv)

lemma cc_loop_names:
  "\<forall>ps t. names_inv (files t) \<longrightarrow> names_inv (files (snd (run_batch h ps t))) \<Longrightarrow>
   names_inv (files s) \<Longrightarrow> names_inv (files (snd (cc_loop h core n i ps batch acc s)))"
proof (induction h core n i ps batch acc s rule: cc_loop.induct)
  case (1 h core n i batch acc s)
  then show ?case by simp
next
  case (2 h core n i p ps batch acc s)
  obtain r t where b: "concurrent_check_batch h (batch @ [p]) core s = (r, t)" by fastforce
  have t: "names_inv (files t)"
    using concurrent_check_batch_names [OF "2.prems", of "batch @ [p]" core] b by simp
  show ?case
    using "2.IH" "2.prems" b t by (cases r) (auto simp: Let_def)
qed

lemma work_dirs_apart: "distinct ns \<Longrightarrow> dirs_apart (map (work_dir base) ns)"
  by (auto simp: dirs_apart_def work_dir_def outside_def nth_eq_iff_index_eq child_not_below_child)

subsection \<open>Properties of the supervisor\<close>

text \<open>
  C4: The cleanup policy of the spec (section 8): after \<^verbatim>\<open>check_programs_are_correct\<close>
  returns, there is one verdict per candidate, the work directory of a candidate whose verdict
  is not accepted, \<^verbatim>\<open>Hang\<close> or \<^verbatim>\<open>Fuzzer\<close> no longer exists, and the work
  directory of every other candidate exists and holds only files with a retained extension.
  This holds whatever the workers do to the disk, provided they leave entry names free of
  the separator, and needs the candidates' ids to be distinct.
\<close>

theorem check_programs_cleanup:
  assumes run: "check_programs_are_correct h core base progs s = (Inr res, s')"
    and ids: "distinct (map pid progs)" and inv: "names_inv (files s)"
    and workers: "\<forall>ps t. names_inv (files t) \<longrightarrow> names_inv (files (snd (run_batch h ps t)))"
  shows "length res = length progs
    \<and> (\<forall>i < length progs. dir_cleaned (res ! i) (files s') (work_dir base (pid (progs ! i))))"
proof -
  from run obtain paths s1 s2 u where
    w: "write_programs base progs s = (Inr paths, s1)"
    and cc: "concurrent_check h paths core s1 = (Inr res, s2)"
    and cl: "cleanup_verdicts paths 0 res s2 = (Inr (), s')"
    by (auto simp: check_programs_are_correct_def bindS_eq_Inr bindR_eq_Inr)
  note w1 = write_programs_Inr [OF w inv]
  have len: "length res = length paths"
  proof (cases "core = 0")
    case True
    with cc show ?thesis by (cases paths) (simp_all add: concurrent_check_def)
  next
    case False
    with cc have "run_batches h core (chunks core paths) s1 = (Inr res, s2)"
      by (simp add: concurrent_check_chunks)
    moreover have "\<forall>b \<in> set (chunks core paths). length b \<le> core"
      using chunks_bounded by blast
    ultimately show ?thesis
      using run_batches_length False by (fastforce simp: concat_chunks)
  qed
  have inv2: "names_inv (files s2)"
    using cc_loop_names [OF workers, of s1 core "length paths" 0 paths "[]" "[]"] w1 cc
    by (simp add: concurrent_check_def)
  have dirs: "map dirname paths = map (work_dir base) (map pid progs)"
    using w1 by simp
  have "dirs_apart (map dirname paths)"
    unfolding dirs by (rule work_dirs_apart [OF ids])
  from cleanup_verdicts_spec [OF cl inv2 this] len w1 show ?thesis
    by simp
qed


theorem check_programs_cleanup_witness:
  "check_programs_are_correct example_host 1 ''w'' [\<lparr>pid = 7, code = ''int x;''\<rparr>] example_batch_state
     = (Inr [None], snd (check_programs_are_correct example_host 1 ''w'' [\<lparr>pid = 7, code = ''int x;''\<rparr>]
                            example_batch_state))
   \<and> dir_cleaned None (files (snd (check_programs_are_correct example_host 1 ''w''
                                     [\<lparr>pid = 7, code = ''int x;''\<rparr>] example_batch_state))) ''w/7''"
proof -
  let ?r = "check_programs_are_correct example_host 1 ''w'' [\<lparr>pid = 7, code = ''int x;''\<rparr>] example_batch_state"
  have "fst ?r = Inr [None]"
    by (simp add: check_programs_are_correct_def example_host_def example_batch_state_def
        get_work_seed_by_id_def work_seed_def work_dir_def seed_name_def digit_char_def
        concurrent_check_def concurrent_check_batch_def worker_verdict_def print_san_cost_def
        stage_keys_def cleanup_sanitize_dir_def is_retained_def retained_exts_def
        path_extension_def keeps_dir_def path_eval fs_eval numeral_eq_Suc)
  then have eq: "?r = (Inr [None], snd ?r)" by (metis prod.collapse)
  have inv: "names_inv (files example_batch_state)"
    by (auto simp: names_inv_def slash_free_def example_batch_state_def)
  have workers: "\<forall>ps t. names_inv (files t) \<longrightarrow> names_inv (files (snd (run_batch example_host ps t)))"
    by (simp add: example_host_def)
  from check_programs_cleanup [OF eq _ inv workers] eq
  show ?thesis by (simp add: work_dir_def digit_char_def child_def)
qed

text \<open>
  C5: With workers that run one after the other, \<^verbatim>\<open>concurrent_check\<close> reports, in input
  order, for each program the verdict \<^verbatim>\<open>check_program_is_correct\<close> returns for it; a
  worker that fails with an error or a panic is reported as a fuzzer error carrying its
  stderr. The batching, the JSON encoding and decoding of verdicts and the indexing of the
  workers' outputs lose nothing.
\<close>

theorem concurrent_check_serial:
  assumes "0 < core"
  shows "concurrent_check (serial_host tc lt) ps core s =
           (case serial_workers tc ps s of (rs, s') \<Rightarrow> (Inr (map worker_outcome rs), s'))"
proof -
  have "\<forall>b \<in> set (chunks core ps). length b \<le> core"
    using chunks_bounded by blast
  with assms show ?thesis
    by (simp add: concurrent_check_chunks run_batches_serial concat_chunks)
qed

theorem concurrent_check_serial_witness:
  "0 < (1::nat) \<and>
   concurrent_check (serial_host example_toolchain (\<lambda>_ _. Inr 1)) [''w/p.cc''] 1 example_state =
     (case serial_workers example_toolchain [''w/p.cc''] example_state of
        (rs, s') \<Rightarrow> (Inr (map worker_outcome rs), s'))"
  using concurrent_check_serial [of 1 example_toolchain "\<lambda>_ _. Inr 1" "[''w/p.cc'']" example_state]
  by simp

text \<open>
  C14: \<^verbatim>\<open>concurrent_check\<close> returns exactly one verdict per program (spec, section 8),
  for every number of cores.
\<close>

theorem concurrent_check_length:
  assumes "concurrent_check h ps core s = (Inr vs, s')"
  shows "length vs = length ps"
proof (cases "core = 0")
  case True
  show ?thesis
  proof (cases "ps = []")
    case True
    with assms show ?thesis by (simp add: concurrent_check_def)
  next
    case False
    with assms \<open>core = 0\<close> show ?thesis
      by (cases ps) (simp_all add: concurrent_check_def Let_def)
  qed
next
  case False
  with assms have run: "run_batches h core (chunks core ps) s = (Inr vs, s')"
    by (simp add: concurrent_check_chunks)
  have "\<forall>b \<in> set (chunks core ps). length b \<le> core"
    using chunks_bounded by blast
  from run_batches_length [OF run this] False show ?thesis
    by (simp add: concat_chunks)
qed

theorem concurrent_check_length_witness:
  "concurrent_check example_host [''w/a.cc'', ''w/b.cc''] 1 example_batch_state
     = (Inr [None, None], example_batch_state)
   \<and> length [None, None :: verdict] = length [''w/a.cc'', ''w/b.cc'']"
proof -
  have eq: "concurrent_check example_host [''w/a.cc'', ''w/b.cc''] 1 example_batch_state
     = (Inr [None, None], example_batch_state)"
    by (simp add: concurrent_check_def concurrent_check_batch_def example_host_def worker_verdict_def)
  from concurrent_check_length [OF eq] eq show ?thesis by simp
qed

text \<open>
  C18: With zero cores (\<^verbatim>\<open>--cores 0\<close> on the command line) \<^verbatim>\<open>concurrent_check\<close>
  panics on the remainder by zero before checking any program.
\<close>

theorem concurrent_check_zero_cores:
  "ps \<noteq> [] \<Longrightarrow> concurrent_check h ps 0 s =
     (Inl (Panic ''attempt to calculate the remainder with a divisor of zero''), s)"
  by (cases ps) (simp_all add: concurrent_check_def Let_def)


theorem concurrent_check_zero_cores_witness:
  "[''w/a.cc''] \<noteq> [] \<and> concurrent_check example_host [''w/a.cc''] 0 example_batch_state =
     (Inl (Panic ''attempt to calculate the remainder with a divisor of zero''), example_batch_state)"
  using concurrent_check_zero_cores [of "[''w/a.cc'']" example_host example_batch_state] by simp

text \<open>
  C15: The supervisor decodes a worker's verdict from its stderr: a worker exiting with the
  JSON encoding of an error, followed by any JSON whitespace such as the newline of
  \<^verbatim>\<open>eprintln!\<close>, is reported with exactly that error.
\<close>

theorem worker_verdict_decodes:
  "list_all json_ws ws \<Longrightarrow> worker_verdict (False, encode_error e @ ws) = Some e"
  by (simp add: worker_verdict_def decode_encode_error)

theorem worker_verdict_decodes_witness:
  "list_all json_ws [CHR 0x0A] \<and>
   worker_verdict (False, encode_error (Hang ''timeout'') @ [CHR 0x0A]) = Some (Hang ''timeout'')"
  using worker_verdict_decodes [of "[CHR 0x0A]" "Hang ''timeout''"] by (simp add: json_ws_def)

text \<open>
  C16: When every cost file can be read, \<^verbatim>\<open>print_san_cost\<close> reports the stage times of
  a program of the batch whose total is the largest, and that total is positive.
\<close>

theorem print_san_cost_max:
  assumes "\<forall>p \<in> set ps. load_times h (dirname p) stage_keys = Inr (T p)"
    and "print_san_cost h ps = Inr r"
  shows "r \<in> T ` set ps \<and> 0 < sum_list r \<and> (\<forall>p \<in> set ps. sum_list (T p) \<le> sum_list r)"
proof -
  from assms(2) obtain u where u: "san_cost_loop h ps 0 [] = Inr u" "u \<noteq> []" "r = u"
    by (auto simp: print_san_cost_def bindR_eq_Inr split: if_splits)
  from san_cost_loop_max [OF assms(1) u(1)] u(2,3) show ?thesis by auto
qed

theorem print_san_cost_max_witness:
  "load_times example_host (dirname ''w/7/id.cc'') stage_keys = Inr [1, 1, 1, 1, 1, 1]
   \<and> print_san_cost example_host [''w/7/id.cc''] = Inr [1, 1, 1, 1, 1, 1]
   \<and> 0 < sum_list [1, 1, 1, 1, 1, 1 :: real]"
proof -
  have l: "\<forall>p \<in> set [''w/7/id.cc'']. load_times example_host (dirname p) stage_keys = Inr [1, 1, 1, 1, 1, 1]"
    by (simp add: example_host_def stage_keys_def)
  have p: "print_san_cost example_host [''w/7/id.cc''] = Inr [1, 1, 1, 1, 1, 1]"
    by (simp add: print_san_cost_def example_host_def stage_keys_def)
  from print_san_cost_max [where T = "\<lambda>_. [1, 1, 1, 1, 1, 1]", OF l p] l p show ?thesis by simp
qed

text \<open>
  C17: \<^verbatim>\<open>print_san_cost\<close> panics on \<^verbatim>\<open>usage[0]\<close> when no program of the batch has a
  positive total time, in particular on an empty batch, so that
  \<^verbatim>\<open>check_programs_are_correct\<close> panics when the model returned no candidate.
\<close>

theorem print_san_cost_panics:
  assumes "\<forall>p \<in> set ps. load_times h (dirname p) stage_keys = Inr (T p) \<and> sum_list (T p) \<le> 0"
  shows "print_san_cost h ps = Inl (Panic ''index out of bounds: the len is 0 but the index is 0'')"
proof -
  have "\<forall>p \<in> set ps. load_times h (dirname p) stage_keys = Inr (T p)" using assms by simp
  moreover have "san_cost_loop h ps 0 [] = Inr []"
    using assms by (induction ps) auto
  ultimately show ?thesis by (simp add: print_san_cost_def)
qed


theorem print_san_cost_panics_witness:
  "load_times (example_host\<lparr>load_time := \<lambda>_ _. Inr 0\<rparr>) (dirname ''w/7/id.cc'') stage_keys
        = Inr [0, 0, 0, 0, 0, 0] \<and> sum_list [0, 0, 0, 0, 0, 0 :: real] \<le> 0
   \<and> print_san_cost (example_host\<lparr>load_time := \<lambda>_ _. Inr 0\<rparr>) [''w/7/id.cc'']
       = Inl (Panic ''index out of bounds: the len is 0 but the index is 0'')"
proof -
  have l: "\<forall>p \<in> set [''w/7/id.cc'']. load_times (example_host\<lparr>load_time := \<lambda>_ _. Inr 0\<rparr>) (dirname p) stage_keys
        = Inr [0, 0, 0, 0, 0, 0] \<and> sum_list [0, 0, 0, 0, 0, 0 :: real] \<le> 0"
    by (simp add: example_host_def stage_keys_def)
  from print_san_cost_panics [where T = "\<lambda>_. [0, 0, 0, 0, 0, 0]", OF l] l show ?thesis by simp
qed

end
