(* ===== verification/OpenAI.thy ===== *)
theory OpenAI
  imports Supervisor "HOL-Library.Word"
begin

subsection \<open>Stripping the code fence of a completion\<close>

text \<open>
  The string functions of the standard library that \<^verbatim>\<open>strip_code_wrapper\<close> uses, on
  byte strings (a \<^verbatim>\<open>&str\<close> is its UTF-8 bytes): \<^verbatim>\<open>starts_with\<close>,
  \<^verbatim>\<open>str::trim\<close>, and \<^verbatim>\<open>find\<close> and \<^verbatim>\<open>rfind\<close> (the first and the last
  byte index of a pattern). \<^verbatim>\<open>str::trim\<close> removes the characters with Unicode's
  \<open>White_Space\<close> property (\<^verbatim>\<open>char::is_whitespace\<close>) from both ends: the UTF-8
  encodings of U+0009--U+000D, U+0020, U+0085, U+00A0, U+1680, U+2000--U+200A, U+2028,
  U+2029, U+202F, U+205F and U+3000.
\<close>

definition starts_with :: "string \<Rightarrow> string \<Rightarrow> bool" where
  "starts_with p s \<longleftrightarrow> take (length p) s = p"

definition ends_with :: "string \<Rightarrow> string \<Rightarrow> bool" where
  "ends_with p s \<longleftrightarrow> length p \<le> length s \<and> drop (length s - length p) s = p"

definition utf8_white_space :: "string list" where
  "utf8_white_space =
     [[CHR 0x09], [CHR 0x0A], [CHR 0x0B], [CHR 0x0C], [CHR 0x0D], [CHR 0x20], [CHR 0xC2, CHR 0x85],
      [CHR 0xC2, CHR 0xA0], [CHR 0xE1, CHR 0x9A, CHR 0x80], [CHR 0xE2, CHR 0x80, CHR 0x80],
      [CHR 0xE2, CHR 0x80, CHR 0x81], [CHR 0xE2, CHR 0x80, CHR 0x82],
      [CHR 0xE2, CHR 0x80, CHR 0x83], [CHR 0xE2, CHR 0x80, CHR 0x84],
      [CHR 0xE2, CHR 0x80, CHR 0x85], [CHR 0xE2, CHR 0x80, CHR 0x86],
      [CHR 0xE2, CHR 0x80, CHR 0x87], [CHR 0xE2, CHR 0x80, CHR 0x88],
      [CHR 0xE2, CHR 0x80, CHR 0x89], [CHR 0xE2, CHR 0x80, CHR 0x8A],
      [CHR 0xE2, CHR 0x80, CHR 0xA8], [CHR 0xE2, CHR 0x80, CHR 0xA9],
      [CHR 0xE2, CHR 0x80, CHR 0xAF], [CHR 0xE2, CHR 0x81, CHR 0x9F],
      [CHR 0xE3, CHR 0x80, CHR 0x80]]"

function trim_start :: "string \<Rightarrow> string" where
  "trim_start s =
     (case find (\<lambda>w. starts_with w s) utf8_white_space of
        Some w \<Rightarrow> trim_start (drop (length w) s)
      | None \<Rightarrow> s)"
  by pat_completeness auto
termination
proof (relation "measure length")
  fix s w
  assume "find (\<lambda>w. starts_with w s) utf8_white_space = Some w"
  then have "w \<in> set utf8_white_space" "starts_with w s"
    by (auto simp: find_Some_iff)
  then show "(drop (length w) s, s) \<in> measure length"
    by (cases s) (auto simp: utf8_white_space_def starts_with_def)
qed simp

function trim_end :: "string \<Rightarrow> string" where
  "trim_end s =
     (case find (\<lambda>w. ends_with w s) utf8_white_space of
        Some w \<Rightarrow> trim_end (take (length s - length w) s)
      | None \<Rightarrow> s)"
  by pat_completeness auto
termination
proof (relation "measure length")
  fix s w
  assume "find (\<lambda>w. ends_with w s) utf8_white_space = Some w"
  then have "w \<in> set utf8_white_space" "ends_with w s"
    by (auto simp: find_Some_iff)
  then show "(take (length s - length w) s, s) \<in> measure length"
    by (auto simp: utf8_white_space_def ends_with_def)
qed simp

declare trim_start.simps [simp del] trim_end.simps [simp del]

definition rust_trim :: "string \<Rightarrow> string" where
  "rust_trim s = trim_end (trim_start s)"

fun find_from :: "string \<Rightarrow> string \<Rightarrow> nat \<Rightarrow> nat option" where
  "find_from p [] i = (if p = [] then Some i else None)"
| "find_from p (c # cs) i = (if starts_with p (c # cs) then Some i else find_from p cs (Suc i))"

fun rfind_from :: "string \<Rightarrow> string \<Rightarrow> nat \<Rightarrow> nat option" where
  "rfind_from p [] i = (if p = [] then Some i else None)"
| "rfind_from p (c # cs) i =
     (case rfind_from p cs (Suc i) of
        Some j \<Rightarrow> Some j
      | None \<Rightarrow> if starts_with p (c # cs) then Some i else None)"

definition find_sub :: "string \<Rightarrow> string \<Rightarrow> nat option" where
  "find_sub p s = find_from p s 0"

definition rfind_sub :: "string \<Rightarrow> string \<Rightarrow> nat option" where
  "rfind_sub p s = rfind_from p s 0"

definition fence :: string where
  "fence = ''```''"

text \<open>Lines 324--332.\<close>

definition strip_code_prefix :: "string \<Rightarrow> string \<Rightarrow> string" where
  "strip_code_prefix input pat =
     (let pat = fence @ pat in if starts_with pat input then drop (length pat) input else input)"

text \<open>Lines 334--355: the explanation before the first fence becomes a C comment.\<close>

definition strip_code_wrapper :: "string \<Rightarrow> string" where
  "strip_code_wrapper inp =
     (let input = rust_trim inp;
          (event, input) = (case find_sub fence input of
                              Some idx \<Rightarrow> (take idx input, drop idx input)
                            | None \<Rightarrow> ([], input));
          input = fold (\<lambda>pat input. strip_code_prefix input pat)
                    [''cpp'', ''CPP'', ''C++'', ''c++'', ''c'', ''C'', [CHR 0x0A]] input
      in case rfind_sub fence input of
           Some idx \<Rightarrow> ''/*'' @ event @ ''*/'' @ [CHR 0x0A] @ take idx input
         | None \<Rightarrow> ''/*'' @ event @ ''*/'' @ [CHR 0x0A] @ input)"

subsection \<open>Billing\<close>

text \<open>
  The process-wide counters of \<^verbatim>\<open>openai_billing\<close> (lines 107--109) and the usage file
  \<^verbatim>\<open>misc/openai_usage\<close>. Token counts are \<^verbatim>\<open>u32\<close>; \<^verbatim>\<open>+=\<close> panics on
  overflow, as in the debug builds the supervisor spawns (\<^verbatim>\<open>cargo run\<close> without
  \<^verbatim>\<open>--release\<close>, line 204). The quota is a real number (its \<^verbatim>\<open>f32\<close> rounding is
  not modelled); its decimal text and parsing are the functions \<open>show_f32\<close> and
  \<open>parse_f32\<close> of the environment. \<open>usage_path\<close> is the outcome of
  \<^verbatim>\<open>get_usage_log_path\<close> (an error, or a panic when the configuration is unset),
  \<open>write_usage\<close> the error of writing the file, and \<open>input_price\<close>,
  \<open>output_price\<close> the results of \<^verbatim>\<open>get_openai_input_price\<close> and
  \<^verbatim>\<open>get_openai_output_price\<close>, which panic when the OpenAI environment is unset
  (theory \<open>Handler\<close> builds them from the globals of \<open>Config\<close>).
\<close>

record billing =
  prompt_usage :: "32 word"
  completion_usage :: "32 word"
  quota_cost :: real
  usage_log :: "string option"

record usage_env =
  usage_path :: "unit result"
  write_usage :: "string \<Rightarrow> string option"
  show_f32 :: "real \<Rightarrow> string"
  parse_f32 :: "string \<Rightarrow> real option"
  input_price :: "real option result"
  output_price :: "real option result"

record token_usage =
  prompt_tokens :: "32 word"
  completion_tokens :: "32 word"

record chat_response =
  usage :: "token_usage option"
  choices :: "string list"

definition u32_add :: "32 word \<Rightarrow> 32 word \<Rightarrow> 32 word result" where
  "u32_add a b = (if unat a + unat b < 2 ^ 32 then Inr (a + b) else Inl (Panic ''attempt to add with overflow''))"

definition word_string :: "32 word \<Rightarrow> string" where
  "word_string w = nat_string (unat w)"

text \<open>\<^verbatim>\<open>u32::from_str\<close>: an optional plus sign, then at least one digit, below \<open>2^32\<close>.\<close>

definition parse_u32 :: "string \<Rightarrow> 32 word option" where
  "parse_u32 s =
     (let t = (case s of c # r \<Rightarrow> if c = CHR ''+'' then r else s | [] \<Rightarrow> s)
      in case parse_nat t of Some n \<Rightarrow> if n < 2 ^ 32 then Some (word_of_nat n) else None | None \<Rightarrow> None)"

text \<open>\<^verbatim>\<open>str::split(' ')\<close>.\<close>

fun split_on :: "char \<Rightarrow> string \<Rightarrow> string list" where
  "split_on c [] = [[]]"
| "split_on c (x # xs) = (if x = c then [] # split_on c xs
                          else (case split_on c xs of w # ws \<Rightarrow> (x # w) # ws | [] \<Rightarrow> [[x]]))"

text \<open>Lines 172--191.\<close>

definition count_billing :: "usage_env \<Rightarrow> 32 word \<Rightarrow> 32 word \<Rightarrow> billing \<Rightarrow> billing result" where
  "count_billing env p c b =
     bindR (input_price env) (\<lambda>input_price.
     bindR (output_price env) (\<lambda>output_price.
       case (input_price, output_price) of
         (Some ip, Some op) \<Rightarrow>
           Inr (b\<lparr>quota_cost := quota_cost b + (ip * real (unat p) + op * real (unat c)) / 1000\<rparr>)
       | _ \<Rightarrow> Inr b))"

definition usage_content :: "usage_env \<Rightarrow> billing \<Rightarrow> string" where
  "usage_content env b =
     word_string (prompt_usage b) @ '' '' @ word_string (completion_usage b) @ '' '' @ show_f32 env (quota_cost b)"

text \<open>Lines 146--170.\<close>

definition log_openai_usage :: "usage_env \<Rightarrow> chat_response \<Rightarrow> billing \<Rightarrow> (unit, billing) outcome" where
  "log_openai_usage env r b =
     (case usage r of
        None \<Rightarrow> (Inr (), b)
      | Some u \<Rightarrow>
          bindS (usage_path env, b) (\<lambda>_ b.
          bindS (u32_add (prompt_usage b) (prompt_tokens u), b) (\<lambda>pu b.
          let b = b\<lparr>prompt_usage := pu\<rparr>
          in bindS (u32_add (completion_usage b) (completion_tokens u), b) (\<lambda>cu b.
             let b = b\<lparr>completion_usage := cu\<rparr>
             in bindS (count_billing env (prompt_tokens u) (completion_tokens u) b, b) (\<lambda>b _.
                let content = usage_content env b
                in case write_usage env content of
                     Some e \<Rightarrow> (Inl (Error e), b)
                   | None \<Rightarrow> (Inr (), b\<lparr>usage_log := Some content\<rparr>))))))"

text \<open>Lines 130--144: the counters are restored from the usage file when it exists.\<close>

definition parse_usage :: "usage_env \<Rightarrow> string \<Rightarrow> (32 word \<times> 32 word \<times> real) result" where
  "parse_usage env content =
     (let parts = split_on CHR '' '' content
      in if length parts \<noteq> 3 then Inl (Panic ''assertion `left == right` failed'')
         else case parse_u32 (parts ! 0) of
                None \<Rightarrow> Inl (Error ''invalid digit found in string'')
              | Some p \<Rightarrow> (case parse_u32 (parts ! 1) of
                  None \<Rightarrow> Inl (Error ''invalid digit found in string'')
                | Some c \<Rightarrow> (case parse_f32 env (parts ! 2) of
                    None \<Rightarrow> Inl (Error ''invalid float literal'')
                  | Some q \<Rightarrow> Inr (p, c, q))))"

definition load_openai_usage :: "usage_env \<Rightarrow> billing \<Rightarrow> billing result" where
  "load_openai_usage env b =
     bindR (usage_path env) (\<lambda>_.
       case usage_log b of
         None \<Rightarrow> Inr b
       | Some content \<Rightarrow> bindR (parse_usage env content) (\<lambda>(p, c, q).
           Inr (b\<lparr>prompt_usage := p, completion_usage := c, quota_cost := q\<rparr>)))"

subsection \<open>Requests with retries\<close>

text \<open>
  \<^verbatim>\<open>is_critical_err\<close> (not in the sources) classifies a response; the \<open>k\<close>-th
  request's response is \<open>respond k\<close>, an error message or a response.
\<close>

datatype critical = Normal | NonCritical | Critical

definition RETRY_N :: "8 word" where
  "RETRY_N = 5"

text \<open>
  Lines 198--210 and 238--256: the loop \<^verbatim>\<open>for _retry in 0..RETRY_N\<close>; \<open>on_ok\<close> is
  what a normal response goes through (\<^verbatim>\<open>log_openai_usage\<close> for a chat, nothing for
  a completion). On a critical classification, \<^verbatim>\<open>response.err().unwrap()\<close> panics
  when the response is not an error.
\<close>

fun retry_loop :: "('r \<Rightarrow> 's \<Rightarrow> (unit, 's) outcome) \<Rightarrow> (string + 'r \<Rightarrow> critical) \<Rightarrow> (nat \<Rightarrow> string + 'r)
                     \<Rightarrow> nat list \<Rightarrow> 's \<Rightarrow> ('r, 's) outcome" where
  "retry_loop on_ok cl respond [] b = (Inl (Error ''RetryError''), b)"
| "retry_loop on_ok cl respond (k # ks) b =
     (let r = respond k
      in case cl r of
           Normal \<Rightarrow> (case r of Inl e \<Rightarrow> (Inl (Error e), b) | Inr x \<Rightarrow> bindS (on_ok x b) (\<lambda>_ b. (Inr x, b)))
         | NonCritical \<Rightarrow> retry_loop on_ok cl respond ks b
         | Critical \<Rightarrow> (case r of
                          Inl e \<Rightarrow> (Inl (Error e), b)
                        | Inr _ \<Rightarrow> (Inl (Panic ''called `Option::unwrap()` on a `None` value''), b)))"

definition get_chat_response :: "usage_env \<Rightarrow> (string + chat_response \<Rightarrow> critical)
                                   \<Rightarrow> (nat \<Rightarrow> string + chat_response) \<Rightarrow> billing \<Rightarrow> (chat_response, billing) outcome" where
  "get_chat_response env cl respond b = retry_loop (log_openai_usage env) cl respond [0..<unat RETRY_N] b"

definition get_complete_response :: "(string + 'r \<Rightarrow> critical) \<Rightarrow> (nat \<Rightarrow> string + 'r) \<Rightarrow> 's
                                       \<Rightarrow> ('r, 's) outcome" where
  "get_complete_response cl respond b = retry_loop (\<lambda>_ b. (Inr (), b)) cl respond [0..<unat RETRY_N] b"

text \<open>Lines 277--289: given the responses to the request, each choice's content without its code fence.\<close>

definition generate_programs_by_chat :: "usage_env \<Rightarrow> (string + chat_response \<Rightarrow> critical)
    \<Rightarrow> (nat \<Rightarrow> string + chat_response) \<Rightarrow> billing \<Rightarrow> (string list, billing) outcome" where
  "generate_programs_by_chat env cl respond b =
     bindS (get_chat_response env cl respond b) (\<lambda>resp b. (Inr (map strip_code_wrapper (choices resp)), b))"

text \<open>\<^verbatim>\<open>str::is_char_boundary\<close>: byte \<open>i\<close> starts a character (it is not a UTF-8
  continuation byte \<^verbatim>\<open>0x80\<close>--\<^verbatim>\<open>0xBF\<close>), or is the end of the string.\<close>

definition is_char_boundary :: "string \<Rightarrow> nat \<Rightarrow> bool" where
  "is_char_boundary s i \<longleftrightarrow>
     i = 0 \<or> i = length s \<or> (i < length s \<and> \<not> (0x80 \<le> (of_char (s ! i) :: nat) \<and> (of_char (s ! i) :: nat) < 0xC0))"

text \<open>Lines 64--73: the stop sequence of an infill prompt is \<^verbatim>\<open>suffix[..10]\<close>, which
  panics when the suffix is shorter than ten bytes or byte 10 is inside a character (the
  panic message of the second case is abbreviated).\<close>

definition infill_stop :: "(string \<times> string) option \<Rightarrow> string option result" where
  "infill_stop kind =
     (case kind of
        None \<Rightarrow> Inr None
      | Some (_, suffix) \<Rightarrow>
          if length suffix < 10
          then Inl (Panic (''byte index 10 is out of range of `'' @ suffix @ ''`''))
          else if \<not> is_char_boundary suffix 10
          then Inl (Panic (''byte index 10 is not a char boundary of `'' @ suffix @ ''`''))
          else Inr (Some (take 10 suffix)))"

subsection \<open>Examples\<close>

definition example_env :: usage_env where
  "example_env =
     \<lparr>usage_path = Inr (), write_usage = \<lambda>_. None,
      show_f32 = \<lambda>q. if q = 0 then ''0'' else ''1'',
      parse_f32 = \<lambda>s. if s = ''0'' then Some 0 else if s = ''1'' then Some 1 else None,
      input_price = Inr None, output_price = Inr None\<rparr>"

definition example_response :: chat_response where
  "example_response =
     \<lparr>usage = Some \<lparr>prompt_tokens = 3, completion_tokens = 4\<rparr>,
      choices = [''```cpp'' @ [CHR 0x0A] @ ''int main() {}'' @ [CHR 0x0A] @ ''```'']\<rparr>"

definition example_billing :: billing where
  "example_billing = \<lparr>prompt_usage = 10, completion_usage = 20, quota_cost = 0, usage_log = None\<rparr>"

definition example_classify :: "string + chat_response \<Rightarrow> critical" where
  "example_classify r = (case r of Inl _ \<Rightarrow> NonCritical | Inr _ \<Rightarrow> Normal)"

definition example_respond :: "nat \<Rightarrow> string + chat_response" where
  "example_respond k = (if k = 0 then Inl ''timed out'' else Inr example_response)"

lemma find_from_before_fence:
  "CHR ''`'' \<notin> set ev \<Longrightarrow> find_from fence (ev @ fence @ r) i = Some (i + length ev)"
  by (induction ev arbitrary: i) (auto simp: starts_with_def fence_def)

lemma find_from_no_tick:
  "CHR ''`'' \<notin> set s \<Longrightarrow> find_from fence s i = None"
  by (induction s arbitrary: i) (auto simp: starts_with_def fence_def)

lemma rfind_from_no_tick:
  "CHR ''`'' \<notin> set s \<Longrightarrow> rfind_from fence s i = None"
  by (induction s arbitrary: i) (auto simp: starts_with_def fence_def)

lemma rfind_from_last_fence:
  assumes "CHR ''`'' \<notin> set tail"
  shows "rfind_from fence (body @ fence @ tail) i = Some (i + length body)"
proof (induction body arbitrary: i)
  case Nil
  have t: "rfind_from fence tail j = None" for j using assms by (rule rfind_from_no_tick)
  have "\<not> starts_with fence (CHR ''`'' # tail)"
    using assms by (cases tail) (auto simp: starts_with_def fence_def)
  moreover have "\<not> starts_with fence (CHR ''`'' # CHR ''`'' # tail)"
    using assms by (cases tail) (auto simp: starts_with_def fence_def)
  moreover have "starts_with fence (fence @ tail)" by (simp add: starts_with_def)
  ultimately show ?case using t by (simp add: fence_def)
next
  case (Cons c body)
  then show ?case by simp
qed

lemma strip_code_prefix_other:
  "CHR ''`'' \<notin> set (take 1 s) \<Longrightarrow> strip_code_prefix s pat = s"
  by (cases s) (auto simp: strip_code_prefix_def starts_with_def fence_def Let_def)

lemma strip_code_prefix_match: "strip_code_prefix (fence @ pat @ r) pat = r"
  by (simp add: strip_code_prefix_def starts_with_def)

lemma find_from_le:
  "starts_with p (drop k s) \<Longrightarrow> k \<le> length s \<Longrightarrow> \<exists>j \<le> i + k. find_from p s i = Some j"
proof (induction s arbitrary: i k)
  case Nil
  then show ?case by (simp add: starts_with_def)
next
  case (Cons c s)
  show ?case
  proof (cases k)
    case 0
    with Cons.prems show ?thesis by simp
  next
    case (Suc k')
    with Cons.prems have "\<exists>j \<le> Suc i + k'. find_from p s (Suc i) = Some j"
      by (intro Cons.IH) simp_all
    with Suc show ?thesis by auto
  qed
qed

text \<open>When the trimmed completion is an explanation without backticks, a fence tagged
  \<^verbatim>\<open>cpp\<close>, a body and a closing fence followed by no backtick, the program is the
  explanation as a C comment, a newline, and the body.\<close>

theorem strip_code_wrapper_fenced:
  assumes "rust_trim inp = ev @ fence @ ''cpp'' @ body @ fence @ tail"
    and "CHR ''`'' \<notin> set ev" "CHR ''`'' \<notin> set tail" "body \<noteq> []" "hd body \<noteq> CHR ''`''"
  shows "strip_code_wrapper inp = ''/*'' @ ev @ ''*/'' @ [CHR 0x0A] @ body"
proof -
  have f: "find_sub fence (rust_trim inp) = Some (length ev)"
    using find_from_before_fence [OF assms(2), of "''cpp'' @ body @ fence @ tail" 0] assms(1)
    by (simp add: find_sub_def)
  have t1: "CHR ''`'' \<notin> set (take 1 (body @ fence @ tail))"
    using assms(4,5) by (cases body) simp_all
  have r: "rfind_sub fence (body @ fence @ tail) = Some (length body)"
    using rfind_from_last_fence [OF assms(3), of body 0] by (simp add: rfind_sub_def)
  have d: "take (length ev) (rust_trim inp) = ev"
      "drop (length ev) (rust_trim inp) = fence @ ''cpp'' @ body @ fence @ tail"
    using assms(1) by simp_all
  have other: "strip_code_prefix (body @ fence @ tail) pat = body @ fence @ tail" for pat
    using t1 by (rule strip_code_prefix_other)
  have fo: "fold (\<lambda>pat input. strip_code_prefix input pat) [''cpp'', ''CPP'', ''C++'', ''c++'', ''c'', ''C'', [CHR 0x0A]]
              (fence @ ''cpp'' @ body @ fence @ tail) = body @ fence @ tail"
    by (simp only: fold_Cons fold_Nil comp_apply id_apply strip_code_prefix_match other)
  show ?thesis
    unfolding strip_code_wrapper_def Let_def
    by (simp only: f option.case prod.case d fo r) simp
qed

theorem strip_code_wrapper_fenced_witness:
  "strip_code_wrapper (''Sure:'' @ [CHR 0x0A] @ ''```cpp'' @ [CHR 0x0A] @ ''int main() {}'' @ [CHR 0x0A] @ ''```'')
     = ''/*Sure:'' @ [CHR 0x0A] @ ''*/'' @ [CHR 0x0A] @ [CHR 0x0A] @ ''int main() {}'' @ [CHR 0x0A]"
proof -
  have "rust_trim (''Sure:'' @ [CHR 0x0A] @ ''```cpp'' @ [CHR 0x0A] @ ''int main() {}'' @ [CHR 0x0A] @ ''```'')
      = (''Sure:'' @ [CHR 0x0A]) @ fence @ ''cpp'' @ ([CHR 0x0A] @ ''int main() {}'' @ [CHR 0x0A]) @ fence @ []"
    by (simp add: rust_trim_def trim_start.simps trim_end.simps utf8_white_space_def starts_with_def
        ends_with_def fence_def)
  from strip_code_wrapper_fenced [OF this] show ?thesis by simp
qed

lemma strip_code_wrapper_comment:
  "\<exists>rest. strip_code_wrapper inp =
     ''/*'' @ (case find_sub fence (rust_trim inp) of Some i \<Rightarrow> take i (rust_trim inp) | None \<Rightarrow> [])
     @ ''*/'' @ rest"
  by (auto simp: strip_code_wrapper_def Let_def split: option.split)

text \<open>A completion without backticks is kept whole, trimmed, after an empty comment.\<close>

lemma strip_code_wrapper_unfenced:
  "CHR ''`'' \<notin> set (rust_trim inp) \<Longrightarrow> strip_code_wrapper inp = ''/*'' @ ''*/'' @ [CHR 0x0A] @ rust_trim inp"
proof -
  assume nt: "CHR ''`'' \<notin> set (rust_trim inp)"
  have other: "strip_code_prefix (rust_trim inp) pat = rust_trim inp" for pat
    using nt by (intro strip_code_prefix_other) (auto dest: in_set_takeD)
  have fo: "fold (\<lambda>pat input. strip_code_prefix input pat) [''cpp'', ''CPP'', ''C++'', ''c++'', ''c'', ''C'', [CHR 0x0A]]
              (rust_trim inp) = rust_trim inp"
    by (simp only: fold_Cons fold_Nil comp_apply id_apply other)
  have "find_sub fence (rust_trim inp) = None" "rfind_sub fence (rust_trim inp) = None"
    using nt by (simp_all add: find_sub_def rfind_sub_def find_from_no_tick rfind_from_no_tick)
  then show ?thesis
    unfolding strip_code_wrapper_def Let_def by (simp only: option.case prod.case fo) simp
qed

lemma find_from_close_comment:
  "find_from ''*/'' a i = None \<Longrightarrow> find_from ''*/'' (a @ ''*/'' @ r) i = Some (i + length a)"
proof (induction a arbitrary: i)
  case Nil
  then show ?case by (simp add: starts_with_def)
next
  case (Cons c cs)
  then have "\<not> starts_with ''*/'' (c # cs @ ''*/'' @ r)"
    by (cases cs) (auto simp: starts_with_def split: if_split_asm)
  with Cons show ?case by (simp split: if_split_asm)
qed

text \<open>C27: An explanation before the first fence that contains \<^verbatim>\<open>*/\<close> closes the
  comment \<^verbatim>\<open>strip_code_wrapper\<close> wraps it in early: the output is \<^verbatim>\<open>/*\<close>, the
  explanation verbatim, then \<^verbatim>\<open>*/\<close>; the first \<^verbatim>\<open>*/\<close> after the opening
  \<^verbatim>\<open>/*\<close> is the one inside the explanation, so the rest of the explanation is
  outside the comment and is compiled as C code.\<close>

theorem strip_code_wrapper_comment_injection:
  assumes "rust_trim inp = ev @ fence @ r" "CHR ''`'' \<notin> set ev" "ev = a @ ''*/'' @ b"
    "find_sub ''*/'' a = None"
  shows "\<exists>rest. strip_code_wrapper inp = ''/*'' @ a @ ''*/'' @ b @ ''*/'' @ rest
    \<and> find_sub ''*/'' (drop 2 (strip_code_wrapper inp)) = Some (length a)"
proof -
  have "find_sub fence (rust_trim inp) = Some (length ev)"
    using find_from_before_fence [OF assms(2), of r 0] assms(1) by (simp add: find_sub_def)
  moreover have "take (length ev) (rust_trim inp) = ev" using assms(1) by simp
  ultimately obtain rest where out: "strip_code_wrapper inp = ''/*'' @ a @ ''*/'' @ b @ ''*/'' @ rest"
    using strip_code_wrapper_comment [of inp] assms(3) by auto
  have "find_sub ''*/'' (a @ ''*/'' @ b @ ''*/'' @ rest) = Some (length a)"
    using find_from_close_comment [of a 0] assms(4) by (simp add: find_sub_def)
  with out show ?thesis by simp
qed

theorem strip_code_wrapper_comment_injection_witness:
  "\<exists>rest. strip_code_wrapper (''Use a/*b*/c:'' @ ''```'' @ ''int x;'' @ ''```'')
       = ''/*'' @ ''Use a/*b'' @ ''*/'' @ ''c:'' @ ''*/'' @ rest
   \<and> find_sub ''*/'' (drop 2 (strip_code_wrapper (''Use a/*b*/c:'' @ ''```'' @ ''int x;'' @ ''```'')))
       = Some (length ''Use a/*b'')"
proof -
  have t: "rust_trim (''Use a/*b*/c:'' @ ''```'' @ ''int x;'' @ ''```'')
      = ''Use a/*b*/c:'' @ fence @ (''int x;'' @ ''```'')"
    by (simp add: rust_trim_def trim_start.simps trim_end.simps utf8_white_space_def starts_with_def
        ends_with_def fence_def)
  have n: "find_sub ''*/'' ''Use a/*b'' = None"
    by (simp add: find_sub_def starts_with_def)
  show ?thesis
    by (rule strip_code_wrapper_comment_injection [OF t _ _ n]) simp_all
qed

subsection \<open>Billing: counters and the usage file\<close>

lemma u32_add_Inr: "u32_add a b = Inr c \<Longrightarrow> unat c = unat a + unat b"
  by (auto simp: u32_add_def unat_add_lem [symmetric] split: if_splits)

lemma nondigit_notin_nat_string: "char_digit c = None \<Longrightarrow> c \<notin> set (nat_string n)"
  using nat_string_char_digit by blast

lemma parse_u32_word_string [simp]: "parse_u32 (word_string w) = Some w"
proof -
  have plus: "CHR ''+'' \<notin> set (nat_string (unat w))"
    by (rule nondigit_notin_nat_string) (simp add: char_digit_def)
  have t: "(case nat_string (unat w) of c # r \<Rightarrow> if c = CHR ''+'' then r else nat_string (unat w)
             | [] \<Rightarrow> nat_string (unat w)) = nat_string (unat w)"
    using plus by (cases "nat_string (unat w)") auto
  have "unat w < 2 ^ 32" using unsigned_less [of w] by simp
  then show ?thesis
    by (simp add: parse_u32_def word_string_def Let_def t parse_nat_nat_string)
qed

lemma split_on_no_sep: "c \<notin> set a \<Longrightarrow> split_on c a = [a]"
  by (induction a) auto

lemma split_on_sep: "c \<notin> set a \<Longrightarrow> split_on c (a @ c # r) = a # split_on c r"
  by (induction a) (auto split: list.split)

lemma space_notin_word_string [simp]: "CHR '' '' \<notin> set (word_string w)"
  by (simp add: word_string_def nondigit_notin_nat_string char_digit_def)

lemma parse_usage_content:
  assumes "parse_f32 env (show_f32 env (quota_cost b)) = Some (quota_cost b)"
    and "CHR '' '' \<notin> set (show_f32 env (quota_cost b))"
  shows "parse_usage env (usage_content env b) = Inr (prompt_usage b, completion_usage b, quota_cost b)"
  using assms
  by (simp add: parse_usage_def usage_content_def split_on_sep split_on_no_sep del: append_assoc)

lemma count_billing_Inr:
  assumes "count_billing env p c b = Inr b'"
  shows "\<exists>ip op. input_price env = Inr ip \<and> output_price env = Inr op
    \<and> b' = b\<lparr>quota_cost := quota_cost b + (case (ip, op) of
                 (Some i, Some j) \<Rightarrow> (i * real (unat p) + j * real (unat c)) / 1000 | _ \<Rightarrow> 0)\<rparr>"
  using assms
  by (auto simp: count_billing_def bindR_eq_Inr split: option.splits)

lemma log_openai_usage_Inr:
  assumes "log_openai_usage env r b = (Inr (), b')" "usage r = Some u"
  shows "usage_path env = Inr ()
    \<and> unat (prompt_usage b') = unat (prompt_usage b) + unat (prompt_tokens u)
    \<and> unat (completion_usage b') = unat (completion_usage b) + unat (completion_tokens u)
    \<and> (\<exists>ip op. input_price env = Inr ip \<and> output_price env = Inr op
        \<and> quota_cost b' = quota_cost b + (case (ip, op) of
            (Some i, Some j) \<Rightarrow> (i * real (unat (prompt_tokens u)) + j * real (unat (completion_tokens u))) / 1000
          | _ \<Rightarrow> 0))
    \<and> usage_log b' = Some (usage_content env b')"
proof -
  obtain pu cu b2 where pu: "u32_add (prompt_usage b) (prompt_tokens u) = Inr pu"
    and cu: "u32_add (completion_usage b) (completion_tokens u) = Inr cu"
    and p: "usage_path env = Inr ()"
    and c: "count_billing env (prompt_tokens u) (completion_tokens u)
              (b\<lparr>prompt_usage := pu, completion_usage := cu\<rparr>) = Inr b2"
    and b': "b' = b2\<lparr>usage_log := Some (usage_content env b2)\<rparr>"
    using assms
    by (auto simp: log_openai_usage_def bindS_eq_Inr Let_def split: option.splits sum.splits)
  show ?thesis
    using p u32_add_Inr [OF pu] u32_add_Inr [OF cu] b' count_billing_Inr [OF c]
    by (auto simp: usage_content_def)
qed

subsection \<open>Retries\<close>

lemma retry_loop_Inr:
  assumes "retry_loop on_ok cl respond ks b = (Inr x, b')"
  shows "\<exists>i < length ks. respond (ks ! i) = Inr x \<and> cl (respond (ks ! i)) = Normal
           \<and> (\<forall>j < i. cl (respond (ks ! j)) = NonCritical) \<and> on_ok x b = (Inr (), b')"
  using assms
proof (induction ks)
  case Nil
  then show ?case by simp
next
  case (Cons k ks)
  show ?case
  proof (cases "cl (respond k)")
    case Normal
    with Cons.prems show ?thesis
      by (auto simp: Let_def bindS_eq_Inr split: sum.splits intro!: exI [of _ 0])
  next
    case NonCritical
    with Cons.prems Cons.IH obtain i where "i < length ks" "respond (ks ! i) = Inr x"
      "cl (respond (ks ! i)) = Normal" "\<forall>j < i. cl (respond (ks ! j)) = NonCritical" "on_ok x b = (Inr (), b')"
      by (auto simp: Let_def)
    with NonCritical show ?thesis
      by (intro exI [of _ "Suc i"]) (auto simp: nth_Cons' less_Suc_eq_0_disj)
  next
    case Critical
    with Cons.prems show ?thesis by (auto simp: Let_def split: sum.splits)
  qed
qed

lemma retry_loop_exhausted:
  "\<forall>k \<in> set ks. cl (respond k) = NonCritical \<Longrightarrow> retry_loop on_ok cl respond ks b = (Inl (Error ''RetryError''), b)"
  by (induction ks) (auto simp: Let_def)

lemma retry_loop_cong:
  "\<forall>k \<in> set ks. respond k = respond' k \<Longrightarrow> retry_loop on_ok cl respond ks b = retry_loop on_ok cl respond' ks b"
  by (induction ks arbitrary: b) (auto simp: Let_def split: critical.split)

lemma unat_RETRY_N [simp]: "unat RETRY_N = 5"
  by (simp add: RETRY_N_def)

subsection \<open>Claims: billing\<close>

text \<open>C21: Right after a successful logging of a response with a usage, a fresh process that
  loads the usage file it wrote gets back the two token counters and the quota, provided the
  quota's decimal text parses back and has no space.\<close>

theorem usage_file_roundtrip:
  assumes "log_openai_usage env r b = (Inr (), b')" "usage r \<noteq> None"
    and "parse_f32 env (show_f32 env (quota_cost b')) = Some (quota_cost b')"
    and "CHR '' '' \<notin> set (show_f32 env (quota_cost b'))"
  shows "load_openai_usage env (b0\<lparr>usage_log := usage_log b'\<rparr>)
       = Inr (b0\<lparr>usage_log := usage_log b', prompt_usage := prompt_usage b',
                 completion_usage := completion_usage b', quota_cost := quota_cost b'\<rparr>)"
proof -
  obtain u where u: "usage r = Some u" using assms(2) by blast
  from log_openai_usage_Inr [OF assms(1) u] have p: "usage_path env = Inr ()"
    and c: "usage_log b' = Some (usage_content env b')" by simp_all
  show ?thesis
    using parse_usage_content [of env b', OF assms(3,4)]
    by (simp add: load_openai_usage_def p c)
qed

theorem usage_file_roundtrip_witness:
  "log_openai_usage example_env example_response example_billing
     = (Inr (), snd (log_openai_usage example_env example_response example_billing))
   \<and> load_openai_usage example_env
       (example_billing\<lparr>usage_log := Some ''13 24 0''\<rparr>)
     = Inr (example_billing\<lparr>usage_log := Some ''13 24 0'', prompt_usage := 13, completion_usage := 24\<rparr>)"
proof -
  have d: "digit_char (Suc 0) = CHR ''1''" "digit_char 2 = CHR ''2''" "digit_char 3 = CHR ''3''"
      "digit_char 4 = CHR ''4''"
    by (simp_all add: digit_char_def numeral_eq_Suc)
  have l: "log_openai_usage example_env example_response example_billing
      = (Inr (), example_billing\<lparr>prompt_usage := 13, completion_usage := 24, usage_log := Some ''13 24 0''\<rparr>)"
    by (simp add: log_openai_usage_def example_env_def example_response_def example_billing_def
        u32_add_def count_billing_def usage_content_def word_string_def io_check_def nat_string.simps d)
  have "load_openai_usage example_env (example_billing\<lparr>usage_log := Some ''13 24 0''\<rparr>)
     = Inr (example_billing\<lparr>usage_log := Some ''13 24 0'', prompt_usage := 13, completion_usage := 24\<rparr>)"
    using usage_file_roundtrip [OF l, of example_billing]
    by (simp add: example_response_def example_env_def example_billing_def)
  then show ?thesis by (simp add: l)
qed

text \<open>C25: A successful logging adds the response's token counts to the two \<^verbatim>\<open>u32\<close>
  counters exactly, without wrapping around.\<close>

theorem log_openai_usage_counts:
  assumes "log_openai_usage env r b = (Inr (), b')" "usage r = Some u"
  shows "unat (prompt_usage b') = unat (prompt_usage b) + unat (prompt_tokens u)
       \<and> unat (completion_usage b') = unat (completion_usage b) + unat (completion_tokens u)"
  using log_openai_usage_Inr [OF assms] by simp

lemma example_log_openai_usage:
  "log_openai_usage example_env example_response example_billing
     = (Inr (), example_billing\<lparr>prompt_usage := 13, completion_usage := 24, usage_log := Some ''13 24 0''\<rparr>)"
proof -
  have d: "digit_char (Suc 0) = CHR ''1''" "digit_char 2 = CHR ''2''" "digit_char 3 = CHR ''3''"
      "digit_char 4 = CHR ''4''"
    by (simp_all add: digit_char_def numeral_eq_Suc)
  show ?thesis
    by (simp add: log_openai_usage_def example_env_def example_response_def example_billing_def
        u32_add_def count_billing_def usage_content_def word_string_def io_check_def nat_string.simps d)
qed

theorem log_openai_usage_counts_witness:
  "unat (prompt_usage (example_billing\<lparr>prompt_usage := 13, completion_usage := 24, usage_log := Some ''13 24 0''\<rparr>))
     = unat (prompt_usage example_billing) + 3"
  using log_openai_usage_counts [OF example_log_openai_usage, of "\<lparr>prompt_tokens = 3, completion_tokens = 4\<rparr>"]
  by (simp add: example_response_def)

text \<open>C26: When adding a response's prompt tokens to the prompt counter exceeds \<open>2^32 - 1\<close>,
  logging panics with the overflow of \<^verbatim>\<open>+=\<close> and leaves the counters unchanged.\<close>

theorem log_openai_usage_overflow:
  assumes "usage r = Some u" "usage_path env = Inr ()"
    and "2 ^ 32 \<le> unat (prompt_usage b) + unat (prompt_tokens u)"
  shows "log_openai_usage env r b = (Inl (Panic ''attempt to add with overflow''), b)"
  using assms by (simp add: log_openai_usage_def u32_add_def io_check_def)

theorem log_openai_usage_overflow_witness:
  "log_openai_usage example_env example_response (example_billing\<lparr>prompt_usage := 4294967295\<rparr>)
     = (Inl (Panic ''attempt to add with overflow''), example_billing\<lparr>prompt_usage := 4294967295\<rparr>)"
  by (rule log_openai_usage_overflow [of _ "\<lparr>prompt_tokens = 3, completion_tokens = 4\<rparr>"])
    (simp_all add: example_response_def example_env_def example_billing_def)

subsection \<open>Claims: retries\<close>

text \<open>C22: A chat request that returns a response got it as the first response classified
  normal within the first \<^verbatim>\<open>RETRY_N\<close> attempts, after only non-critical failures, and
  the response's usage was logged.\<close>

theorem get_chat_response_first_normal:
  assumes "get_chat_response env cl respond b = (Inr x, b')"
  shows "\<exists>k < unat RETRY_N. respond k = Inr x \<and> cl (Inr x) = Normal
           \<and> (\<forall>j < k. cl (respond j) = NonCritical) \<and> log_openai_usage env x b = (Inr (), b')"
proof -
  from retry_loop_Inr [OF assms [unfolded get_chat_response_def]] obtain i where
    "i < unat RETRY_N" "respond i = Inr x" "cl (respond i) = Normal"
    "\<forall>j < i. cl (respond j) = NonCritical" "log_openai_usage env x b = (Inr (), b')"
    by auto
  then show ?thesis by auto
qed

theorem get_chat_response_first_normal_witness:
  "\<exists>k. k < unat RETRY_N \<and> example_respond k = Inr example_response
     \<and> log_openai_usage example_env example_response example_billing
         = (Inr (), snd (get_chat_response example_env example_classify example_respond example_billing))"
proof -
  have "get_chat_response example_env example_classify example_respond example_billing
      = (Inr example_response, example_billing\<lparr>prompt_usage := 13, completion_usage := 24, usage_log := Some ''13 24 0''\<rparr>)"
    by (simp add: get_chat_response_def upt_rec example_classify_def example_respond_def
        example_log_openai_usage)
  from get_chat_response_first_normal [OF this] this show ?thesis by auto
qed

text \<open>C23: When every one of the \<^verbatim>\<open>RETRY_N\<close> attempts fails non-critically, the request
  fails with \<^verbatim>\<open>RetryError\<close> and the billing state is unchanged.\<close>

theorem get_chat_response_exhausted:
  "\<forall>k < unat RETRY_N. cl (respond k) = NonCritical
     \<Longrightarrow> get_chat_response env cl respond b = (Inl (Error ''RetryError''), b)"
  unfolding get_chat_response_def by (rule retry_loop_exhausted) auto

theorem get_chat_response_exhausted_witness:
  "get_chat_response example_env (\<lambda>_. NonCritical) example_respond example_billing
     = (Inl (Error ''RetryError''), example_billing)"
  by (rule get_chat_response_exhausted) simp

text \<open>C24: A chat request sends at most \<^verbatim>\<open>RETRY_N\<close> = 5 requests: its outcome depends only
  on the responses to the first five.\<close>

theorem get_chat_response_bounded:
  "\<forall>k < unat RETRY_N. respond k = respond' k
     \<Longrightarrow> get_chat_response env cl respond b = get_chat_response env cl respond' b"
  unfolding get_chat_response_def by (rule retry_loop_cong) auto

theorem get_chat_response_bounded_witness:
  "get_chat_response example_env example_classify (\<lambda>_. Inl ''timed out'') example_billing
     = get_chat_response example_env example_classify
         (\<lambda>k. if k < 5 then Inl ''timed out'' else Inr example_response) example_billing"
  by (rule get_chat_response_bounded) simp

end
