(* ===== verification/Config.thy ===== *)
theory Config
  imports OpenAI
begin

text \<open>
  The process-wide configuration of src/src/config.rs: the one-shot globals
  (\<^verbatim>\<open>OnceCell\<close>s) set by \<^verbatim>\<open>init_openai_env\<close> and \<^verbatim>\<open>parse_config\<close>, their
  getters, the command-line \<^verbatim>\<open>Config\<close> with its defaults, \<^verbatim>\<open>LibConfig\<close>, and the
  prompt templates with the \<^verbatim>\<open>str::replace\<close> they go through. The globals form a
  state machine, \<open>config_step\<close>, whose reachable states keep the cached template
  consistent with the configured target.
\<close>

subsection \<open>\<^verbatim>\<open>str::replace\<close>\<close>

text \<open>
  The standard library's \<^verbatim>\<open>str::replace\<close> walks the non-overlapping matches of the
  pattern from the left (\<^verbatim>\<open>match_indices\<close>) and copies the text between them; an empty
  pattern matches at every character boundary. \<open>replace_str\<close> is the reference: a
  recursion over the string.
\<close>

function match_from :: "string \<Rightarrow> string \<Rightarrow> nat \<Rightarrow> nat list" where
  "match_from pat [] i = []"
| "match_from pat (c # cs) i =
     (if pat \<noteq> [] \<and> starts_with pat (c # cs)
      then i # match_from pat (drop (length pat - 1) cs) (i + length pat)
      else match_from pat cs (Suc i))"
  by pat_completeness auto
termination
  by (relation "measure (\<lambda>(_, s, _). length s)") auto

definition match_indices :: "string \<Rightarrow> string \<Rightarrow> nat list" where
  "match_indices pat s = (if pat = [] then [0..<Suc (length s)] else match_from pat s 0)"

definition slice :: "string \<Rightarrow> nat \<Rightarrow> nat \<Rightarrow> string" where
  "slice s a b = take (b - a) (drop a s)"

definition replace :: "string \<Rightarrow> string \<Rightarrow> string \<Rightarrow> string" where
  "replace s pat rep =
     (let (result, last_end) =
        fold (\<lambda>start (result, last_end). (result @ slice s last_end start @ rep, start + length pat))
          (match_indices pat s) ([], 0)
      in result @ drop last_end s)"

function replace_str :: "string \<Rightarrow> string \<Rightarrow> string \<Rightarrow> string" where
  "replace_str pat rep [] = (if pat = [] then rep else [])"
| "replace_str pat rep (c # cs) =
     (if pat = [] then rep @ c # replace_str pat rep cs
      else if starts_with pat (c # cs) then rep @ replace_str pat rep (drop (length pat - 1) cs)
      else c # replace_str pat rep cs)"
  by pat_completeness auto
termination
  by (relation "measure (\<lambda>(_, _, s). length s)") auto

subsection \<open>One-shot globals\<close>

text \<open>A \<^verbatim>\<open>once_cell::sync::OnceCell\<close>: empty until its first \<^verbatim>\<open>set\<close> or
  \<^verbatim>\<open>get_or_init\<close>, then fixed.\<close>

datatype 'a once_cell = Uninit | Init 'a

definition unwrap_none :: string where
  "unwrap_none = ''called `Option::unwrap()` on a `None` value''"

definition unwrap_err :: string where
  "unwrap_err = ''called `Result::unwrap()` on an `Err` value''"

text \<open>\<^verbatim>\<open>cell.get().unwrap()\<close>\<close>

primrec cell_get_unwrap :: "'a once_cell \<Rightarrow> 'a result" where
  "cell_get_unwrap Uninit = Inl (Panic unwrap_none)"
| "cell_get_unwrap (Init v) = Inr v"

text \<open>\<^verbatim>\<open>cell.set(v).unwrap()\<close>: \<^verbatim>\<open>set\<close> returns \<^verbatim>\<open>Err(v)\<close> on a full cell.\<close>

primrec cell_set_unwrap :: "'a \<Rightarrow> 'a once_cell \<Rightarrow> 'a once_cell result" where
  "cell_set_unwrap v Uninit = Inr (Init v)"
| "cell_set_unwrap v (Init _) = Inl (Panic unwrap_err)"

text \<open>\<^verbatim>\<open>cell.get_or_init(f)\<close>; \<open>f\<close> is the result of the initialiser, which may panic.\<close>

primrec cell_get_or_init :: "'a result \<Rightarrow> 'a once_cell \<Rightarrow> 'a result \<times> 'a once_cell" where
  "cell_get_or_init f Uninit = (case f of Inl e \<Rightarrow> (Inl e, Uninit) | Inr v \<Rightarrow> (Inr v, Init v))"
| "cell_get_or_init f (Init v) = (Inr v, Init v)"

subsection \<open>The command line: \<^verbatim>\<open>Config\<close> (lines 184--221)\<close>

record config =
  target :: string
  n_sample :: "8 word"
  temperature :: real
  disable_power_schedule :: bool
  fuzz_round_succ :: nat
  fuzz_converge_round :: nat
  query_budget :: real
  cores :: nat
  max_cores :: nat
  exponent_branch :: bool
  recheck :: bool
  fuzzer_run :: bool

text \<open>What \<^verbatim>\<open>Config::parse\<close> returns when only the target is given: the
  \<^verbatim>\<open>default_value\<close>s of the arguments.\<close>

definition default_config :: "string \<Rightarrow> config" where
  "default_config t =
     \<lparr>target = t, n_sample = 10, temperature = 9 / 10, disable_power_schedule = False,
      fuzz_round_succ = 1, fuzz_converge_round = 10, query_budget = 5, cores = 1, max_cores = 0,
      exponent_branch = False, recheck = False, fuzzer_run = False\<rparr>"

text \<open>\<^verbatim>\<open>Config::init_test\<close> (lines 224--241); its logger initialisation is not modelled.\<close>

definition test_config :: "string \<Rightarrow> config" where
  "test_config t =
     \<lparr>target = t, n_sample = 10, temperature = 9 / 10, disable_power_schedule = False,
      fuzz_round_succ = 1, fuzz_converge_round = 10, query_budget = 5, cores = 10, max_cores = 0,
      exponent_branch = False, recheck = False, fuzzer_run = False\<rparr>"

subsection \<open>Per-library configuration: \<^verbatim>\<open>LibConfig\<close> (lines 244--286)\<close>

record lib_config =
  project_name :: string
  static_lib_name :: string
  dyn_lib_name :: string
  ban :: "string list option"
  null_term :: "bool option"
  extra_c_flags :: "string list option"
  landmark :: "bool option"
  force_types :: "string list option"
  fuzz_fork :: "bool option"
  desc :: "string option"
  spec :: "string option"
  init_file :: "string option"
  asan_option :: "string option"
  disable_fmemopen :: "bool option"
  rss_limit_mb :: "nat option"

definition should_terminate_with_null :: "lib_config \<Rightarrow> bool" where
  "should_terminate_with_null lc = (case null_term lc of Some t \<Rightarrow> t | None \<Rightarrow> False)"

subsection \<open>Prompt templates (lines 289--325)\<close>

definition SYSTEM_GEN_TEMPLATE :: string where
  \<open>SYSTEM_GEN_TEMPLATE =
     ''Act as a C++ langauge Developer, write a fuzz driver that follow user'' @ [CHR 0x27] @ ''s instructions.''
     @ [CHR 0x0A] @
     ''The prototype of fuzz dirver is: `extern "C" int LLVMFuzzerTestOneInput(const uint8_t data, size_t size)`.''
     @ [CHR 0x0A, CHR 0x0A]\<close>

definition USER_GEN_TEMPLATE :: string where
  \<open>USER_GEN_TEMPLATE = concat (map (\<lambda>l. l @ [CHR 0x0A]) [
     ''Create a C++ language program step by step by using {project} library APIs and following the instructions below:'',
     ''1. Here are several APIs in {project}. Specific an event that those APIs could achieve together, if the input is a byte stream of {project}'' @ [CHR 0x27] @ '' output data.'',
     ''{combinations};'',
     ''2. Complete the LLVMFuzzerTestOneInput function to achieve this event by using those APIs. Each API should be called at least once, if possible.'',
     ''3. The input data and its size are passed as parameters of LLVMFuzzerTestOneInput: `const uint8_t *data` and `size_t size`. They must be consumed by the {project} APIs.'',
     ''4. Once you need a `FILE *` variable to read the input data, using `FILE * in_file = fmemopen((void *)data, size, "rb")` to produce a `FILE *` variable.'',
     ''   Once you need a `FILE *` variable to write output data, using `FILE * out_file = fopen("output_file", "wb")` to produce a `FILE *` variable.'',
     ''5. Once you need a `int` type file descriptor, using `fileno(in_file)` or `fileno(out_file)` to produce a file descriptor for reading or writing. '',
     ''6. Once you just need a string of file name, directly using "input_file" or "output_file" as the file name.'',
     ''7. Release all allocated resources before return.''])\<close>

definition FMEMOPEN_CALL :: string where
  \<open>FMEMOPEN_CALL = ''fmemopen((void *)data, size, "rb")''\<close>

definition FOPEN_CALL :: string where
  \<open>FOPEN_CALL = ''fopen("input_file", "rb")''\<close>

subsection \<open>The globals and their environment\<close>

text \<open>The statics of config.rs that are \<^verbatim>\<open>OnceCell\<close>s: the five of the OpenAI
  environment (lines 8--16), \<^verbatim>\<open>CONFIG_INSTANCE\<close> (line 39, its \<^verbatim>\<open>RwLock\<close> never
  poisoned), and the caches of \<^verbatim>\<open>get_minimize_compile_flag\<close>,
  \<^verbatim>\<open>get_sys_gen_template\<close> and \<^verbatim>\<open>get_user_gen_template\<close>.\<close>

record globals =
  openai_model_name :: "string once_cell"
  openai_input_price :: "real option once_cell"
  openai_output_price :: "real option once_cell"
  openai_context_limit :: "32 word option once_cell"
  openai_proxy_base :: "string option once_cell"
  config_instance :: "config once_cell"
  min_flag :: "string once_cell"
  sys_template :: "string once_cell"
  gtemplate :: "string once_cell"

definition init_globals :: globals where
  "init_globals =
     \<lparr>openai_model_name = Uninit, openai_input_price = Uninit, openai_output_price = Uninit,
      openai_context_limit = Uninit, openai_proxy_base = Uninit, config_instance = Uninit,
      min_flag = Uninit, sys_template = Uninit, gtemplate = Uninit\<rparr>"

text \<open>The process environment (\<^verbatim>\<open>std::env::var\<close>) and \<^verbatim>\<open>f32::from_str\<close>.\<close>

record process_env =
  env_var :: "string \<Rightarrow> string option"
  parse_float :: "string \<Rightarrow> real option"

text \<open>What the code asks of \<^verbatim>\<open>Deopt\<close> (not in the sources): the library's
  \<^verbatim>\<open>LibConfig\<close> loaded by \<^verbatim>\<open>Deopt::new\<close>, its data directory and build
  library paths, which paths exist, the coverage block-list file and the landmark corpus.\<close>

record deopt_env =
  deopt_new :: "string \<Rightarrow> lib_config result"
  data_dir :: "string \<Rightarrow> string result"
  build_lib_path :: "string \<Rightarrow> string result"
  path_exists :: "string \<Rightarrow> bool"
  coverage_bl_file :: "string result"
  landmark_corpus :: "string \<Rightarrow> string option"

text \<open>A \<^verbatim>\<open>cell.set(v).unwrap()\<close> on the field of the globals that \<open>get\<close> and
  \<open>upd\<close> access.\<close>

definition set_global :: "'a \<Rightarrow> (globals \<Rightarrow> 'a once_cell) \<Rightarrow> (('a once_cell \<Rightarrow> 'a once_cell) \<Rightarrow> globals \<Rightarrow> globals)
                          \<Rightarrow> globals \<Rightarrow> (unit, globals) outcome" where
  "set_global v get upd g =
     (case cell_set_unwrap v (get g) of Inl e \<Rightarrow> (Inl e, g) | Inr c \<Rightarrow> (Inr (), upd (\<lambda>_. c) g))"

text \<open>\<^verbatim>\<open>init_openai_env\<close> (lines 111--135).\<close>

definition init_openai_env :: "process_env \<Rightarrow> globals \<Rightarrow> (unit, globals) outcome" where
  "init_openai_env pe g =
     (case env_var pe ''OPENAI_MODEL_NAME'' of
        None \<Rightarrow> (Inl (Panic ''OPENAI_MODEL not set''), g)
      | Some model \<Rightarrow>
          let input_price = Option.bind (env_var pe ''OPENAI_INPUT_PRICE'') (parse_float pe);
              output_price = Option.bind (env_var pe ''OPENAI_OUTPUT_PRICE'') (parse_float pe);
              context_limit = Option.bind (env_var pe ''OPENAI_CONTEXT_LIMIT'') parse_u32;
              proxy_base = env_var pe ''OPENAI_PROXY_BASE''
          in bindS (set_global model openai_model_name openai_model_name_update g) (\<lambda>_ g.
             bindS (set_global input_price openai_input_price openai_input_price_update g) (\<lambda>_ g.
             bindS (set_global output_price openai_output_price openai_output_price_update g) (\<lambda>_ g.
             bindS (set_global context_limit openai_context_limit openai_context_limit_update g) (\<lambda>_ g.
             set_global proxy_base openai_proxy_base openai_proxy_base_update g)))))"

text \<open>The getters (lines 90--108 and 137--151).\<close>

definition get_openai_model_name :: "globals \<Rightarrow> string result" where
  "get_openai_model_name g = cell_get_unwrap (openai_model_name g)"

definition get_openai_input_price :: "globals \<Rightarrow> real option result" where
  "get_openai_input_price g = cell_get_unwrap (openai_input_price g)"

definition get_openai_output_price :: "globals \<Rightarrow> real option result" where
  "get_openai_output_price g = cell_get_unwrap (openai_output_price g)"

definition get_openai_context_limit :: "globals \<Rightarrow> 32 word option result" where
  "get_openai_context_limit g = cell_get_unwrap (openai_context_limit g)"

definition get_openai_proxy :: "globals \<Rightarrow> string option result" where
  "get_openai_proxy g = cell_get_unwrap (openai_proxy_base g)"

definition get_config :: "globals \<Rightarrow> config result" where
  "get_config g = cell_get_unwrap (config_instance g)"

definition get_library_name :: "globals \<Rightarrow> string result" where
  "get_library_name g = bindR (get_config g) (\<lambda>c. Inr (target c))"

definition get_sample_num :: "globals \<Rightarrow> 8 word result" where
  "get_sample_num g = bindR (get_config g) (\<lambda>c. Inr (n_sample c))"

text \<open>\<^verbatim>\<open>get_minimize_compile_flag\<close> (lines 153--161).\<close>

definition get_minimize_compile_flag :: "deopt_env \<Rightarrow> globals \<Rightarrow> (string, globals) outcome" where
  "get_minimize_compile_flag dp g =
     (let (r, c) = cell_get_or_init
                     (case coverage_bl_file dp of
                        Inl _ \<Rightarrow> Inl (Panic unwrap_err)
                      | Inr bl \<Rightarrow> Inr (''-fsanitize-coverage-ignorelist='' @ bl)) (min_flag g)
      in (r, g\<lparr>min_flag := c\<rparr>))"

text \<open>\<^verbatim>\<open>parse_config\<close> (lines 162--178), given what \<^verbatim>\<open>Config::parse\<close> returned.\<close>

definition parse_config :: "config \<Rightarrow> deopt_env \<Rightarrow> globals \<Rightarrow> (unit, globals) outcome" where
  "parse_config cfg dp g =
     bindS (set_global cfg config_instance config_instance_update g) (\<lambda>_ g.
       (bindR (get_library_name g) (\<lambda>name.
        bindR (deopt_new dp name) (\<lambda>lc.
        bindR (data_dir dp name) (\<lambda>data.
          if \<not> path_exists dp data
          then Inl (Error (''Cannot find the entry '' @ project_name lc
                           @ '' in `data` dir, please prepare it in anvance.''))
          else bindR (build_lib_path dp name) (\<lambda>lib.
            if \<not> path_exists dp lib
            then Inl (Error (''Cannot find the build library '' @ project_name lc
                     @ '' in `output/build` dir, please build it by build.sh in anvance.''))
            else Inr ())))), g))"

text \<open>\<^verbatim>\<open>Config::init_test\<close>: \<^verbatim>\<open>let _ = CONFIG_INSTANCE.set(..)\<close> ignores a full cell.\<close>

definition init_test :: "string \<Rightarrow> globals \<Rightarrow> globals" where
  "init_test t g =
     (case cell_set_unwrap (test_config t) (config_instance g) of
        Inl _ \<Rightarrow> g
      | Inr c \<Rightarrow> g\<lparr>config_instance := c\<rparr>)"

text \<open>The template getters (lines 327--360).\<close>

definition get_sys_gen_template :: "globals \<Rightarrow> (string, globals) outcome" where
  "get_sys_gen_template g =
     (let (r, c) = cell_get_or_init (Inr SYSTEM_GEN_TEMPLATE) (sys_template g) in (r, g\<lparr>sys_template := c\<rparr>))"

definition get_user_gen_template :: "globals \<Rightarrow> (string, globals) outcome" where
  "get_user_gen_template g =
     (let (r, c) = cell_get_or_init
                     (bindR (get_config g) (\<lambda>config. Inr (replace USER_GEN_TEMPLATE ''{project}'' (target config))))
                     (gtemplate g)
      in (r, g\<lparr>gtemplate := c\<rparr>))"

definition get_user_chat_template :: "deopt_env \<Rightarrow> globals \<Rightarrow> (string, globals) outcome" where
  "get_user_chat_template dp g =
     bindS (get_library_name g, g) (\<lambda>library_name g.
       case deopt_new dp library_name of
         Inl _ \<Rightarrow> (Inl (Panic unwrap_err), g)
       | Inr lc \<Rightarrow>
           bindS (get_user_gen_template g) (\<lambda>template g.
             let template = (case landmark_corpus dp library_name of
                               Some l \<Rightarrow> ''The input data is: '' @ l @ [CHR 0x0A, CHR 0x0A, CHR 0x0A] @ ''.'' @ template
                             | None \<Rightarrow> template);
                 template = (case spec lc of
                               Some init \<Rightarrow> template @ [CHR 0x0A] @ ''The begining of the fuzz driver is: ''
                                              @ [CHR 0x0A] @ init
                             | None \<Rightarrow> template);
                 template = (if disable_fmemopen lc = Some True
                             then replace template FMEMOPEN_CALL FOPEN_CALL else template)
             in (Inr template, g)))"

subsection \<open>The globals as a state machine\<close>

datatype config_op =
    InitOpenAIEnv process_env
  | ParseConfig config deopt_env
  | InitTest string
  | GetMinimizeFlag deopt_env
  | GetSysGenTemplate
  | GetUserGenTemplate
  | GetUserChatTemplate deopt_env

primrec config_step :: "config_op \<Rightarrow> globals \<Rightarrow> globals" where
  "config_step (InitOpenAIEnv pe) g = snd (init_openai_env pe g)"
| "config_step (ParseConfig cfg dp) g = snd (parse_config cfg dp g)"
| "config_step (InitTest t) g = init_test t g"
| "config_step (GetMinimizeFlag dp) g = snd (get_minimize_compile_flag dp g)"
| "config_step GetSysGenTemplate g = snd (get_sys_gen_template g)"
| "config_step GetUserGenTemplate g = snd (get_user_gen_template g)"
| "config_step (GetUserChatTemplate dp) g = snd (get_user_chat_template dp g)"

inductive reachable :: "globals \<Rightarrow> bool" where
  init: "reachable init_globals"
| step: "reachable g \<Longrightarrow> reachable (config_step op g)"

text \<open>The cached templates agree with their sources: the user template is the one of the
  configured target.\<close>

definition templates_consistent :: "globals \<Rightarrow> bool" where
  "templates_consistent g \<longleftrightarrow>
     (case gtemplate g of
        Uninit \<Rightarrow> True
      | Init v \<Rightarrow> (case config_instance g of
                    Init c \<Rightarrow> v = replace USER_GEN_TEMPLATE ''{project}'' (target c)
                  | Uninit \<Rightarrow> False))
     \<and> (case sys_template g of Uninit \<Rightarrow> True | Init v \<Rightarrow> v = SYSTEM_GEN_TEMPLATE)"

text \<open>A cell that holds a value still holds it in the later state.\<close>

primrec cell_le :: "'a once_cell \<Rightarrow> 'a once_cell \<Rightarrow> bool" where
  "cell_le Uninit c = True"
| "cell_le (Init v) c = (c = Init v)"

definition globals_le :: "globals \<Rightarrow> globals \<Rightarrow> bool" where
  "globals_le g g' \<longleftrightarrow>
     cell_le (openai_model_name g) (openai_model_name g') \<and> cell_le (openai_input_price g) (openai_input_price g')
     \<and> cell_le (openai_output_price g) (openai_output_price g')
     \<and> cell_le (openai_context_limit g) (openai_context_limit g')
     \<and> cell_le (openai_proxy_base g) (openai_proxy_base g') \<and> cell_le (config_instance g) (config_instance g')
     \<and> cell_le (min_flag g) (min_flag g') \<and> cell_le (sys_template g) (sys_template g')
     \<and> cell_le (gtemplate g) (gtemplate g')"

definition example_process_env :: process_env where
  "example_process_env =
     \<lparr>env_var = \<lambda>v. if v = ''OPENAI_MODEL_NAME'' then Some ''gpt-3.5-turbo''
                   else if v = ''OPENAI_INPUT_PRICE'' then Some ''0.0015'' else None,
      parse_float = \<lambda>s. if s = ''0.0015'' then Some (15 / 10000) else None\<rparr>"

definition example_deopt :: deopt_env where
  "example_deopt =
     \<lparr>deopt_new = \<lambda>_. Inr \<lparr>project_name = ''cJSON'', static_lib_name = ''libcjson.a'', dyn_lib_name = ''libcjson.so'',
        ban = None, null_term = None, extra_c_flags = None, landmark = None, force_types = None,
        fuzz_fork = None, desc = None, spec = None, init_file = None, asan_option = None,
        disable_fmemopen = None, rss_limit_mb = None\<rparr>,
      data_dir = \<lambda>n. Inr (''data/'' @ n), build_lib_path = \<lambda>n. Inr (''output/build/'' @ n),
      path_exists = \<lambda>p. p = ''output/build/cJSON'', coverage_bl_file = Inr ''bl.txt'',
      landmark_corpus = \<lambda>_. None\<rparr>"

subsection \<open>\<^verbatim>\<open>str::replace\<close> is the reference replacement\<close>

lemma slice_Suc: "i < length w \<Longrightarrow> le \<le> i \<Longrightarrow> slice w le (Suc i) = slice w le i @ [w ! i]"
  by (simp add: slice_def take_Suc_conv_app_nth Suc_diff_le)

lemma slice_self [simp]: "slice w i i = []"
  by (simp add: slice_def)

lemma drop_Cons_nth: "drop i w = c # cs \<Longrightarrow> i < length w \<and> w ! i = c \<and> drop (Suc i) w = cs"
  by (metis Cons_nth_drop_Suc drop_all length_greater_0_conv list.distinct(1) list.inject not_le
      nth_via_drop)

lemma replace_fold:
  assumes "s = drop i w" "le \<le> i" "pat \<noteq> []"
  shows "(let (res, last) = fold (\<lambda>start (result, last_end).
             (result @ slice w last_end start @ rep, start + length pat)) (match_from pat s i) (acc, le)
          in res @ drop last w) = acc @ slice w le i @ replace_str pat rep s"
  using assms
proof (induction pat s i arbitrary: acc le rule: match_from.induct)
  case (1 pat i)
  then show ?case by (simp add: slice_def)
next
  case (2 pat c cs i)
  from drop_Cons_nth [OF "2.prems"(1) [symmetric]] have i: "i < length w" "w ! i = c" "drop (Suc i) w = cs"
    by simp_all
  show ?case
  proof (cases "starts_with pat (c # cs)")
    case True
    have eq: "drop (length pat - 1) cs = drop (i + length pat) w"
    proof -
      have "length pat - 1 + Suc i = i + length pat" using "2.prems"(3) by (cases pat) auto
      then show ?thesis using i(3) by (metis drop_drop)
    qed
    have "pat \<noteq> [] \<and> starts_with pat (c # cs)" using True "2.prems"(3) by simp
    from "2.IH"(1) [OF this, where acc = "acc @ slice w le i @ rep" and le = "i + length pat"] eq "2.prems"(3)
    have ih: "(let (res, last) = fold (\<lambda>start (result, last_end).
             (result @ slice w last_end start @ rep, start + length pat))
               (match_from pat (drop (i + length pat) w) (i + length pat)) (acc @ slice w le i @ rep, i + length pat)
          in res @ drop last w) = (acc @ slice w le i @ rep) @ replace_str pat rep (drop (i + length pat) w)"
      by simp
    show ?thesis using True ih eq "2.prems"(3) by simp
  next
    case False
    then have "\<not> (pat \<noteq> [] \<and> starts_with pat (c # cs))" by simp
    from "2.IH"(2) [OF this, where acc = acc and le = le] i(3) "2.prems"(2,3)
    have ih: "(let (res, last) = fold (\<lambda>start (result, last_end).
             (result @ slice w last_end start @ rep, start + length pat)) (match_from pat cs (Suc i)) (acc, le)
          in res @ drop last w) = acc @ slice w le (Suc i) @ replace_str pat rep cs"
      by simp
    show ?thesis using False ih slice_Suc [OF i(1) "2.prems"(2)] i(2) "2.prems"(3) by simp
  qed
qed

lemma replace_empty_fold:
  assumes "j \<le> length w" "le \<le> j"
  shows "(let (res, last) = fold (\<lambda>start (result, last_end). (result @ slice w last_end start @ rep, start))
             [j..<Suc (length w)] (acc, le)
          in res @ drop last w) = acc @ slice w le j @ replace_str [] rep (drop j w)"
  using assms
proof (induction "length w - j" arbitrary: j acc le)
  case 0
  then have "j = length w" by simp
  then show ?case by simp
next
  case (Suc k)
  then have j: "j < length w" by simp
  have "[j..<Suc (length w)] = j # [Suc j..<Suc (length w)]" using j by (simp add: upt_conv_Cons)
  moreover have "drop j w = w ! j # drop (Suc j) w" using j by (simp add: Cons_nth_drop_Suc)
  moreover have "slice w j (Suc j) = [w ! j]" using j by (simp add: slice_def take_Suc_conv_app_nth)
  ultimately show ?case
    using Suc.hyps(1) [where j = "Suc j" and acc = "acc @ slice w le j @ rep" and le = j] Suc.hyps(2) j by simp
qed

lemma replace_eq_replace_str: "replace s pat rep = replace_str pat rep s"
proof (cases "pat = []")
  case True
  then show ?thesis
    using replace_empty_fold [of 0 s 0 rep "[]"] by (simp add: replace_def match_indices_def)
next
  case False
  then show ?thesis
    using replace_fold [of s 0 s 0 pat rep "[]"] by (simp add: replace_def match_indices_def)
qed

subsection \<open>The state machine of the globals\<close>

lemma cell_le_refl [simp]: "cell_le c c"
  by (cases c) simp_all

lemma cell_le_trans: "cell_le a b \<Longrightarrow> cell_le b c \<Longrightarrow> cell_le a c"
  by (cases a) simp_all

lemma globals_le_refl [simp]: "globals_le g g"
  by (simp add: globals_le_def)

lemma globals_le_trans: "globals_le a b \<Longrightarrow> globals_le b c \<Longrightarrow> globals_le a c"
  unfolding globals_le_def by (meson cell_le_trans)

lemma cell_set_unwrap_Inr [simp]: "cell_set_unwrap v c = Inr c' \<longleftrightarrow> c = Uninit \<and> c' = Init v"
  by (cases c) auto

lemma cell_set_unwrap_le: "cell_set_unwrap v c = Inr c' \<Longrightarrow> cell_le c c'"
  by (cases c) simp_all

lemma cell_get_or_init_le: "cell_le c (snd (cell_get_or_init f c))"
  by (cases c) (simp_all split: sum.split)

lemma cell_get_or_init_Inr [simp]:
  "snd (cell_get_or_init (Inr v) c) = (case c of Uninit \<Rightarrow> Init v | Init w \<Rightarrow> Init w)"
  by (cases c) simp_all

lemma init_openai_env_frame:
  "snd (init_openai_env pe g) = g' \<Longrightarrow>
     config_instance g' = config_instance g \<and> min_flag g' = min_flag g
     \<and> sys_template g' = sys_template g \<and> gtemplate g' = gtemplate g"
  by (auto simp: init_openai_env_def set_global_def bindS_def Let_def
      split: option.split sum.split prod.split)

lemma globals_le_init_openai_env: "globals_le g (snd (init_openai_env pe g))"
  by (auto simp: init_openai_env_def set_global_def bindS_def Let_def globals_le_def
      dest: cell_set_unwrap_le split: option.split sum.split prod.split)

lemma parse_config_state:
  "snd (parse_config cfg dp g) =
     (case config_instance g of Uninit \<Rightarrow> g\<lparr>config_instance := Init cfg\<rparr> | Init _ \<Rightarrow> g)"
  by (cases "config_instance g")
    (simp_all add: parse_config_def set_global_def bindS_def split: sum.split)

lemma init_test_state:
  "init_test t g = (case config_instance g of Uninit \<Rightarrow> g\<lparr>config_instance := Init (test_config t)\<rparr> | Init _ \<Rightarrow> g)"
  by (cases "config_instance g") (simp_all add: init_test_def)

lemma get_minimize_compile_flag_state:
  "snd (get_minimize_compile_flag dp g) = g\<lparr>min_flag := snd (cell_get_or_init
     (case coverage_bl_file dp of Inl _ \<Rightarrow> Inl (Panic unwrap_err)
      | Inr bl \<Rightarrow> Inr (''-fsanitize-coverage-ignorelist='' @ bl)) (min_flag g))\<rparr>"
  by (simp add: get_minimize_compile_flag_def split: prod.split)

lemma get_sys_gen_template_state:
  "snd (get_sys_gen_template g) =
     g\<lparr>sys_template := (case sys_template g of Uninit \<Rightarrow> Init SYSTEM_GEN_TEMPLATE | Init w \<Rightarrow> Init w)\<rparr>"
  by (cases "sys_template g") (simp_all add: get_sys_gen_template_def)

lemma get_user_gen_template_state:
  "snd (get_user_gen_template g) = g\<lparr>gtemplate := snd (cell_get_or_init
     (bindR (get_config g) (\<lambda>config. Inr (replace USER_GEN_TEMPLATE ''{project}'' (target config)))) (gtemplate g))\<rparr>"
  by (simp add: get_user_gen_template_def split: prod.split)

lemma get_user_chat_template_state:
  "snd (get_user_chat_template dp g) = g \<or> snd (get_user_chat_template dp g) = snd (get_user_gen_template g)"
  by (auto simp: get_user_chat_template_def bindS_def Let_def split: sum.split prod.split)

lemmas config_state_eqs = parse_config_state init_test_state get_minimize_compile_flag_state
  get_sys_gen_template_state get_user_gen_template_state

lemma globals_le_get_user_gen_template: "globals_le g (snd (get_user_gen_template g))"
  by (simp add: get_user_gen_template_state globals_le_def cell_get_or_init_le)

lemma globals_le_config_step: "globals_le g (config_step op g)"
proof (cases op)
  case (InitOpenAIEnv pe)
  then show ?thesis using globals_le_init_openai_env by simp
next
  case (GetUserChatTemplate dp)
  then show ?thesis
    using get_user_chat_template_state [of dp g] globals_le_get_user_gen_template [of g] by auto
qed (auto simp: config_state_eqs globals_le_init_openai_env globals_le_def cell_get_or_init_le
        split: once_cell.split)

lemma templates_consistent_get_user_gen_template:
  "templates_consistent g \<Longrightarrow> templates_consistent (snd (get_user_gen_template g))"
  by (cases "gtemplate g"; cases "config_instance g")
    (simp_all add: get_user_gen_template_state templates_consistent_def get_config_def)

lemma templates_consistent_cong:
  "gtemplate g' = gtemplate g \<Longrightarrow> config_instance g' = config_instance g \<Longrightarrow> sys_template g' = sys_template g
     \<Longrightarrow> templates_consistent g' = templates_consistent g"
  by (simp add: templates_consistent_def split: once_cell.split)

lemma templates_consistent_config_step:
  "templates_consistent g \<Longrightarrow> templates_consistent (config_step op g)"
proof (cases op)
  case (InitOpenAIEnv pe)
  then show "templates_consistent g \<Longrightarrow> ?thesis"
    using init_openai_env_frame [of pe g] templates_consistent_cong [of "snd (init_openai_env pe g)" g] by simp
next
  case (GetUserChatTemplate dp)
  then show "templates_consistent g \<Longrightarrow> ?thesis"
    using get_user_chat_template_state [of dp g] templates_consistent_get_user_gen_template by auto
next
  case GetUserGenTemplate
  then show "templates_consistent g \<Longrightarrow> ?thesis"
    using templates_consistent_get_user_gen_template by simp
qed (auto simp: config_state_eqs templates_consistent_def split: once_cell.splits sum.split)

lemma init_openai_env_Inr:
  assumes "init_openai_env pe g = (Inr (), g')"
  obtains m where "env_var pe ''OPENAI_MODEL_NAME'' = Some m"
    and "openai_model_name g = Uninit" "openai_input_price g = Uninit" "openai_output_price g = Uninit"
    and "openai_context_limit g = Uninit" "openai_proxy_base g = Uninit"
    and "g' = g\<lparr>openai_model_name := Init m,
           openai_input_price := Init (Option.bind (env_var pe ''OPENAI_INPUT_PRICE'') (parse_float pe)),
           openai_output_price := Init (Option.bind (env_var pe ''OPENAI_OUTPUT_PRICE'') (parse_float pe)),
           openai_context_limit := Init (Option.bind (env_var pe ''OPENAI_CONTEXT_LIMIT'') parse_u32),
           openai_proxy_base := Init (env_var pe ''OPENAI_PROXY_BASE'')\<rparr>"
  using assms
  by (auto simp: init_openai_env_def set_global_def bindS_def Let_def
      split: option.splits sum.splits prod.splits once_cell.splits)

subsection \<open>Claims: the globals\<close>

text \<open>C30: In every state the program reaches through the configuration operations, the
  cached user template is \<^verbatim>\<open>USER_GEN_TEMPLATE\<close> with \<^verbatim>\<open>{project}\<close> replaced by
  the configured target, and the cached system template is \<^verbatim>\<open>SYSTEM_GEN_TEMPLATE\<close>.\<close>

theorem reachable_templates_consistent: "reachable g \<Longrightarrow> templates_consistent g"
proof (induction rule: reachable.induct)
  case init
  then show ?case by (simp add: templates_consistent_def init_globals_def)
next
  case (step g op)
  from step.IH show ?case by (rule templates_consistent_config_step)
qed

theorem reachable_templates_consistent_witness:
  "templates_consistent (config_step GetUserGenTemplate (config_step (InitTest ''cJSON'') init_globals))"
  by (rule reachable_templates_consistent) (intro reachable.step reachable.init)

text \<open>C31: A one-shot global, once it holds a value, keeps that value through any sequence of
  configuration operations.\<close>

theorem globals_le_fold_config_step: "globals_le g (fold config_step ops g)"
proof (induction ops arbitrary: g)
  case Nil
  then show ?case by simp
next
  case (Cons op ops)
  then show ?case using globals_le_config_step globals_le_trans by fastforce
qed

text \<open>C32: After \<^verbatim>\<open>init_openai_env\<close> returns, each of the five getters of the OpenAI
  environment returns, without panicking, the value read from the process environment.\<close>

theorem init_openai_env_getters:
  assumes "init_openai_env pe g = (Inr (), g')"
  shows "\<exists>m. env_var pe ''OPENAI_MODEL_NAME'' = Some m \<and> get_openai_model_name g' = Inr m
    \<and> get_openai_input_price g' = Inr (Option.bind (env_var pe ''OPENAI_INPUT_PRICE'') (parse_float pe))
    \<and> get_openai_output_price g' = Inr (Option.bind (env_var pe ''OPENAI_OUTPUT_PRICE'') (parse_float pe))
    \<and> get_openai_context_limit g' = Inr (Option.bind (env_var pe ''OPENAI_CONTEXT_LIMIT'') parse_u32)
    \<and> get_openai_proxy g' = Inr (env_var pe ''OPENAI_PROXY_BASE'')"
  using assms
  by (elim init_openai_env_Inr)
    (simp add: get_openai_model_name_def get_openai_input_price_def get_openai_output_price_def
      get_openai_context_limit_def get_openai_proxy_def)

theorem init_openai_env_getters_witness:
  "\<exists>m. env_var example_process_env ''OPENAI_MODEL_NAME'' = Some m
     \<and> get_openai_model_name (snd (init_openai_env example_process_env init_globals)) = Inr m
     \<and> get_openai_input_price (snd (init_openai_env example_process_env init_globals)) = Inr (Some (15 / 10000))"
proof -
  have "init_openai_env example_process_env init_globals = (Inr (), snd (init_openai_env example_process_env init_globals))"
    by (simp add: init_openai_env_def example_process_env_def init_globals_def set_global_def bindS_def Let_def)
  from init_openai_env_getters [OF this] show ?thesis by (simp add: example_process_env_def)
qed

text \<open>A second \<^verbatim>\<open>init_openai_env\<close> always panics and changes no global.\<close>

theorem init_openai_env_twice:
  assumes "init_openai_env pe g = (Inr (), g')"
  shows "\<exists>msg. init_openai_env pe' g' = (Inl (Panic msg), g')"
proof -
  from assms obtain m where "g' = g\<lparr>openai_model_name := Init m,
           openai_input_price := Init (Option.bind (env_var pe ''OPENAI_INPUT_PRICE'') (parse_float pe)),
           openai_output_price := Init (Option.bind (env_var pe ''OPENAI_OUTPUT_PRICE'') (parse_float pe)),
           openai_context_limit := Init (Option.bind (env_var pe ''OPENAI_CONTEXT_LIMIT'') parse_u32),
           openai_proxy_base := Init (env_var pe ''OPENAI_PROXY_BASE'')\<rparr>"
    by (elim init_openai_env_Inr) simp
  then have "openai_model_name g' = Init m" by simp
  then show ?thesis
    by (auto simp: init_openai_env_def set_global_def bindS_def Let_def split: option.split)
qed

theorem init_openai_env_twice_witness:
  "\<exists>msg. init_openai_env example_process_env (snd (init_openai_env example_process_env init_globals))
     = (Inl (Panic msg), snd (init_openai_env example_process_env init_globals))"
proof -
  have "init_openai_env example_process_env init_globals = (Inr (), snd (init_openai_env example_process_env init_globals))"
    by (simp add: init_openai_env_def example_process_env_def init_globals_def set_global_def bindS_def Let_def)
  then show ?thesis by (rule init_openai_env_twice)
qed

text \<open>C33: \<^verbatim>\<open>parse_config\<close> stores the configuration before it checks the library's
  directories, so after any first call, successful or not, the configuration stays set and a
  second call panics.\<close>

theorem parse_config_twice:
  assumes "config_instance g = Uninit"
  shows "config_instance (snd (parse_config cfg dp g)) = Init cfg
    \<and> parse_config cfg' dp' (snd (parse_config cfg dp g)) = (Inl (Panic unwrap_err), snd (parse_config cfg dp g))"
  using assms by (simp add: parse_config_state parse_config_def set_global_def bindS_def)

theorem parse_config_twice_witness:
  "config_instance (snd (parse_config (default_config ''cJSON'') example_deopt init_globals)) = Init (default_config ''cJSON'')
   \<and> fst (parse_config (default_config ''cJSON'') example_deopt init_globals)
       = Inl (Error ''Cannot find the entry cJSON in `data` dir, please prepare it in anvance.'')
   \<and> parse_config (default_config ''cJSON'') example_deopt (snd (parse_config (default_config ''cJSON'') example_deopt init_globals))
       = (Inl (Panic unwrap_err), snd (parse_config (default_config ''cJSON'') example_deopt init_globals))"
proof -
  have "fst (parse_config (default_config ''cJSON'') example_deopt init_globals)
       = Inl (Error ''Cannot find the entry cJSON in `data` dir, please prepare it in anvance.'')"
    by (simp add: parse_config_def set_global_def bindS_def init_globals_def get_library_name_def get_config_def
        example_deopt_def default_config_def)
  with parse_config_twice [of init_globals] show ?thesis by (simp add: init_globals_def)
qed

text \<open>\<^verbatim>\<open>get_user_gen_template\<close>, whose substitution runs the match-index loop of
  \<^verbatim>\<open>str::replace\<close>, returns the cached template or else the reference replacement
  \<open>replace_str\<close> of \<^verbatim>\<open>{project}\<close> by the configured target in
  \<^verbatim>\<open>USER_GEN_TEMPLATE\<close>, and panics when the process is not configured.\<close>

theorem get_user_gen_template_reference:
  "fst (get_user_gen_template g) =
     (case gtemplate g of
        Init v \<Rightarrow> Inr v
      | Uninit \<Rightarrow> (case config_instance g of
                   Uninit \<Rightarrow> Inl (Panic unwrap_none)
                 | Init c \<Rightarrow> Inr (replace_str ''{project}'' (target c) USER_GEN_TEMPLATE)))"
  by (cases "gtemplate g"; cases "config_instance g")
    (simp_all add: get_user_gen_template_def get_config_def replace_eq_replace_str)

end
