(* ===== verification/Handler.thy ===== *)
theory Handler
  imports Config
begin

text \<open>
  The OpenAI handler of src/src/request/openai.rs as the rest of the program calls it:
  \<^verbatim>\<open>OpenAIHanler\<close> (lines 24--74), the request builders \<^verbatim>\<open>create_chat_request\<close>
  and \<^verbatim>\<open>create_infill_request\<close>, the client \<^verbatim>\<open>get_client\<close>, and the generators
  \<^verbatim>\<open>generate_programs_by_chat\<close>, \<^verbatim>\<open>generate_infills_by_request\<close> and
  \<^verbatim>\<open>generate_infills_by_chat\<close>. This is where the components meet: a request reads the
  configuration statics of \<open>Config\<close> (model name, sample count, temperature, proxy), and
  the billing of \<open>OpenAI\<close> reads the prices and the library name from them. The state is
  the statics, the billing counters and the \<^verbatim>\<open>CLIENT\<close> cell. The OpenAI service, the
  classification \<^verbatim>\<open>is_critical_err\<close> and the file side of the usage log are the record
  \<open>llm\<close>; \<^verbatim>\<open>Prompt\<close> (not in the sources) is given by its chat messages and the
  result of \<^verbatim>\<open>get_combination\<close>.
\<close>

subsection \<open>Requests and responses\<close>

text \<open>\<^verbatim>\<open>CreateChatCompletionRequest\<close> as built by lines 213--231.\<close>

record chat_request =
  req_model :: string
  req_messages :: "string list"
  req_n :: "8 word"
  req_temperature :: real
  req_stop :: "string option"

definition MAX_TOKENS :: "16 word" where
  "MAX_TOKENS = 2048"

text \<open>\<^verbatim>\<open>CreateCompletionRequest\<close> as built by lines 259--270.\<close>

record completion_request =
  cr_model :: string
  cr_prompt :: string
  cr_suffix :: string
  cr_max_tokens :: "16 word"
  cr_n :: "8 word"
  cr_temperature :: real

record completion_response =
  completion_texts :: "string list"

text \<open>A generated program: \<^verbatim>\<open>Program::new(content)\<close> with its combination set.\<close>

record llm_program =
  content :: string
  combination :: "string list"

record handler_state =
  glob :: globals
  bill :: billing
  client_base :: "string option once_cell"

record llm =
  chat_service :: "chat_request \<Rightarrow> nat \<Rightarrow> string + chat_response"
  complete_service :: "completion_request \<Rightarrow> nat \<Rightarrow> string + completion_response"
  classify_chat :: "string + chat_response \<Rightarrow> critical"
  classify_complete :: "string + completion_response \<Rightarrow> critical"
  usage_io :: usage_env
  runtime_builds :: bool

text \<open>
  The billing environment the code sees: \<^verbatim>\<open>get_usage_log_path\<close> first reads the library
  name (which panics on an unconfigured process), and \<^verbatim>\<open>count_billing\<close> reads the prices
  from the statics.
\<close>

definition usage_env_of :: "llm \<Rightarrow> globals \<Rightarrow> usage_env" where
  "usage_env_of L g =
     (usage_io L)\<lparr>usage_path := bindR (get_library_name g) (\<lambda>_. usage_path (usage_io L)),
                  input_price := get_openai_input_price g, output_price := get_openai_output_price g\<rparr>"

text \<open>Lines 213--231; \<^verbatim>\<open>build()\<close> cannot fail once model and messages are set.\<close>

definition create_chat_request :: "string list \<Rightarrow> string option \<Rightarrow> globals \<Rightarrow> chat_request result" where
  "create_chat_request msgs stop g =
     bindR (get_openai_model_name g) (\<lambda>model.
     bindR (get_sample_num g) (\<lambda>n.
     bindR (get_config g) (\<lambda>config.
       Inr \<lparr>req_model = model, req_messages = msgs, req_n = n, req_temperature = temperature config,
            req_stop = stop\<rparr>)))"

text \<open>Lines 259--270.\<close>

definition create_infill_request :: "string \<Rightarrow> string \<Rightarrow> globals \<Rightarrow> completion_request result" where
  "create_infill_request prefix suffix g =
     bindR (get_openai_model_name g) (\<lambda>model.
     bindR (get_sample_num g) (\<lambda>n.
     bindR (get_config g) (\<lambda>config.
       Inr \<lparr>cr_model = model, cr_prompt = prefix, cr_suffix = suffix, cr_max_tokens = MAX_TOKENS,
            cr_n = n, cr_temperature = temperature config\<rparr>)))"

text \<open>Lines 76--94: the client is built once, with the proxy of the statics.\<close>

definition get_client :: "handler_state \<Rightarrow> (string option, handler_state) outcome" where
  "get_client st =
     (let (r, c) = cell_get_or_init (get_openai_proxy (glob st)) (client_base st)
      in (r, st\<lparr>client_base := c\<rparr>))"

text \<open>An operation on the billing counters, run on the handler state.\<close>

definition on_bill :: "(billing \<Rightarrow> ('a, billing) outcome) \<Rightarrow> handler_state \<Rightarrow> ('a, handler_state) outcome" where
  "on_bill f st = (case f (bill st) of (r, b) \<Rightarrow> (r, st\<lparr>bill := b\<rparr>))"

text \<open>Lines 234--237 and 194--197: \<^verbatim>\<open>get_client().unwrap()\<close>, then the retry loop.\<close>

definition chat_call :: "llm \<Rightarrow> chat_request \<Rightarrow> handler_state \<Rightarrow> (chat_response, handler_state) outcome" where
  "chat_call L req st =
     bindS (get_client st) (\<lambda>_ st.
       on_bill (get_chat_response (usage_env_of L (glob st)) (classify_chat L) (chat_service L req)) st)"

definition complete_call :: "llm \<Rightarrow> completion_request \<Rightarrow> handler_state
                             \<Rightarrow> (completion_response, handler_state) outcome" where
  "complete_call L req st =
     bindS (get_client st) (\<lambda>_ st. get_complete_response (classify_complete L) (complete_service L req) st)"

subsection \<open>The generators\<close>

text \<open>Lines 273--276: the request is built, then the body of lines 277--289.\<close>

definition generate_programs :: "llm \<Rightarrow> string list \<Rightarrow> handler_state \<Rightarrow> (string list, handler_state) outcome" where
  "generate_programs L msgs st =
     bindS (create_chat_request msgs None (glob st), st) (\<lambda>request st.
     bindS (get_client st) (\<lambda>_ st.
       on_bill (generate_programs_by_chat (usage_env_of L (glob st)) (classify_chat L) (chat_service L request)) st))"

text \<open>Lines 291--303.\<close>

definition generate_infills_by_request :: "llm \<Rightarrow> string \<Rightarrow> string \<Rightarrow> handler_state
                                           \<Rightarrow> (string list, handler_state) outcome" where
  "generate_infills_by_request L prefix suffix st =
     bindS (create_infill_request prefix suffix (glob st), st) (\<lambda>request st.
     bindS (complete_call L request st) (\<lambda>respond st. (Inr (completion_texts respond), st)))"

text \<open>Lines 305--322.\<close>

definition generate_infills_by_chat :: "llm \<Rightarrow> string list \<Rightarrow> string option \<Rightarrow> handler_state
                                        \<Rightarrow> (string list, handler_state) outcome" where
  "generate_infills_by_chat L msgs stop st =
     bindS (create_chat_request msgs stop (glob st), st) (\<lambda>request st.
     bindS (chat_call L request st) (\<lambda>respond st. (Inr (map strip_code_wrapper (choices respond)), st)))"

subsection \<open>\<^verbatim>\<open>OpenAIHanler\<close>\<close>

text \<open>Lines 29--39: the tokio runtime, then \<^verbatim>\<open>load_openai_usage().unwrap()\<close>.\<close>

definition handler_default :: "llm \<Rightarrow> handler_state \<Rightarrow> handler_state result" where
  "handler_default L st =
     (if \<not> runtime_builds L then Inl (Panic ''Unable to build the openai runtime.'')
      else case load_openai_usage (usage_env_of L (glob st)) (bill st) of
        Inl (Panic m) \<Rightarrow> Inl (Panic m)
      | Inl (Error _) \<Rightarrow> Inl (Panic unwrap_err)
      | Inr b \<Rightarrow> Inr (st\<lparr>bill := b\<rparr>))"

text \<open>Lines 42--45.\<close>

definition handler_generate_by_str :: "string \<Rightarrow> handler_state \<Rightarrow> (string list, handler_state) outcome" where
  "handler_generate_by_str prefix st = (Inl (Panic ''not implemented: deprecated since no usage''), st)"

text \<open>
  Lines 47--57: the combination of the prompt is set on every program; its error is returned
  from the first iteration, so no program means no call.
\<close>

definition handler_generate :: "llm \<Rightarrow> string list \<Rightarrow> string list result \<Rightarrow> handler_state
                                \<Rightarrow> (llm_program list, handler_state) outcome" where
  "handler_generate L msgs comb st =
     bindS (generate_programs L msgs st) (\<lambda>programs st.
       (case programs of
          [] \<Rightarrow> Inr []
        | _ \<Rightarrow> bindR comb (\<lambda>c. Inr (map (\<lambda>p. \<lparr>content = p, combination = c\<rparr>) programs)), st))"

text \<open>Lines 59--62.\<close>

definition handler_infill_by_str :: "llm \<Rightarrow> string \<Rightarrow> string \<Rightarrow> handler_state
                                     \<Rightarrow> (string list, handler_state) outcome" where
  "handler_infill_by_str L prefix suffix st = generate_infills_by_request L prefix suffix st"

text \<open>Lines 64--73: \<open>kind\<close> is \<open>Some (prefix, suffix)\<close> for an infill prompt.\<close>

definition handler_infill :: "llm \<Rightarrow> string list \<Rightarrow> (string \<times> string) option \<Rightarrow> handler_state
                              \<Rightarrow> (string list, handler_state) outcome" where
  "handler_infill L msgs kind st =
     bindS (infill_stop kind, st) (\<lambda>stop st. generate_infills_by_chat L msgs stop st)"

subsection \<open>Example\<close>

text \<open>A configured process (model \<^verbatim>\<open>gpt-4\<close>, no prices, target \<^verbatim>\<open>cJSON\<close>) and a
  service whose first attempt times out and whose second returns \<open>example_response\<close>.\<close>

definition example_globals :: globals where
  "example_globals =
     init_globals\<lparr>openai_model_name := Init ''gpt-4'', openai_input_price := Init None,
       openai_output_price := Init None, openai_context_limit := Init None, openai_proxy_base := Init None,
       config_instance := Init (default_config ''cJSON'')\<rparr>"

definition example_llm :: llm where
  "example_llm =
     \<lparr>chat_service = \<lambda>_. example_respond, complete_service = \<lambda>_ _. Inl ''timed out'',
      classify_chat = example_classify, classify_complete = \<lambda>_. NonCritical, usage_io = example_env,
      runtime_builds = True\<rparr>"

definition example_handler_state :: handler_state where
  "example_handler_state = \<lparr>glob = example_globals, bill = example_billing, client_base = Uninit\<rparr>"

subsection \<open>Lemmas\<close>

lemma get_client_glob [simp]: "glob (snd (get_client st)) = glob st"
  by (simp add: get_client_def split: prod.split)

lemma on_bill_glob [simp]: "glob (snd (on_bill f st)) = glob st"
  by (simp add: on_bill_def split: prod.split)

lemma get_client_Inr:
  "fst (get_client st) = Inr c \<Longrightarrow> \<exists>cb. snd (get_client st) = st\<lparr>client_base := cb\<rparr>"
  by (auto simp: get_client_def split: prod.split)

lemma generate_programs_Inr:
  assumes "generate_programs L msgs st = (Inr progs, st')"
  shows "\<exists>req k resp. create_chat_request msgs None (glob st) = Inr req \<and> k < unat RETRY_N
    \<and> chat_service L req k = Inr resp \<and> classify_chat L (Inr resp) = Normal
    \<and> (\<forall>j < k. classify_chat L (chat_service L req j) = NonCritical)
    \<and> progs = map strip_code_wrapper (choices resp) \<and> glob st' = glob st"
proof -
  obtain req c st1 where req: "create_chat_request msgs None (glob st) = Inr req"
    and cl: "get_client st = (Inr c, st1)"
    and g: "on_bill (generate_programs_by_chat (usage_env_of L (glob st1)) (classify_chat L) (chat_service L req)) st1
              = (Inr progs, st')"
    using assms by (auto simp: generate_programs_def bindS_eq_Inr)
  have g1: "glob st1 = glob st" using get_client_glob [of st] cl by simp
  from g obtain b' resp where
    r: "get_chat_response (usage_env_of L (glob st1)) (classify_chat L) (chat_service L req) (bill st1) = (Inr resp, b')"
    and p: "progs = map strip_code_wrapper (choices resp)" and st': "glob st' = glob st1"
    by (auto simp: on_bill_def generate_programs_by_chat_def bindS_eq_Inr split: prod.splits)
  from retry_loop_Inr [OF r [unfolded get_chat_response_def]] obtain i where
    "i < unat RETRY_N" "chat_service L req i = Inr resp" "classify_chat L (Inr resp) = Normal"
    "\<forall>j < i. classify_chat L (chat_service L req j) = NonCritical"
    by auto
  with req p st' g1 show ?thesis by auto
qed

lemma chat_call_Inr:
  assumes "chat_call L req st = (Inr resp, st')"
  shows "\<exists>k < unat RETRY_N. chat_service L req k = Inr resp \<and> classify_chat L (Inr resp) = Normal
    \<and> (\<forall>j < k. classify_chat L (chat_service L req j) = NonCritical)"
proof -
  obtain c st1 where g: "on_bill (get_chat_response (usage_env_of L (glob st1)) (classify_chat L)
      (chat_service L req)) st1 = (Inr resp, st')"
    using assms by (auto simp: chat_call_def bindS_eq_Inr)
  then obtain b' where
    r: "get_chat_response (usage_env_of L (glob st1)) (classify_chat L) (chat_service L req) (bill st1) = (Inr resp, b')"
    by (auto simp: on_bill_def split: prod.splits)
  from retry_loop_Inr [OF r [unfolded get_chat_response_def]] show ?thesis
    by auto
qed

lemma create_chat_request_stop: "create_chat_request msgs stop g = Inr req \<Longrightarrow> req_stop req = stop"
  by (auto simp: create_chat_request_def bindR_eq_Inr)

lemma generate_infills_by_chat_Inr:
  assumes "generate_infills_by_chat L msgs stop st = (Inr ps, st')"
  shows "\<exists>req k resp. create_chat_request msgs stop (glob st) = Inr req \<and> k < unat RETRY_N
    \<and> chat_service L req k = Inr resp \<and> classify_chat L (Inr resp) = Normal
    \<and> (\<forall>j < k. classify_chat L (chat_service L req j) = NonCritical)
    \<and> ps = map strip_code_wrapper (choices resp)"
proof -
  obtain req resp st1 where req: "create_chat_request msgs stop (glob st) = Inr req"
    and c: "chat_call L req st = (Inr resp, st1)" and p: "ps = map strip_code_wrapper (choices resp)"
    using assms by (auto simp: generate_infills_by_chat_def bindS_eq_Inr)
  with chat_call_Inr [OF c] show ?thesis by blast
qed

subsection \<open>Claims\<close>

text \<open>C35: Once \<^verbatim>\<open>init_openai_env\<close> has succeeded on a fresh process and
  \<^verbatim>\<open>parse_config\<close> has run, whether or not its directory checks passed, a chat request
  builds without panicking, with the model from the environment and the sample count and
  temperature of the configuration.\<close>

theorem create_chat_request_configured:
  assumes "init_openai_env pe init_globals = (Inr (), g1)" "env_var pe ''OPENAI_MODEL_NAME'' = Some m"
  shows "create_chat_request msgs stop (snd (parse_config cfg dp g1))
       = Inr \<lparr>req_model = m, req_messages = msgs, req_n = n_sample cfg, req_temperature = temperature cfg,
              req_stop = stop\<rparr>"
proof -
  from assms(1) have g1: "g1 = init_globals\<lparr>openai_model_name := Init m,
           openai_input_price := Init (Option.bind (env_var pe ''OPENAI_INPUT_PRICE'') (parse_float pe)),
           openai_output_price := Init (Option.bind (env_var pe ''OPENAI_OUTPUT_PRICE'') (parse_float pe)),
           openai_context_limit := Init (Option.bind (env_var pe ''OPENAI_CONTEXT_LIMIT'') parse_u32),
           openai_proxy_base := Init (env_var pe ''OPENAI_PROXY_BASE'')\<rparr>"
    by (elim init_openai_env_Inr) (simp add: assms(2))
  show ?thesis
    by (simp add: g1 parse_config_state init_globals_def create_chat_request_def get_openai_model_name_def
        get_sample_num_def get_config_def)
qed

theorem create_chat_request_configured_witness:
  "create_chat_request [''hi''] None (snd (parse_config (default_config ''cJSON'') example_deopt
       (snd (init_openai_env example_process_env init_globals))))
     = Inr \<lparr>req_model = ''gpt-3.5-turbo'', req_messages = [''hi''], req_n = 10, req_temperature = 9 / 10,
            req_stop = None\<rparr>"
proof -
  have "init_openai_env example_process_env init_globals = (Inr (), snd (init_openai_env example_process_env init_globals))"
    by (simp add: init_openai_env_def example_process_env_def init_globals_def set_global_def bindS_def Let_def)
  from create_chat_request_configured [OF this, of "''gpt-3.5-turbo''" "[''hi'']" None "default_config ''cJSON''" example_deopt]
  show ?thesis by (simp add: example_process_env_def default_config_def)
qed

text \<open>C36: On a process whose OpenAI environment was never initialised, asking the handler for
  programs panics on the unset model name before any request is sent, leaving the billing
  counters, the client and the statics as they were.\<close>

theorem handler_generate_unconfigured:
  "openai_model_name (glob st) = Uninit \<Longrightarrow>
     handler_generate L msgs comb st = (Inl (Panic unwrap_none), st)"
  by (simp add: handler_generate_def generate_programs_def create_chat_request_def get_openai_model_name_def)

theorem handler_generate_unconfigured_witness:
  "handler_generate example_llm [''hi''] (Inr []) (example_handler_state\<lparr>glob := init_globals\<rparr>)
     = (Inl (Panic unwrap_none), example_handler_state\<lparr>glob := init_globals\<rparr>)"
  by (rule handler_generate_unconfigured) (simp add: init_globals_def)

text \<open>C37: An infill prompt whose suffix is shorter than ten bytes, or whose byte 10 lies
  inside a UTF-8 character, makes the handler panic on \<^verbatim>\<open>suffix[..10]\<close> before any
  request is sent, with the state unchanged; infills the handler returns are the stripped
  choices of the first normal response to a chat request whose stop sequence is the suffix's
  first ten bytes.\<close>

theorem handler_infill_stop:
  "(length suffix < 10 \<or> \<not> is_char_boundary suffix 10 \<longrightarrow>
      (\<exists>m. handler_infill L msgs (Some (prefix, suffix)) st = (Inl (Panic m), st)))
   \<and> (handler_infill L msgs (Some (prefix, suffix)) st = (Inr ps, st') \<longrightarrow>
      (\<exists>req k resp. create_chat_request msgs (Some (take 10 suffix)) (glob st) = Inr req
         \<and> req_stop req = Some (take 10 suffix) \<and> k < unat RETRY_N
         \<and> chat_service L req k = Inr resp \<and> classify_chat L (Inr resp) = Normal
         \<and> (\<forall>j < k. classify_chat L (chat_service L req j) = NonCritical)
         \<and> ps = map strip_code_wrapper (choices resp)))"
proof (intro conjI impI)
  assume "length suffix < 10 \<or> \<not> is_char_boundary suffix 10"
  then show "\<exists>m. handler_infill L msgs (Some (prefix, suffix)) st = (Inl (Panic m), st)"
    by (auto simp: handler_infill_def infill_stop_def)
next
  assume h: "handler_infill L msgs (Some (prefix, suffix)) st = (Inr ps, st')"
  then have "\<not> (length suffix < 10 \<or> \<not> is_char_boundary suffix 10)"
    by (auto simp: handler_infill_def infill_stop_def split: if_split_asm)
  then have "generate_infills_by_chat L msgs (Some (take 10 suffix)) st = (Inr ps, st')"
    using h by (simp add: handler_infill_def infill_stop_def)
  from generate_infills_by_chat_Inr [OF this] show "\<exists>req k resp. create_chat_request msgs (Some (take 10 suffix)) (glob st) = Inr req
         \<and> req_stop req = Some (take 10 suffix) \<and> k < unat RETRY_N
         \<and> chat_service L req k = Inr resp \<and> classify_chat L (Inr resp) = Normal
         \<and> (\<forall>j < k. classify_chat L (chat_service L req j) = NonCritical)
         \<and> ps = map strip_code_wrapper (choices resp)"
    by (blast dest: create_chat_request_stop)
qed

theorem handler_infill_stop_witness:
  "(\<exists>m. handler_infill example_llm [''hi''] (Some (''p'', ''abcdefghi'' @ [CHR 0xC3, CHR 0xA9]))
         example_handler_state = (Inl (Panic m), example_handler_state))
   \<and> (\<exists>req k resp. req_stop req = Some ''0123456789'' \<and> chat_service example_llm req k = Inr resp)"
proof -
  have b: "\<not> is_char_boundary (''abcdefghi'' @ [CHR 0xC3, CHR 0xA9]) 10"
    by (simp add: is_char_boundary_def)
  let ?r = "handler_infill example_llm [''hi''] (Some (''p'', ''0123456789abc'')) example_handler_state"
  have d: "digit_char (Suc 0) = CHR ''1''" "digit_char 2 = CHR ''2''" "digit_char 3 = CHR ''3''"
      "digit_char 4 = CHR ''4''"
    by (simp_all add: digit_char_def numeral_eq_Suc)
  have "fst ?r = Inr (map strip_code_wrapper (choices example_response))"
    by (simp add: handler_infill_def infill_stop_def is_char_boundary_def generate_infills_by_chat_def
        chat_call_def create_chat_request_def get_client_def on_bill_def
        get_chat_response_def upt_rec usage_env_of_def example_llm_def
        example_handler_state_def example_globals_def example_respond_def example_classify_def
        get_openai_model_name_def get_sample_num_def get_config_def get_openai_proxy_def get_library_name_def
        get_openai_input_price_def get_openai_output_price_def log_openai_usage_def example_env_def
        example_response_def example_billing_def u32_add_def count_billing_def usage_content_def
        word_string_def nat_string.simps d)
  then have "?r = (Inr (map strip_code_wrapper (choices example_response)), snd ?r)"
    by (metis prod.collapse)
  then have "\<exists>req k resp. req_stop req = Some (take 10 ''0123456789abc'')
      \<and> chat_service example_llm req k = Inr resp"
    using handler_infill_stop [of "''0123456789abc''" example_llm "[''hi'']" "''p''" example_handler_state] by blast
  moreover have "\<exists>m. handler_infill example_llm [''hi''] (Some (''p'', ''abcdefghi'' @ [CHR 0xC3, CHR 0xA9]))
         example_handler_state = (Inl (Panic m), example_handler_state)"
    using handler_infill_stop [of "''abcdefghi'' @ [CHR 0xC3, CHR 0xA9]" example_llm "[''hi'']" "''p''"
        example_handler_state] b by blast
  ultimately show ?thesis by simp
qed

text \<open>C34: Programs the handler returns are the stripped choices of the first response classified
  normal within the \<^verbatim>\<open>RETRY_N\<close> attempts at the request built from the configuration, each
  carrying the prompt's combination, which was computed only if there was a program; the
  configuration statics are unchanged.\<close>

theorem handler_generate_programs:
  assumes "handler_generate L msgs comb st = (Inr ps, st')"
  shows "\<exists>req k resp. create_chat_request msgs None (glob st) = Inr req \<and> k < unat RETRY_N
    \<and> chat_service L req k = Inr resp \<and> classify_chat L (Inr resp) = Normal
    \<and> (\<forall>j < k. classify_chat L (chat_service L req j) = NonCritical)
    \<and> map content ps = map strip_code_wrapper (choices resp)
    \<and> (ps = [] \<or> (\<exists>c. comb = Inr c \<and> list_all (\<lambda>p. combination p = c) ps))
    \<and> glob st' = glob st"
proof -
  obtain progs st1 where g: "generate_programs L msgs st = (Inr progs, st1)"
    and r: "(case progs of [] \<Rightarrow> Inr [] | _ \<Rightarrow> bindR comb (\<lambda>c. Inr (map (\<lambda>p. \<lparr>content = p, combination = c\<rparr>) progs)))
             = Inr ps" and st': "st' = st1"
    using assms by (auto simp: handler_generate_def bindS_eq_Inr)
  have "map content ps = progs \<and> (ps = [] \<or> (\<exists>c. comb = Inr c \<and> list_all (\<lambda>p. combination p = c) ps))"
    using r by (cases progs; cases comb) (auto simp: list_all_iff comp_def)
  with generate_programs_Inr [OF g] st' show ?thesis by auto
qed

theorem handler_generate_programs_witness:
  "\<exists>req k resp. k < unat RETRY_N \<and> chat_service example_llm req k = Inr resp \<and> length (choices resp) = 1"
proof -
  let ?r = "handler_generate example_llm [''hi''] (Inr [''cJSON_Parse'']) example_handler_state"
  have d: "digit_char (Suc 0) = CHR ''1''" "digit_char 2 = CHR ''2''" "digit_char 3 = CHR ''3''"
      "digit_char 4 = CHR ''4''"
    by (simp_all add: digit_char_def numeral_eq_Suc)
  have "fst ?r = Inr [\<lparr>content = strip_code_wrapper (hd (choices example_response)), combination = [''cJSON_Parse'']\<rparr>]"
    by (simp add: handler_generate_def generate_programs_def create_chat_request_def get_client_def on_bill_def
        generate_programs_by_chat_def get_chat_response_def upt_rec usage_env_of_def example_llm_def
        example_handler_state_def example_globals_def example_respond_def example_classify_def
        get_openai_model_name_def get_sample_num_def get_config_def get_openai_proxy_def get_library_name_def
        get_openai_input_price_def get_openai_output_price_def log_openai_usage_def example_env_def
        example_response_def example_billing_def u32_add_def count_billing_def usage_content_def
        word_string_def nat_string.simps d)
  then have "?r = (Inr [\<lparr>content = strip_code_wrapper (hd (choices example_response)), combination = [''cJSON_Parse'']\<rparr>],
                   snd ?r)" by (metis prod.collapse)
  from handler_generate_programs [OF this] show ?thesis by fastforce
qed

end
