(* ===== verification/Recheck.thy ===== *)
theory Recheck
  imports Supervisor
begin

text \<open>
  \<^verbatim>\<open>Executor::recheck_seed\<close> (src/src/execution/sanitize.rs, lines 312--340): after the
  fuzz loop's first convergence, every seed of the success directory is recompiled and run
  again on the shared corpus; a seed that now fails is archived with its error, removed from
  the success directory, and, when its file in the seed directory exists, removed from there
  and from the outer loop's seed queue. The state is the system state together with that
  queue. The operations of \<^verbatim>\<open>Deopt\<close> and \<^verbatim>\<open>Program\<close> it calls are not in the
  sources: the record \<open>recheck_env\<close> gives the directories, the program a seed file
  holds, and the result of \<^verbatim>\<open>compile_seed\<close>.
\<close>

record recheck_env =
  succ_seed_dir :: path
  seed_dir :: path
  err_dir :: path
  work_base :: path
  load_program :: "path \<Rightarrow> program result"
  compile_seed :: "nat \<Rightarrow> string option"

type_synonym 'f rstate = "'f sys \<times> program list"

text \<open>An operation on the system state, run on a state that pairs it with other data: the
  recheck queue here, the statics of the process in theory \<open>SanitizeTests\<close>.\<close>

definition on_sys :: "('f sys \<Rightarrow> ('a, 'f sys) outcome) \<Rightarrow> 'f sys \<times> 'b \<Rightarrow> ('a, 'f sys \<times> 'b) outcome" where
  "on_sys f st = (case f (fst st) of (r, s) \<Rightarrow> (r, (s, snd st)))"

text \<open>\<^verbatim>\<open>Path::exists\<close>.\<close>

definition fs_exists :: "path \<Rightarrow> fs \<Rightarrow> bool" where
  "fs_exists p m \<longleftrightarrow> m p \<noteq> None \<or>
     (case m (dirname p) of None \<Rightarrow> False | Some es \<Rightarrow> FileE (basename p) \<in> set es)"

text \<open>\<^verbatim>\<open>Deopt::get_seed_path_by_id\<close> and the file \<^verbatim>\<open>Deopt::save_err_program\<close> writes.\<close>

definition seed_path :: "recheck_env \<Rightarrow> nat \<Rightarrow> path" where
  "seed_path env n = child (seed_dir env) (seed_name n)"

definition err_path :: "recheck_env \<Rightarrow> nat \<Rightarrow> path" where
  "err_path env n = child (err_dir env) (seed_name n)"

text \<open>\<^verbatim>\<open>Deopt::delete_seed_from_queue\<close>: the queue loses the program's id.\<close>

definition delete_seed_from_queue :: "program \<Rightarrow> program list \<Rightarrow> program list" where
  "delete_seed_from_queue p q = filter (\<lambda>x. pid x \<noteq> pid p) q"

text \<open>Lines 328--334: a seed that now fails is archived and removed.\<close>

definition demote_seed :: "recheck_env \<Rightarrow> program \<Rightarrow> path \<Rightarrow> 'f rstate \<Rightarrow> (unit, 'f rstate) outcome" where
  "demote_seed env seed_program succ_seed st =
     (let seed = seed_path env (pid seed_program)
      in bindS (on_sys (fs_step (fs_write (err_path env (pid seed_program)))) st) (\<lambda>_ st.
         bindS (on_sys (fs_step (fs_remove_file succ_seed)) st) (\<lambda>_ st.
         if fs_exists seed (files (fst st))
         then bindS (on_sys (fs_step (fs_remove_file seed)) st) (\<lambda>_ st.
                (Inr (), (fst st, delete_seed_from_queue seed_program (snd st))))
         else (Inr (), st))))"

text \<open>Lines 318--335: the body of the loop, for one seed file.\<close>

definition recheck_one :: "('f, 'cov) toolchain \<Rightarrow> recheck_env \<Rightarrow> path \<Rightarrow> 'f rstate \<Rightarrow> (unit, 'f rstate) outcome" where
  "recheck_one tc env succ_seed st =
     bindS (load_program env succ_seed, st) (\<lambda>seed_program st.
     let seed_id = pid seed_program
     in bindS (io_check (compile_seed env seed_id), st) (\<lambda>_ st.
        bindS (on_sys (get_work_seed_by_id (work_base env) seed_id) st) (\<lambda>work_seed_path st.
        let binary_out = path_with_extension work_seed_path ''out'';
            has_err = execute_pool tc binary_out (shared (fst st))
        in case has_err of
             None \<Rightarrow> (Inr (), st)
           | Some err_msg \<Rightarrow> demote_seed env seed_program succ_seed st)))"

fun recheck_loop :: "('f, 'cov) toolchain \<Rightarrow> recheck_env \<Rightarrow> path list \<Rightarrow> 'f rstate \<Rightarrow> (unit, 'f rstate) outcome" where
  "recheck_loop tc env [] st = (Inr (), st)"
| "recheck_loop tc env (p # ps) st = bindS (recheck_one tc env p st) (\<lambda>_ st. recheck_loop tc env ps st)"

text \<open>Lines 314--340.\<close>

definition recheck_seed :: "('f, 'cov) toolchain \<Rightarrow> recheck_env \<Rightarrow> 'f rstate \<Rightarrow> (unit, 'f rstate) outcome" where
  "recheck_seed tc env st =
     bindS (read_sort_dir (succ_seed_dir env) (files (fst st)), st) (\<lambda>succ_seeds st.
       recheck_loop tc env (map (\<lambda>e. child (succ_seed_dir env) (ename e)) succ_seeds) st)"

subsection \<open>Specification\<close>

text \<open>The names of the regular files of a directory.\<close>

definition files_in :: "path \<Rightarrow> fs \<Rightarrow> string set" where
  "files_in d m = (case m d of None \<Rightarrow> {} | Some es \<Rightarrow> {n. FileE n \<in> set es})"

text \<open>A seed file still passes when the program it holds runs without error on the corpus.\<close>

definition seed_passes :: "('f, 'cov) toolchain \<Rightarrow> recheck_env \<Rightarrow> string list \<Rightarrow> string \<Rightarrow> bool" where
  "seed_passes tc env corpus n =
     (case load_program env (child (succ_seed_dir env) n) of
        Inl _ \<Rightarrow> True
      | Inr p \<Rightarrow> execute_pool tc (path_with_extension (work_seed (work_base env) (pid p)) ''out'') corpus = None)"

subsection \<open>Example\<close>

text \<open>Two seeds in the success directory; the program of the second now fails on the corpus,
  and its file in the seed directory is missing.\<close>

definition example_recheck_env :: recheck_env where
  "example_recheck_env =
     \<lparr>succ_seed_dir = ''succ'', seed_dir = ''seeds'', err_dir = ''err'', work_base = ''w'',
      load_program = \<lambda>p. if p = ''succ/a.cc'' then Inr \<lparr>pid = 1, code = ''a''\<rparr> else Inr \<lparr>pid = 2, code = ''b''\<rparr>,
      compile_seed = \<lambda>_. None\<rparr>"

definition example_recheck_toolchain :: "(nat, unit) toolchain" where
  "example_recheck_toolchain =
     example_toolchain\<lparr>execute_pool := \<lambda>b _. if b = ''w/2/id_000002.out'' then Some (Execute ''crash'') else None\<rparr>"

definition example_recheck_state :: "nat rstate" where
  "example_recheck_state =
     (\<lparr>files = [''succ'' \<mapsto> [FileE ''a.cc'', FileE ''b.cc''], ''seeds'' \<mapsto> [FileE ''id_000001.cc''],
                ''err'' \<mapsto> [], ''w'' \<mapsto> []],
       shared = [], gfeature = None, cost = \<lambda>_. []\<rparr>,
      [\<lparr>pid = 1, code = ''a''\<rparr>, \<lparr>pid = 2, code = ''b''\<rparr>])"

subsection \<open>One seed\<close>

lemma on_sys_fs_step:
  "on_sys (fs_step op) st = (case op (files (fst st)) of
      Inl e \<Rightarrow> (Inl e, st) | Inr m \<Rightarrow> (Inr (), ((fst st)\<lparr>files := m\<rparr>, snd st)))"
  by (simp add: on_sys_def fs_step_def split: sum.split)

lemma on_sys_get_work_seed_by_id:
  "on_sys (get_work_seed_by_id base n) st = (case fs_create_dir (work_dir base n) (files (fst st)) of
      Inl e \<Rightarrow> (Inl e, st) | Inr m \<Rightarrow> (Inr (work_seed base n), ((fst st)\<lparr>files := m\<rparr>, snd st)))"
  by (simp add: on_sys_def get_work_seed_by_id_def fs_step_def split: sum.split)

lemma demote_seed_Inr:
  assumes "demote_seed env p sp st = (Inr (), st')"
  shows "\<exists>m2 m3. fs_write (err_path env (pid p)) (files (fst st)) = Inr m2 \<and> fs_remove_file sp m2 = Inr m3
    \<and> (if fs_exists (seed_path env (pid p)) m3
       then \<exists>m4. fs_remove_file (seed_path env (pid p)) m3 = Inr m4
               \<and> st' = ((fst st)\<lparr>files := m4\<rparr>, delete_seed_from_queue p (snd st))
       else st' = ((fst st)\<lparr>files := m3\<rparr>, snd st))"
  using assms
  by (auto simp: demote_seed_def bindS_eq_Inr Let_def on_sys_fs_step split: sum.splits if_splits)

lemma recheck_one_Inr:
  assumes "recheck_one tc env sp st = (Inr (), st')"
  shows "\<exists>p m1. load_program env sp = Inr p \<and> compile_seed env (pid p) = None
    \<and> fs_create_dir (work_dir (work_base env) (pid p)) (files (fst st)) = Inr m1
    \<and> (case execute_pool tc (path_with_extension (work_seed (work_base env) (pid p)) ''out'') (shared (fst st)) of
         None \<Rightarrow> st' = ((fst st)\<lparr>files := m1\<rparr>, snd st)
       | Some _ \<Rightarrow> demote_seed env p sp ((fst st)\<lparr>files := m1\<rparr>, snd st) = (Inr (), st'))"
proof -
  obtain p where lp: "load_program env sp = Inr p"
    using assms by (cases "load_program env sp") (auto simp: recheck_one_def)
  have cs: "compile_seed env (pid p) = None"
    using assms lp by (cases "compile_seed env (pid p)") (auto simp: recheck_one_def)
  obtain m1 where m1: "fs_create_dir (work_dir (work_base env) (pid p)) (files (fst st)) = Inr m1"
    using assms lp cs
    by (cases "fs_create_dir (work_dir (work_base env) (pid p)) (files (fst st))")
      (auto simp: recheck_one_def on_sys_get_work_seed_by_id)
  have "(case execute_pool tc (path_with_extension (work_seed (work_base env) (pid p)) ''out'') (shared (fst st)) of
           None \<Rightarrow> (Inr (), ((fst st)\<lparr>files := m1\<rparr>, snd st))
         | Some _ \<Rightarrow> demote_seed env p sp ((fst st)\<lparr>files := m1\<rparr>, snd st)) = (Inr (), st')"
    using assms lp cs m1 by (simp add: recheck_one_def on_sys_get_work_seed_by_id)
  then show ?thesis using lp cs m1 by (auto split: option.splits)
qed

subsection \<open>The files of a directory under the file operations\<close>

lemma files_in_fs_write_other:
  "fs_write p m = Inr m' \<Longrightarrow> d \<noteq> dirname p \<Longrightarrow> files_in d m' = files_in d m \<and> (m' d = None \<longleftrightarrow> m d = None)"
  by (auto simp: fs_write_def files_in_def split: option.splits)

lemma files_in_fs_create_dir:
  "fs_create_dir p m = Inr m' \<Longrightarrow> m d \<noteq> None \<Longrightarrow> files_in d m' = files_in d m \<and> m' d \<noteq> None"
  by (auto simp: fs_create_dir_def files_in_def split: option.splits if_splits)

lemma files_in_fs_remove_file:
  "fs_remove_file p m = Inr m' \<Longrightarrow>
     files_in d m' = (if d = dirname p then files_in d m - {basename p} else files_in d m)
     \<and> (m' d = None \<longleftrightarrow> m d = None)"
  by (auto simp: fs_remove_file_def files_in_def split: option.splits if_splits)

lemma dirname_err_path [simp]: "dirname (err_path env n) = err_dir env"
  by (simp add: err_path_def)

lemma dirname_seed_path [simp]: "dirname (seed_path env n) = seed_dir env"
  by (simp add: seed_path_def)

lemma demote_seed_files_in:
  assumes "demote_seed env p (child d n) st = (Inr (), st')" "CHR ''/'' \<notin> set n"
    "err_dir env \<noteq> d" "seed_dir env \<noteq> d" "files (fst st) d \<noteq> None"
  shows "files_in d (files (fst st')) = files_in d (files (fst st)) - {n} \<and> files (fst st') d \<noteq> None
    \<and> shared (fst st') = shared (fst st)"
proof -
  from demote_seed_Inr [OF assms(1)] obtain m2 m3 where
    w: "fs_write (err_path env (pid p)) (files (fst st)) = Inr m2" and
    r: "fs_remove_file (child d n) m2 = Inr m3" and
    rest: "if fs_exists (seed_path env (pid p)) m3
       then \<exists>m4. fs_remove_file (seed_path env (pid p)) m3 = Inr m4
               \<and> st' = ((fst st)\<lparr>files := m4\<rparr>, delete_seed_from_queue p (snd st))
       else st' = ((fst st)\<lparr>files := m3\<rparr>, snd st)" by blast
  have m2: "files_in d m2 = files_in d (files (fst st))" "m2 d \<noteq> None"
    using files_in_fs_write_other [OF w, of d] assms(3,5) by auto
  have m3: "files_in d m3 = files_in d (files (fst st)) - {n}" "m3 d \<noteq> None"
    using files_in_fs_remove_file [OF r, of d] m2 assms(2) by auto
  show ?thesis
  proof (cases "fs_exists (seed_path env (pid p)) m3")
    case True
    with rest obtain m4 where r4: "fs_remove_file (seed_path env (pid p)) m3 = Inr m4"
      and st': "st' = ((fst st)\<lparr>files := m4\<rparr>, delete_seed_from_queue p (snd st))" by auto
    show ?thesis using files_in_fs_remove_file [OF r4, of d] m3 assms(4) st' by auto
  next
    case False
    with rest m3 show ?thesis by simp
  qed
qed

lemma recheck_one_files_in:
  assumes "recheck_one tc env (child d n) st = (Inr (), st')" "d = succ_seed_dir env"
    "files (fst st) d \<noteq> None" "CHR ''/'' \<notin> set n" "err_dir env \<noteq> d" "seed_dir env \<noteq> d"
  shows "files_in d (files (fst st')) =
      (if seed_passes tc env (shared (fst st)) n then files_in d (files (fst st)) else files_in d (files (fst st)) - {n})
    \<and> files (fst st') d \<noteq> None \<and> shared (fst st') = shared (fst st)"
proof -
  from recheck_one_Inr [OF assms(1)] obtain p m1 where
    lp: "load_program env (child d n) = Inr p" and
    m1: "fs_create_dir (work_dir (work_base env) (pid p)) (files (fst st)) = Inr m1" and
    rest: "case execute_pool tc (path_with_extension (work_seed (work_base env) (pid p)) ''out'') (shared (fst st)) of
         None \<Rightarrow> st' = ((fst st)\<lparr>files := m1\<rparr>, snd st)
       | Some _ \<Rightarrow> demote_seed env p (child d n) ((fst st)\<lparr>files := m1\<rparr>, snd st) = (Inr (), st')" by blast
  have f1: "files_in d m1 = files_in d (files (fst st))" "m1 d \<noteq> None"
    using files_in_fs_create_dir [OF m1 assms(3)] by auto
  have pass: "seed_passes tc env (shared (fst st)) n \<longleftrightarrow>
      execute_pool tc (path_with_extension (work_seed (work_base env) (pid p)) ''out'') (shared (fst st)) = None"
    using lp assms(2) by (simp add: seed_passes_def)
  show ?thesis
  proof (cases "execute_pool tc (path_with_extension (work_seed (work_base env) (pid p)) ''out'') (shared (fst st))")
    case None
    with rest f1 pass show ?thesis by simp
  next
    case (Some err)
    with rest have "demote_seed env p (child d n) ((fst st)\<lparr>files := m1\<rparr>, snd st) = (Inr (), st')" by simp
    from demote_seed_files_in [OF this assms(4,5,6)] f1 pass Some show ?thesis by simp
  qed
qed

lemma recheck_loop_files_in:
  assumes "recheck_loop tc env (map (child d) ns) st = (Inr (), st')" "d = succ_seed_dir env"
    "files (fst st) d \<noteq> None" "list_all (\<lambda>n. CHR ''/'' \<notin> set n) ns" "err_dir env \<noteq> d" "seed_dir env \<noteq> d"
  shows "files_in d (files (fst st')) = files_in d (files (fst st)) - {n \<in> set ns. \<not> seed_passes tc env (shared (fst st)) n}
    \<and> shared (fst st') = shared (fst st)"
  using assms(1,3,4)
proof (induction ns arbitrary: st)
  case Nil
  then show ?case by simp
next
  case (Cons n ns)
  from Cons.prems(1) obtain st1 where one: "recheck_one tc env (child d n) st = (Inr (), st1)"
    and rest: "recheck_loop tc env (map (child d) ns) st1 = (Inr (), st')"
    by (auto simp: bindS_eq_Inr)
  from recheck_one_files_in [OF one assms(2) Cons.prems(2) _ assms(5,6)] Cons.prems(3)
  have s1: "files_in d (files (fst st1)) = (if seed_passes tc env (shared (fst st)) n
             then files_in d (files (fst st)) else files_in d (files (fst st)) - {n})"
    "files (fst st1) d \<noteq> None" "shared (fst st1) = shared (fst st)" by simp_all
  from Cons.IH [OF rest s1(2)] Cons.prems(3) s1 show ?case by auto
qed

subsection \<open>Whether a path exists\<close>

lemma fs_exists_fs_create_dir:
  "fs_create_dir q m = Inr m' \<Longrightarrow> q \<noteq> p \<Longrightarrow> fs_exists p m' = fs_exists p m"
  by (auto simp: fs_create_dir_def fs_exists_def split: option.splits if_splits)

lemma fs_exists_fs_write_other:
  "fs_write q m = Inr m' \<Longrightarrow> dirname q \<noteq> dirname p \<Longrightarrow> fs_exists p m' = fs_exists p m"
  by (auto simp: fs_write_def fs_exists_def split: option.splits if_splits)

lemma fs_exists_fs_remove_file_other:
  "fs_remove_file q m = Inr m' \<Longrightarrow> dirname q \<noteq> dirname p \<Longrightarrow> fs_exists p m' = fs_exists p m"
  by (auto simp: fs_remove_file_def fs_exists_def split: option.splits if_splits)

lemma seed_name_neq_nat_string: "seed_name m \<noteq> nat_string n"
proof
  assume eq: "seed_name m = nat_string n"
  have "CHR ''i'' \<in> set (seed_name m)" by (simp add: seed_name_def)
  with eq have "char_digit (CHR ''i'') \<noteq> None" by (simp add: nat_string_char_digit)
  then show False by (simp add: char_digit_def)
qed

lemma work_dir_neq_seed_path: "work_dir base n \<noteq> seed_path env m"
proof
  assume "work_dir base n = seed_path env m"
  then have "basename (work_dir base n) = basename (seed_path env m)" by simp
  then show False by (simp add: work_dir_def seed_path_def seed_name_neq_nat_string [symmetric])
qed

lemma demote_seed_queue:
  assumes "demote_seed env p sp st = (Inr (), st')" "err_dir env \<noteq> seed_dir env" "dirname sp \<noteq> seed_dir env"
  shows "snd st' = (if fs_exists (seed_path env (pid p)) (files (fst st)) then delete_seed_from_queue p (snd st) else snd st)"
proof -
  from demote_seed_Inr [OF assms(1)] obtain m2 m3 where
    w: "fs_write (err_path env (pid p)) (files (fst st)) = Inr m2" and
    r: "fs_remove_file sp m2 = Inr m3" and
    rest: "if fs_exists (seed_path env (pid p)) m3
       then \<exists>m4. fs_remove_file (seed_path env (pid p)) m3 = Inr m4
               \<and> st' = ((fst st)\<lparr>files := m4\<rparr>, delete_seed_from_queue p (snd st))
       else st' = ((fst st)\<lparr>files := m3\<rparr>, snd st)" by blast
  have "fs_exists (seed_path env (pid p)) m3 = fs_exists (seed_path env (pid p)) (files (fst st))"
    using fs_exists_fs_write_other [OF w] fs_exists_fs_remove_file_other [OF r] assms(2,3) by simp
  with rest show ?thesis by (auto split: if_splits)
qed

subsection \<open>Claims\<close>

text \<open>C28: A successful recheck leaves in the success directory exactly the seeds whose
  programs still run without error on the shared corpus, and leaves the shared corpus as it
  was, when the error archive and the seed directory are other directories.\<close>

theorem recheck_seed_filters:
  assumes "recheck_seed tc env st = (Inr (), st')" "names_inv (files (fst st))"
    "err_dir env \<noteq> succ_seed_dir env" "seed_dir env \<noteq> succ_seed_dir env"
  shows "files_in (succ_seed_dir env) (files (fst st')) =
           {n \<in> files_in (succ_seed_dir env) (files (fst st)). seed_passes tc env (shared (fst st)) n}
    \<and> shared (fst st') = shared (fst st)"
proof -
  from assms(1) obtain es where es: "files (fst st) (succ_seed_dir env) = Some es"
    and loop: "recheck_loop tc env (map (child (succ_seed_dir env)) (map ename es)) st = (Inr (), st')"
    by (auto simp: recheck_seed_def read_sort_dir_def bindS_eq_Inr comp_def split: option.splits)
  have sf: "list_all (\<lambda>n. CHR ''/'' \<notin> set n) (map ename es)"
    using names_invD [OF assms(2) es] by (simp add: slash_free_def list_all_iff)
  from recheck_loop_files_in [OF loop refl _ sf assms(3,4)] es
  have "files_in (succ_seed_dir env) (files (fst st')) = files_in (succ_seed_dir env) (files (fst st))
          - {n \<in> set (map ename es). \<not> seed_passes tc env (shared (fst st)) n}"
    "shared (fst st') = shared (fst st)" by simp_all
  moreover have "files_in (succ_seed_dir env) (files (fst st)) \<subseteq> set (map ename es)"
    using es by (force simp: files_in_def)
  ultimately show ?thesis by auto
qed

theorem recheck_seed_filters_witness:
  "fst (recheck_seed example_recheck_toolchain example_recheck_env example_recheck_state) = Inr ()
   \<and> files_in (succ_seed_dir example_recheck_env)
       (files (fst (snd (recheck_seed example_recheck_toolchain example_recheck_env example_recheck_state))))
     = {n \<in> files_in (succ_seed_dir example_recheck_env) (files (fst example_recheck_state)).
          seed_passes example_recheck_toolchain example_recheck_env (shared (fst example_recheck_state)) n}"
proof -
  let ?r = "recheck_seed example_recheck_toolchain example_recheck_env example_recheck_state"
  have r: "fst ?r = Inr ()"
    by (simp add: recheck_seed_def recheck_one_def demote_seed_def on_sys_fs_step on_sys_get_work_seed_by_id
        example_recheck_env_def example_recheck_state_def example_recheck_toolchain_def
        get_work_seed_by_id_def work_seed_def work_dir_def seed_name_def digit_char_def seed_path_def
        err_path_def fs_exists_def path_eval fs_eval numeral_eq_Suc)
  then have eq: "?r = (Inr (), snd ?r)" by (metis prod.collapse)
  have inv: "names_inv (files (fst example_recheck_state))"
    by (auto simp: names_inv_def slash_free_def example_recheck_state_def)
  have d: "err_dir example_recheck_env \<noteq> succ_seed_dir example_recheck_env"
      "seed_dir example_recheck_env \<noteq> succ_seed_dir example_recheck_env"
    by (simp_all add: example_recheck_env_def)
  from recheck_seed_filters [OF eq inv d] r show ?thesis by simp
qed

text \<open>C29: A seed that now fails is dropped from the outer loop's seed queue only when its
  file in the seed directory exists; otherwise it stays queued although it was archived as
  an error.\<close>

theorem recheck_one_queue:
  assumes "recheck_one tc env sp st = (Inr (), st')" "load_program env sp = Inr p"
    "execute_pool tc (path_with_extension (work_seed (work_base env) (pid p)) ''out'') (shared (fst st)) \<noteq> None"
    "err_dir env \<noteq> seed_dir env" "dirname sp \<noteq> seed_dir env"
  shows "snd st' = (if fs_exists (seed_path env (pid p)) (files (fst st))
                    then delete_seed_from_queue p (snd st) else snd st)"
proof -
  from recheck_one_Inr [OF assms(1)] assms(2) obtain m1 where
    m1: "fs_create_dir (work_dir (work_base env) (pid p)) (files (fst st)) = Inr m1" and
    d: "demote_seed env p sp ((fst st)\<lparr>files := m1\<rparr>, snd st) = (Inr (), st')"
    using assms(3) by (auto split: option.splits)
  have "fs_exists (seed_path env (pid p)) m1 = fs_exists (seed_path env (pid p)) (files (fst st))"
    using fs_exists_fs_create_dir [OF m1 work_dir_neq_seed_path] .
  with demote_seed_queue [OF d assms(4,5)] show ?thesis by simp
qed

theorem recheck_one_queue_witness:
  "recheck_one example_recheck_toolchain example_recheck_env ''succ/b.cc'' example_recheck_state
     = (Inr (), snd (recheck_one example_recheck_toolchain example_recheck_env ''succ/b.cc'' example_recheck_state))
   \<and> snd (snd (recheck_one example_recheck_toolchain example_recheck_env ''succ/b.cc'' example_recheck_state))
     = [\<lparr>pid = 1, code = ''a''\<rparr>, \<lparr>pid = 2, code = ''b''\<rparr>]"
proof -
  let ?r = "recheck_one example_recheck_toolchain example_recheck_env ''succ/b.cc'' example_recheck_state"
  have r: "fst ?r = Inr ()"
    by (simp add: recheck_one_def demote_seed_def on_sys_fs_step on_sys_get_work_seed_by_id
        example_recheck_env_def example_recheck_state_def example_recheck_toolchain_def
        get_work_seed_by_id_def work_seed_def work_dir_def seed_name_def digit_char_def seed_path_def
        err_path_def fs_exists_def path_eval fs_eval numeral_eq_Suc)
  then have eq: "?r = (Inr (), snd ?r)" by (metis prod.collapse)
  have h: "load_program example_recheck_env ''succ/b.cc'' = Inr \<lparr>pid = 2, code = ''b''\<rparr>"
    "execute_pool example_recheck_toolchain (path_with_extension (work_seed (work_base example_recheck_env)
       (pid \<lparr>pid = 2, code = ''b''\<rparr>)) ''out'') (shared (fst example_recheck_state)) \<noteq> None"
    "err_dir example_recheck_env \<noteq> seed_dir example_recheck_env"
    "dirname ''succ/b.cc'' \<noteq> seed_dir example_recheck_env"
    "\<not> fs_exists (seed_path example_recheck_env (pid \<lparr>pid = 2, code = ''b''\<rparr>)) (files (fst example_recheck_state))"
    by (simp_all add: example_recheck_env_def example_recheck_state_def example_recheck_toolchain_def
        work_seed_def work_dir_def seed_name_def digit_char_def seed_path_def fs_exists_def path_eval numeral_eq_Suc)
  from recheck_one_queue [OF eq h(1-4)] h(5) eq show ?thesis by (simp add: example_recheck_state_def)
qed

end
