(* ===== verification/SanitizeTests.thy ===== *)
theory SanitizeTests
  imports Config Recheck
begin

text \<open>
  The test module of src/src/execution/sanitize.rs (lines 395--472). A test runs in the
  process of the test binary: it initialises \<^verbatim>\<open>CONFIG_INSTANCE\<close> with
  \<^verbatim>\<open>Config::init_test\<close>, builds a \<^verbatim>\<open>Deopt\<close> and an \<^verbatim>\<open>Executor\<close>,
  copies a program of the crate's test suite into a work directory and runs the
  sanitization pipeline of theory \<open>Pipeline\<close> on it. The state is the system state
  together with the statics of theory \<open>Config\<close>. \<^verbatim>\<open>Deopt::new\<close>,
  \<^verbatim>\<open>Executor::new\<close> and \<^verbatim>\<open>Deopt::get_crate_dir\<close> are not in the sources: the record
  \<open>test_env\<close> gives their results, \<^verbatim>\<open>Deopt::new\<close> by the base of the work
  directories. A test program's content is what the toolchain answers for the work path it
  was copied to. A failed \<^verbatim>\<open>assert!\<close> or \<^verbatim>\<open>panic!\<close> is a \<open>Panic\<close>, an
  \<^verbatim>\<open>Err\<close> returned by \<^verbatim>\<open>?\<close> an \<open>Error\<close>; either fails the test.
\<close>

record test_env =
  crate_dir :: "path result"
  deopt_new :: "string \<Rightarrow> path result"
  executor_new :: "unit result"

type_synonym 'f tstate = "'f sys \<times> globals"

text \<open>\<^verbatim>\<open>std::fs::copy\<close>: the source must be an existing file, the target's directory must
  exist.\<close>

definition fs_copy :: "path \<Rightarrow> path \<Rightarrow> fs \<Rightarrow> fs result" where
  "fs_copy src dst m =
     (case m (dirname src) of
        Some es \<Rightarrow> if FileE (basename src) \<in> set es then fs_write dst m
                   else Inl (Error ''No such file or directory'')
      | None \<Rightarrow> Inl (Error ''No such file or directory''))"

text \<open>\<^verbatim>\<open>[a, b, c].iter().collect::<PathBuf>()\<close>: each component pushed in turn.\<close>

definition collect_path :: "path \<Rightarrow> string list \<Rightarrow> path" where
  "collect_path base ns = foldl child base ns"

text \<open>\<^verbatim>\<open>Config::init_test(t)\<close> on the statics of the test process.\<close>

definition on_test_config :: "string \<Rightarrow> 'f tstate \<Rightarrow> 'f tstate" where
  "on_test_config t st = (fst st, init_test t (snd st))"

text \<open>Lines 417--419 (and 432--434): a test program is copied to the work path of an id and
  checked there.\<close>

definition check_test_program :: "('f, 'cov) toolchain \<Rightarrow> path \<Rightarrow> path \<Rightarrow> nat \<Rightarrow> 'f sys
                                    \<Rightarrow> (verdict, 'f sys) outcome" where
  "check_test_program tc base program_path n s =
     bindS (get_work_seed_by_id base n s) (\<lambda>work_path s.
     bindS (fs_step (fs_copy program_path work_path) s) (\<lambda>_ s.
       check_program_is_correct tc work_path s))"

text \<open>\<^verbatim>\<open>test_coverage_sanitize\<close> (lines 402--443).\<close>

definition test_coverage_sanitize :: "test_env \<Rightarrow> ('f, 'cov) toolchain \<Rightarrow> 'f tstate
                                        \<Rightarrow> (unit, 'f tstate) outcome" where
  "test_coverage_sanitize E tc st =
     (let st = on_test_config ''cJSON'' st
      in bindS (deopt_new E ''cJSON'', st) (\<lambda>base st.
         bindS (executor_new E, st) (\<lambda>_ st.
         bindS (crate_dir E, st) (\<lambda>crate st.
         let cov_succ_program_path = collect_path crate [''testsuites'', ''sanitize'', ''cjson_cov_succ.cc'']
         in bindS (on_sys (check_test_program tc base cov_succ_program_path 99999) st) (\<lambda>has_err st.
         if has_err \<noteq> None then (Inl (Panic ''assertion failed: has_err.is_none()''), st)
         else bindS (crate_dir E, st) (\<lambda>crate st.
         let cov_fail_program_path = collect_path crate [''testsuites'', ''sanitize'', ''cjson_cov_fail.cc'']
         in bindS (on_sys (check_test_program tc base cov_fail_program_path 888888) st) (\<lambda>has_err st.
            case has_err of
              None \<Rightarrow> (Inl (Panic ''assertion failed: has_err.is_some()''), st)
            | Some err \<Rightarrow>
                (case err of
                   Coverage _ \<Rightarrow> (Inr (), st)
                 | _ \<Rightarrow> (Inl (Panic ''Should not fail on other sanitization''), st)))))))))"

text \<open>\<^verbatim>\<open>test_sanitization_for_a_program\<close> (lines 445--459): the verdict is only printed.\<close>

definition test_sanitization_for_a_program :: "test_env \<Rightarrow> ('f, 'cov) toolchain \<Rightarrow> 'f tstate
                                                 \<Rightarrow> (unit, 'f tstate) outcome" where
  "test_sanitization_for_a_program E tc st =
     (let st = on_test_config ''cJSON'' st
      in bindS (deopt_new E ''cJSON'', st) (\<lambda>base st.
         bindS (crate_dir E, st) (\<lambda>crate st.
         let program_path = collect_path crate [''testsuites'', ''new_test.cc'']
         in bindS (on_sys (get_work_seed_by_id base 3) st) (\<lambda>work_path st.
         bindS (on_sys (fs_step (fs_copy program_path work_path)) st) (\<lambda>_ st.
         bindS (executor_new E, st) (\<lambda>_ st.
         bindS (on_sys (check_program_is_correct tc work_path) st) (\<lambda>res st. (Inr (), st))))))))"

text \<open>\<^verbatim>\<open>test_corpus_evoluation\<close> (lines 461--470): no program is copied to the work path.\<close>

definition test_corpus_evoluation :: "test_env \<Rightarrow> ('f, 'cov) toolchain \<Rightarrow> 'f tstate
                                        \<Rightarrow> (unit, 'f tstate) outcome" where
  "test_corpus_evoluation E tc st =
     (let st = on_test_config ''cJSON'' st
      in bindS (deopt_new E ''cJSON'', st) (\<lambda>base st.
         bindS (on_sys (get_work_seed_by_id base 61) st) (\<lambda>work_path st.
         bindS (executor_new E, st) (\<lambda>_ st.
         bindS (on_sys (evolve_corpus tc work_path) st) (\<lambda>res st. (Inr (), st))))))"

subsection \<open>Example\<close>

text \<open>The crate \<^verbatim>\<open>c\<close> with the two coverage test programs, an empty work base
  \<^verbatim>\<open>w\<close>, and a toolchain whose coverage check fails exactly on the work path of
  id 888888.\<close>

definition example_test_env :: test_env where
  "example_test_env = \<lparr>crate_dir = Inr ''c'', deopt_new = \<lambda>_. Inr ''w'', executor_new = Inr ()\<rparr>"

definition example_test_toolchain :: "(nat, unit) toolchain" where
  "example_test_toolchain =
     example_toolchain\<lparr>sanitize_by_fuzzer_coverage := \<lambda>p _. Inr (p = ''w/888888/id_888888.cc'')\<rparr>"

definition example_test_state :: "nat tstate" where
  "example_test_state =
     (\<lparr>files = [''c/testsuites/sanitize'' \<mapsto> [FileE ''cjson_cov_succ.cc'', FileE ''cjson_cov_fail.cc''],
                ''w'' \<mapsto> []],
       shared = [], gfeature = None, cost = \<lambda>_. []\<rparr>, init_globals)"


subsection \<open>Running a test program\<close>

lemma fs_copy_keeps: "fs_copy a b m = Inr m' \<Longrightarrow> m k \<noteq> None \<Longrightarrow> m' k \<noteq> None"
  by (auto simp: fs_copy_def fs_write_def split: option.split_asm if_split_asm)

lemma get_work_seed_by_id_Inr:
  "get_work_seed_by_id base n s = (Inr p, s1) \<Longrightarrow> p = work_seed base n \<and> cost s1 = cost s
     \<and> files s1 (work_dir base n) \<noteq> None \<and> (files s k \<noteq> None \<longrightarrow> files s1 k \<noteq> None)"
  by (auto simp: get_work_seed_by_id_def fs_step_def fs_create_dir_def
      split: sum.split_asm option.split_asm if_split_asm)

lemma fs_step_Inr: "fs_step op s = (Inr u, s1) \<Longrightarrow> \<exists>m. op (files s) = Inr m \<and> s1 = s\<lparr>files := m\<rparr>"
  by (auto simp: fs_step_def split: sum.split_asm)

lemma check_test_program_Inr:
  assumes "check_test_program tc base src n s = (Inr v, s')"
  shows "\<exists>s1. check_program_is_correct tc (work_seed base n) s1 = (Inr v, s') \<and> cost s1 = cost s
    \<and> files s1 (work_dir base n) \<noteq> None \<and> (files s k \<noteq> None \<longrightarrow> files s1 k \<noteq> None)"
proof -
  from assms obtain p s0 u s1 where g: "get_work_seed_by_id base n s = (Inr p, s0)"
    and cp: "fs_step (fs_copy src p) s0 = (Inr u, s1)" and ck: "check_program_is_correct tc p s1 = (Inr v, s')"
    by (auto simp: check_test_program_def bindS_eq_Inr)
  from cp obtain m where m: "fs_copy src p (files s0) = Inr m" "s1 = s0\<lparr>files := m\<rparr>"
    by (blast dest: fs_step_Inr)
  from g have "p = work_seed base n" "cost s0 = cost s" "files s0 (work_dir base n) \<noteq> None"
    "files s k \<noteq> None \<longrightarrow> files s0 k \<noteq> None"
    by (blast dest: get_work_seed_by_id_Inr)+
  with m ck show ?thesis
    by (intro exI [of _ s1]) (auto dest: fs_copy_keeps)
qed

lemma test_coverage_sanitize_Inr:
  assumes "test_coverage_sanitize E tc st = (Inr (), st')"
  obtains base crate s1 m where "deopt_new E ''cJSON'' = Inr base" "executor_new E = Inr ()"
    "crate_dir E = Inr crate"
    "check_test_program tc base (collect_path crate [''testsuites'', ''sanitize'', ''cjson_cov_succ.cc'']) 99999
       (fst st) = (Inr None, s1)"
    "check_test_program tc base (collect_path crate [''testsuites'', ''sanitize'', ''cjson_cov_fail.cc'']) 888888
       s1 = (Inr (Some (Coverage m)), fst st')"
    "snd st' = init_test ''cJSON'' (snd st)"
proof -
  note defs = test_coverage_sanitize_def Let_def on_sys_def on_test_config_def
  obtain base where b: "deopt_new E ''cJSON'' = Inr base"
    using assms by (cases "deopt_new E ''cJSON''") (simp_all add: defs)
  have x: "executor_new E = Inr ()"
    using assms b by (cases "executor_new E") (simp_all add: defs)
  obtain crate where c: "crate_dir E = Inr crate"
    using assms b x by (cases "crate_dir E") (simp_all add: defs)
  obtain r1 s1 where c1: "check_test_program tc base
      (collect_path crate [''testsuites'', ''sanitize'', ''cjson_cov_succ.cc'']) 99999 (fst st) = (r1, s1)"
    by (meson prod.exhaust)
  obtain r2 s2 where c2: "check_test_program tc base
      (collect_path crate [''testsuites'', ''sanitize'', ''cjson_cov_fail.cc'']) 888888 s1 = (r2, s2)"
    by (meson prod.exhaust)
  have r1: "r1 = Inr None"
    using assms b x c c1 by (cases r1) (auto simp: defs split: if_split_asm)
  have "\<exists>m. r2 = Inr (Some (Coverage m)) \<and> st' = (s2, init_test ''cJSON'' (snd st))"
    using assms b x c c1 c2 r1
    by (cases r2) (auto simp: defs split: option.split_asm program_error.split_asm)
  with b x c c1 c2 r1 show ?thesis
    using that by auto
qed

lemma nat_string_test_ids: "nat_string 99999 = ''99999''" "nat_string 888888 = ''888888''" "nat_string 61 = ''61''"
  by (simp_all add: nat_string.simps digit_char_def)

lemma seed_name_test_ids: "seed_name 99999 = ''id_099999.cc''" "seed_name 888888 = ''id_888888.cc''"
  "seed_name 61 = ''id_000061.cc''"
  by (simp_all add: seed_name_def nat_string_test_ids) (simp add: numeral_eq_Suc)

lemma test_work_dirs_apart:
  "work_dir base 99999 \<noteq> work_dir base 888888"
  "work_dir base 99999 \<noteq> child (work_dir base 888888) ''corpus''"
  "\<not> below (child (work_dir base 888888) ''corpus'') (work_dir base 99999)"
  "work_dir base 888888 \<noteq> child (work_dir base 99999) ''corpus''"
  "\<not> below (child (work_dir base 99999) ''corpus'') (work_dir base 888888)"
  by (simp_all add: work_dir_def nat_string_test_ids child_def below_def)


subsection \<open>The corpus-evolution test\<close>

lemma write_file_absent:
  "m d = Some es \<Longrightarrow> FileE f \<notin> set es \<Longrightarrow> (d = dirname q \<Longrightarrow> f \<noteq> basename q)
     \<Longrightarrow> \<exists>es'. write_file q m d = Some es' \<and> FileE f \<notin> set es'"
  by (auto simp: write_file_def fs_write_def split: option.split)

lemma fs_remove_file_absent:
  "fs_remove_file q m = Inr m' \<Longrightarrow> m d = Some es \<Longrightarrow> FileE f \<notin> set es
     \<Longrightarrow> \<exists>es'. m' d = Some es' \<and> FileE f \<notin> set es'"
  by (auto simp: fs_remove_file_def split: option.split_asm if_split_asm)

lemma admit_interesting_files:
  "admit_interesting tc d g cfs s = (Inr u, s') \<Longrightarrow>
     fs_remove_file (child d ''merge_control_file'') (files s) = Inr (files s')"
  by (auto simp: admit_interesting_def bindS_eq_Inr fs_step_def Let_def split: prod.split_asm sum.split_asm)

text \<open>\<^verbatim>\<open>evolve_corpus\<close> writes no file of the work directory but the Minimize binary
  and the merge control file.\<close>

lemma evolve_corpus_absent:
  assumes "evolve_corpus tc p s = (Inr u, s')" "files s (dirname p) = Some es" "FileE f \<notin> set es"
    "f \<noteq> basename (path_with_extension p ''evo.out'')" "f \<noteq> ''merge_control_file''"
  shows "\<exists>es'. files s' (dirname p) = Some es' \<and> FileE f \<notin> set es'"
proof -
  let ?m1 = "write_file (path_with_extension p ''evo.out'') (files s)"
  let ?m2 = "write_file (child (dirname p) ''merge_control_file'') ?m1"
  obtain g cfs where a: "admit_interesting tc (dirname p) g cfs (s\<lparr>files := ?m2\<rparr>) = (Inr u, s')"
    using evolve_corpus_Inr [OF assms(1)] by blast
  obtain es1 where e1: "?m1 (dirname p) = Some es1" "FileE f \<notin> set es1"
    using write_file_absent [of "files s" "dirname p" es f "path_with_extension p ''evo.out''"] assms(2-4)
    by auto
  obtain es2 where e2: "?m2 (dirname p) = Some es2" "FileE f \<notin> set es2"
    using write_file_absent [of ?m1 "dirname p" es1 f "child (dirname p) ''merge_control_file''"] e1 assms(5)
    by auto
  show ?thesis
    using fs_remove_file_absent [OF admit_interesting_files [OF a]] e2 by simp
qed

lemma get_work_seed_by_id_fresh:
  "get_work_seed_by_id base n s = (Inr p, s1) \<Longrightarrow> files s (work_dir base n) = None
     \<Longrightarrow> files s1 (work_dir base n) = Some []"
  by (auto simp: get_work_seed_by_id_def fs_step_def fs_create_dir_def
      split: sum.split_asm option.split_asm if_split_asm)

lemma test_corpus_evoluation_Inr:
  assumes "test_corpus_evoluation E tc st = (Inr (), st')"
  obtains base s1 where "deopt_new E ''cJSON'' = Inr base"
    "get_work_seed_by_id base 61 (fst st) = (Inr (work_seed base 61), s1)"
    "executor_new E = Inr ()" "evolve_corpus tc (work_seed base 61) s1 = (Inr (), fst st')"
proof -
  note defs = test_corpus_evoluation_def Let_def on_sys_def on_test_config_def
  obtain base where b: "deopt_new E ''cJSON'' = Inr base"
    using assms by (cases "deopt_new E ''cJSON''") (simp_all add: defs)
  obtain r1 s1 where g: "get_work_seed_by_id base 61 (fst st) = (r1, s1)"
    by (meson prod.exhaust)
  have r1: "r1 = Inr (work_seed base 61)"
  proof (cases r1)
    case Inl
    with assms b g show ?thesis by (simp add: defs)
  next
    case Inr
    with g show ?thesis
      by (auto simp: get_work_seed_by_id_def bindS_def fs_step_def split: sum.split_asm)
  qed
  have x: "executor_new E = Inr ()"
    using assms b g r1 by (cases "executor_new E") (simp_all add: defs)
  obtain r2 s2 where ev: "evolve_corpus tc (work_seed base 61) s1 = (r2, s2)"
    by (meson prod.exhaust)
  have "r2 = Inr () \<and> st' = (s2, init_test ''cJSON'' (snd st))"
    using assms b g r1 x ev by (cases r2) (simp_all add: defs)
  with b g r1 x ev show ?thesis
    using that by auto
qed

subsection \<open>The example run\<close>

lemma example_test_paths:
  "work_dir ''w'' 99999 = ''w/99999''" "work_seed ''w'' 99999 = ''w/99999/id_099999.cc''"
  "work_dir ''w'' 888888 = ''w/888888''" "work_seed ''w'' 888888 = ''w/888888/id_888888.cc''"
  "work_dir ''w'' 61 = ''w/61''" "work_seed ''w'' 61 = ''w/61/id_000061.cc''"
  by (simp_all add: work_seed_def work_dir_def seed_name_test_ids nat_string_test_ids child_def)

lemmas test_eval = example_test_env_def example_test_state_def on_test_config_def on_sys_def
  check_test_program_def get_work_seed_by_id_def example_test_paths fs_copy_def collect_path_def
  stage_eval evolve_eval path_eval fs_eval Let_def example_toolchain_def run_compile_def

lemma example_coverage_test:
  "fst (test_coverage_sanitize example_test_env example_test_toolchain example_test_state) = Inr ()"
  by (simp add: test_coverage_sanitize_def example_test_toolchain_def test_eval)

lemma example_evolution_test:
  "fst (test_corpus_evoluation example_test_env example_toolchain example_test_state) = Inr ()"
  by (simp add: test_corpus_evoluation_def test_eval)

subsection \<open>Properties of the coverage test\<close>

text \<open>
  C11: When \<^verbatim>\<open>test_coverage_sanitize\<close> passes, the pipeline accepted the program copied
  to the work path of id 99999, whose timing log grew by all six stage keys (spec, scenario 1:
  a populated cost file), it rejected the program copied to the work path of id 888888 with a
  coverage error, and the statics hold the test configuration.
\<close>

theorem test_coverage_sanitize_passes:
  assumes "test_coverage_sanitize E tc st = (Inr (), st')"
  shows "\<exists>base s1 s2 s3 m. deopt_new E ''cJSON'' = Inr base \<and> executor_new E = Inr ()
    \<and> check_program_is_correct tc (work_seed base 99999) s1 = (Inr None, s2)
    \<and> check_program_is_correct tc (work_seed base 888888) s3 = (Inr (Some (Coverage m)), fst st')
    \<and> cost (fst st') (work_dir base 99999) = cost (fst st) (work_dir base 99999) @ stage_keys
    \<and> snd st' = init_test ''cJSON'' (snd st)"
proof -
  obtain base crate s1 m where b: "deopt_new E ''cJSON'' = Inr base" "executor_new E = Inr ()"
    and c1: "check_test_program tc base (collect_path crate [''testsuites'', ''sanitize'', ''cjson_cov_succ.cc''])
       99999 (fst st) = (Inr None, s1)"
    and c2: "check_test_program tc base (collect_path crate [''testsuites'', ''sanitize'', ''cjson_cov_fail.cc''])
       888888 s1 = (Inr (Some (Coverage m)), fst st')"
    and g: "snd st' = init_test ''cJSON'' (snd st)"
    using assms by (rule test_coverage_sanitize_Inr)
  from check_test_program_Inr [OF c1] obtain s0 where
    k1: "check_program_is_correct tc (work_seed base 99999) s0 = (Inr None, s1)" "cost s0 = cost (fst st)"
    by blast
  from check_test_program_Inr [OF c2] obtain s2 where
    k2: "check_program_is_correct tc (work_seed base 888888) s2 = (Inr (Some (Coverage m)), fst st')"
      "cost s2 = cost s1"
    by blast
  have "cost s1 (work_dir base 99999) = cost s0 (work_dir base 99999) @ stage_keys"
    using check_program_cost [OF k1(1)] by auto
  moreover have "cost (fst st') (work_dir base 99999) = cost s2 (work_dir base 99999)"
    using check_program_cost [OF k2(1)] test_work_dirs_apart(1) by auto
  ultimately show ?thesis
    using b k1 k2 g by auto
qed

theorem test_coverage_sanitize_passes_witness:
  "test_coverage_sanitize example_test_env example_test_toolchain example_test_state
     = (Inr (), snd (test_coverage_sanitize example_test_env example_test_toolchain example_test_state))
   \<and> cost (fst (snd (test_coverage_sanitize example_test_env example_test_toolchain example_test_state)))
       ''w/99999'' = stage_keys"
proof -
  have eq: "test_coverage_sanitize example_test_env example_test_toolchain example_test_state
     = (Inr (), snd (test_coverage_sanitize example_test_env example_test_toolchain example_test_state))"
    using example_coverage_test by (metis prod.collapse)
  from test_coverage_sanitize_passes [OF eq] eq show ?thesis
    by (auto simp: example_test_env_def example_test_state_def example_test_paths)
qed

text \<open>
  C12: \<^verbatim>\<open>test_coverage_sanitize\<close> calls \<^verbatim>\<open>check_program_is_correct\<close>, which
  never removes a work directory: after the test passes, the work directory of the rejected
  program 888888 is still there, as is that of the accepted one (the spec's scenario 2 says
  the rejected candidate's work directory is removed; only
  \<^verbatim>\<open>check_programs_are_correct\<close> removes it).
\<close>

theorem test_coverage_sanitize_keeps_work_dirs:
  assumes "test_coverage_sanitize E tc st = (Inr (), st')"
  shows "\<exists>base. deopt_new E ''cJSON'' = Inr base
    \<and> files (fst st') (work_dir base 99999) \<noteq> None \<and> files (fst st') (work_dir base 888888) \<noteq> None"
proof -
  obtain base crate s1 m where b: "deopt_new E ''cJSON'' = Inr base"
    and c1: "check_test_program tc base (collect_path crate [''testsuites'', ''sanitize'', ''cjson_cov_succ.cc''])
       99999 (fst st) = (Inr None, s1)"
    and c2: "check_test_program tc base (collect_path crate [''testsuites'', ''sanitize'', ''cjson_cov_fail.cc''])
       888888 s1 = (Inr (Some (Coverage m)), fst st')"
    using assms by (rule test_coverage_sanitize_Inr)
  from check_test_program_Inr [OF c1] obtain s0 where
    k1: "check_program_is_correct tc (work_seed base 99999) s0 = (Inr None, s1)"
      "files s0 (work_dir base 99999) \<noteq> None"
    by blast
  have d1: "files s1 (work_dir base 99999) \<noteq> None"
    using check_program_keeps [of s0 "work_dir base 99999" "work_seed base 99999" tc] k1 by simp
  from check_test_program_Inr [OF c2, of "work_dir base 99999"] d1 obtain s2 where
    k2: "check_program_is_correct tc (work_seed base 888888) s2 = (Inr (Some (Coverage m)), fst st')"
      "files s2 (work_dir base 888888) \<noteq> None" "files s2 (work_dir base 99999) \<noteq> None"
    by blast
  have "files (fst st') (work_dir base 99999) \<noteq> None"
    using check_program_keeps [of s2 "work_dir base 99999" "work_seed base 888888" tc] k2 test_work_dirs_apart
    by simp
  moreover have "files (fst st') (work_dir base 888888) \<noteq> None"
    using check_program_keeps [of s2 "work_dir base 888888" "work_seed base 888888" tc] k2 by simp
  ultimately show ?thesis
    using b by blast
qed


theorem test_coverage_sanitize_keeps_work_dirs_witness:
  "test_coverage_sanitize example_test_env example_test_toolchain example_test_state
     = (Inr (), snd (test_coverage_sanitize example_test_env example_test_toolchain example_test_state))
   \<and> files (fst (snd (test_coverage_sanitize example_test_env example_test_toolchain example_test_state)))
       ''w/888888'' \<noteq> None"
proof -
  have eq: "test_coverage_sanitize example_test_env example_test_toolchain example_test_state
     = (Inr (), snd (test_coverage_sanitize example_test_env example_test_toolchain example_test_state))"
    using example_coverage_test by (metis prod.collapse)
  from test_coverage_sanitize_keeps_work_dirs [OF eq] eq show ?thesis
    by (auto simp: example_test_env_def example_test_paths)
qed

subsection \<open>Properties of the corpus-evolution test\<close>

text \<open>
  C13: \<^verbatim>\<open>test_corpus_evoluation\<close> evolves the corpus of work seed 61 without writing
  a program there: when its work directory did not exist before, a passing run leaves no
  \<^verbatim>\<open>id_000061.cc\<close> in it, yet its Minimize build must have succeeded. On a fresh work
  directory the test can only pass with a compiler that builds a missing source.
\<close>

theorem test_corpus_evoluation_without_program:
  assumes "test_corpus_evoluation E tc st = (Inr (), st')" "deopt_new E ''cJSON'' = Inr base"
    "files (fst st) (work_dir base 61) = None"
  shows "compile tc (work_seed base 61) (path_with_extension (work_seed base 61) ''evo.out'') Minimize = None
    \<and> (\<exists>es. files (fst st') (work_dir base 61) = Some es \<and> FileE (seed_name 61) \<notin> set es)"
proof -
  obtain s1 where g: "get_work_seed_by_id base 61 (fst st) = (Inr (work_seed base 61), s1)"
    and ev: "evolve_corpus tc (work_seed base 61) s1 = (Inr (), fst st')"
    using test_corpus_evoluation_Inr [OF assms(1)] assms(2) by auto
  have f: "files s1 (dirname (work_seed base 61)) = Some []"
    using get_work_seed_by_id_fresh [OF g assms(3)] by simp
  have "basename (path_with_extension (work_seed base 61) ''evo.out'') = ''id_000061.evo.out''"
    by (simp add: path_with_extension_def work_seed_def seed_name_test_ids(3) with_extension_def file_stem_def
        rsplit_dot_def)
  then have "\<exists>es. files (fst st') (dirname (work_seed base 61)) = Some es \<and> FileE (seed_name 61) \<notin> set es"
    using evolve_corpus_absent [OF ev f] by (simp add: seed_name_test_ids(3))
  moreover have "compile tc (work_seed base 61) (path_with_extension (work_seed base 61) ''evo.out'') Minimize = None"
    using evolve_corpus_Inr [OF ev] by blast
  ultimately show ?thesis
    by simp
qed


theorem test_corpus_evoluation_without_program_witness:
  "test_corpus_evoluation example_test_env example_toolchain example_test_state
     = (Inr (), snd (test_corpus_evoluation example_test_env example_toolchain example_test_state))
   \<and> files (fst example_test_state) ''w/61'' = None
   \<and> compile example_toolchain ''w/61/id_000061.cc'' ''w/61/id_000061.evo.out'' Minimize = None
   \<and> (\<exists>es. files (fst (snd (test_corpus_evoluation example_test_env example_toolchain example_test_state)))
          ''w/61'' = Some es \<and> FileE ''id_000061.cc'' \<notin> set es)"
proof -
  have eq: "test_corpus_evoluation example_test_env example_toolchain example_test_state
     = (Inr (), snd (test_corpus_evoluation example_test_env example_toolchain example_test_state))"
    using example_evolution_test by (metis prod.collapse)
  have b: "deopt_new example_test_env ''cJSON'' = Inr ''w''" "files (fst example_test_state) (work_dir ''w'' 61) = None"
    by (simp_all add: example_test_env_def example_test_state_def example_test_paths)
  have "path_with_extension ''w/61/id_000061.cc'' ''evo.out'' = ''w/61/id_000061.evo.out''"
    by (simp add: path_eval)
  with test_corpus_evoluation_without_program [OF eq b] eq b show ?thesis
    by (simp add: example_test_paths seed_name_test_ids(3))
qed

end
