(* ===== verification/Spec2Isabelle.thy ===== *)
theory Spec2Isabelle
  imports Handler SanitizeTests
begin

text \<open>
  Verification development of PromptFuzz's sanitization and corpus-evolution pipeline
  (src/src/execution/sanitize.rs), its OpenAI request handler (src/src/request/openai.rs)
  and its process-wide configuration (src/src/config.rs).

  \<^bold>\<open>The program.\<close> The LLM handler asks for fuzz drivers (\<^verbatim>\<open>get_chat_response\<close>,
  at most \<^verbatim>\<open>RETRY_N\<close> = 5 attempts), bills the tokens into process-wide \<^verbatim>\<open>u32\<close>
  counters persisted in a usage file, and strips the code fence from each answer
  (\<^verbatim>\<open>strip_code_wrapper\<close>). The batch supervisor
  (\<^verbatim>\<open>check_programs_are_correct\<close>) writes each candidate to its work directory, checks
  the candidates in batches of worker processes (\<^verbatim>\<open>concurrent_check\<close>), reports the stage
  times and applies the cleanup policy. A worker runs \<^verbatim>\<open>check_program_is_correct\<close>: five
  stages in order (syntax, link, execution on the shared corpus, fuzzing, coverage), the first
  error verdict winning; the coverage stage calls \<^verbatim>\<open>evolve_corpus\<close>, which admits into the
  shared corpus every input with a feature new to the persisted global feature set.
  \<^verbatim>\<open>recheck_seed\<close> later re-runs the accepted seeds on the grown corpus and demotes those
  that now fail. The configuration lives in one-shot globals (\<^verbatim>\<open>OnceCell\<close>s) set at start.

  \<^bold>\<open>Theories.\<close>
  \<^item> \<open>Prelude\<close>: the error type \<open>failure\<close> (an \<^verbatim>\<open>eyre\<close> error or a panic), the
    result type \<open>failure + 'a\<close> with \<open>bindR\<close> (the \<^verbatim>\<open>?\<close> operator), and the outcome
    \<open>'a result \<times> 's\<close> with \<open>bindS\<close>, for code whose effects before a failure persist.
  \<^item> \<open>Fs\<close>: paths as strings, the directory tree as a map from a directory to its entries,
    the \<^verbatim>\<open>std::path\<close>/\<^verbatim>\<open>std::fs\<close> calls the code makes, and the invariant
    \<open>names_inv\<close> (no entry name contains the separator) that each call preserves.
  \<^item> \<open>Cleanup\<close>: \<^verbatim>\<open>utils::cleanup_sanitize_dir\<close> (lines 378--394).
  \<^item> \<open>Model\<close>: \<^verbatim>\<open>ProgramError\<close>, the state \<open>sys\<close> (file tree, shared corpus,
    persisted feature set, timing logs) and the record \<open>toolchain\<close> of the external programs
    (clang, the helpers of \<^verbatim>\<open>Executor\<close>, llvm-cov, libFuzzer), not in the sources; every
    theorem is quantified over it.
  \<^item> \<open>Evolve\<close>: \<^verbatim>\<open>Executor::evolve_corpus\<close> (lines 265--310), refining the abstract
    \<open>novel_files\<close>.
  \<^item> \<open>Pipeline\<close>: the five stages and \<^verbatim>\<open>check_program_is_correct\<close> (lines 27--155).
  \<^item> \<open>Serde\<close>: decimal printing and parsing of numbers and the JSON of
    \<^verbatim>\<open>ProgramError\<close> (serde's format, not in the sources), with their round trips.
  \<^item> \<open>Supervisor\<close>: \<^verbatim>\<open>check_programs_are_correct\<close>, \<^verbatim>\<open>concurrent_check\<close>,
    \<^verbatim>\<open>concurrent_check_batch\<close> and \<^verbatim>\<open>print_san_cost\<close> (lines 157--261 and 349--376);
    the worker processes are the record \<open>host\<close>, and \<open>serial_host\<close> runs them one
    after the other; \<open>chunks\<close>/\<open>run_batches\<close> are the abstract batching.
  \<^item> \<open>OpenAI\<close>: \<^verbatim>\<open>strip_code_wrapper\<close>, the billing counters as \<open>32 word\<close>s with
    \<^verbatim>\<open>+=\<close> panicking on overflow, the usage file, the retry loop of
    \<^verbatim>\<open>get_chat_response\<close>/\<^verbatim>\<open>get_complete_response\<close> over \<open>[0..<unat RETRY_N]\<close>
    with \<open>RETRY_N :: 8 word\<close>, \<^verbatim>\<open>generate_programs_by_chat\<close> and the infill stop
    sequence. The HTTP client is replaced by the argument \<open>respond\<close>: the response to the
    \<open>k\<close>-th attempt.
  \<^item> \<open>Config\<close>: the \<^verbatim>\<open>OnceCell\<close> statics as the record \<open>globals\<close> of cells, every
    function of config.rs that sets or reads them, \<^verbatim>\<open>Config\<close> with its defaults,
    \<^verbatim>\<open>LibConfig\<close>, the generation templates and \<^verbatim>\<open>str::replace\<close>; the operations form
    the step function \<open>config_step\<close> and the inductive predicate \<open>reachable\<close>.
  \<^item> \<open>Handler\<close>: \<^verbatim>\<open>OpenAIHanler\<close> and the request side of openai.rs
    (\<^verbatim>\<open>create_chat_request\<close>, \<^verbatim>\<open>create_infill_request\<close>, \<^verbatim>\<open>get_client\<close>,
    the three generators) on the statics of \<open>Config\<close> together with the billing counters
    and the \<^verbatim>\<open>CLIENT\<close> cell: the requests read the model, sample count, temperature and
    proxy from the statics, and \<open>usage_env_of\<close> gives the billing the library name and
    prices they hold, so an unset static panics where the code panics. The service,
    \<^verbatim>\<open>is_critical_err\<close>, the usage file and the async runtime are the record \<open>llm\<close>.
  \<^item> \<open>Recheck\<close>: \<^verbatim>\<open>Executor::recheck_seed\<close> (lines 312--340) on the system state
    paired with the outer loop's seed queue; the calls into \<^verbatim>\<open>Deopt\<close> are the record
    \<open>recheck_env\<close>.
  \<^item> \<open>SanitizeTests\<close>: the test module of sanitize.rs (lines 395--472):
    \<^verbatim>\<open>test_coverage_sanitize\<close>, \<^verbatim>\<open>test_sanitization_for_a_program\<close> and
    \<^verbatim>\<open>test_corpus_evoluation\<close> on the system state paired with the statics of
    \<open>Config\<close> (\<^verbatim>\<open>Config::init_test\<close>), each \<^verbatim>\<open>std::fs::copy\<close> of a test
    program into its work path, the pipeline or \<^verbatim>\<open>evolve_corpus\<close> run on it, and the
    assertions as panics. A test program's content is what the toolchain answers at the work
    path it was copied to; \<^verbatim>\<open>Deopt::new\<close>, \<^verbatim>\<open>Executor::new\<close> and the crate
    directory are the record \<open>test_env\<close>.

  \<^bold>\<open>What is shown.\<close> Evolution admits exactly the inputs with a novel feature (a second
  pass admits nothing) and persists the store only after the copy succeeded; the pipeline
  equals the reference \<open>run_stages\<close>, which runs the stages in order and returns the first
  failure without running a later stage; each verdict comes from its stage; an accepted
  candidate passed every tool, its driver and fuzzer run against the shared corpus the
  pipeline started with; a coverage rejection still evolves the corpus. The supervisor
  returns one verdict per candidate for every core count, equals the serial reference when the
  workers do not overlap, and leaves every work directory cleaned or removed by its verdict.
  The retry loop returns the first normal response among the first five and depends on no
  later one; logging adds the token counts exactly or panics on overflow; the usage file reads
  back what was logged; the fence stripping is characterised on fenced and unfenced answers,
  and an explanation containing \<^verbatim>\<open>*/\<close> closes its comment early.
  The configuration statics never change once set, a second initialisation panics, the cached
  template always matches the configured target, and the template getter equals the reference
  replacement. Once the environment is initialised and the configuration parsed, requests
  build with the configured parameters; an uninitialised process panics before any request;
  the handler's programs come from the first normal response and carry the prompt's
  combination; an infill suffix whose byte 10 is missing or inside a character panics before
  any request, and otherwise its first ten bytes are the stop sequence of the request. Recheck
  leaves in the success directory exactly the seeds that still pass.
  The pipeline removes no directory but the candidate's corpus (\<open>check_program_keeps\<close>),
  so a passing coverage test leaves the accepted program's timing log with all six stage keys
  and both work directories in place; the corpus-evolution test passes on a fresh work
  directory only if the Minimize build of a source it never wrote succeeds.

  \<^bold>\<open>Findings.\<close> \<^verbatim>\<open>print_san_cost\<close> panics on an empty batch; zero cores panic;
  evolution runs inside the workers and on coverage rejections, against the spec; an
  explanation containing \<^verbatim>\<open>*/\<close> escapes the comment \<^verbatim>\<open>strip_code_wrapper\<close> puts
  it in; a suffix shorter than ten bytes, or split inside a character at byte 10, panics the
  infill handler; a demoted seed stays in
  the outer queue when its seed file is missing; \<^verbatim>\<open>parse_config\<close> cannot be retried;
  the coverage test does not observe the work-directory removal of the spec's scenario 2;
  \<^verbatim>\<open>test_corpus_evoluation\<close> depends on a work directory left by an earlier run.

  \<^bold>\<open>Bounds and termination.\<close> No loop needs fuel. The loops of the code run over finite
  lists (structural recursion or folds); the retry loop runs over the \<open>unat RETRY_N\<close> = 5
  attempt numbers; \<open>json_unescape\<close>, \<open>match_from\<close>, \<open>replace_str\<close> and
  \<open>chunks\<close> are \<open>function\<close>s with a termination proof by a length measure.

  The example run of the coverage test in \<open>SanitizeTests\<close> is evaluated by
  \<open>simp\<close> through both pipeline runs; it is the slowest proof of the development.

  \<^bold>\<open>Modelling choices.\<close> External tools, the worker processes, the HTTP client and the
  \<^verbatim>\<open>Deopt\<close> file layout are functions of their inputs, and every theorem holds for all of
  them. \<^verbatim>\<open>f32\<close> values are real numbers (rounding not modelled); their decimal text is an
  environment function. Writing the timing log and reading the feature store never fail, and
  the lookups of the library's shared-corpus directory and feature file (calls into
  \<^verbatim>\<open>Deopt\<close>, not in the sources) are taken to succeed. Strings are UTF-8 byte strings:
  \<^verbatim>\<open>str::trim\<close> removes the encodings of the \<open>White_Space\<close> code points, and a
  slice at a byte inside a character panics. The \<^verbatim>\<open>u32\<close> counters follow the
  overflow-checked (debug) profile, where \<^verbatim>\<open>+=\<close> panics; a release build would wrap. When
  a worker process cannot be spawned, \<^verbatim>\<open>concurrent_check_batch\<close> panics in the model with
  the state unchanged, while the code has already started the earlier workers of the batch.

  \<^bold>\<open>Not modelled.\<close> The real concurrency of the worker processes (only the schedule in
  which they do not overlap is related to the serial reference); the HTTP client, request
  builders and message formatting of the OpenAI handler; clap's argument parsing, the compiler
  flag arrays and the context and infill templates of config.rs, which no modelled function
  reads (the compiler flags and timeouts are arguments of the tools of \<open>toolchain\<close>); the
  prompt formatting of prompt.rs, which is not in the sources; the contents of the cJSON test
  programs and the log output of the tests (\<^verbatim>\<open>println!\<close>), which the tests never
  inspect.
\<close>

end
